theory Spec2Isabelle
  imports Complex_Main "HOL-Library.Log_Nat"
begin


section \<open>Numbers, vectors and external values\<close>

text \<open>
  A JavaScript number is an IEEE-754 double.  The radius of a sensor is the one number of
  the program that is infinite by default (\<^verbatim>\<open>Number.POSITIVE_INFINITY\<close>), so it is kept
  as a \<open>jsnum\<close>; angles and coordinates are finite numbers and are modelled as reals.
\<close>

datatype jsnum = JsNaN | NegInfinity | Num real | PosInfinity

text \<open>\<^verbatim>\<open>isFinite(x)\<close> and the comparison \<^verbatim>\<open>x < 0.0\<close> on a JavaScript number.\<close>

fun isFinite :: "jsnum \<Rightarrow> bool" where
  "isFinite (Num x) = True"
| "isFinite JsNaN = False"
| "isFinite NegInfinity = False"
| "isFinite PosInfinity = False"

fun lessThanZero :: "jsnum \<Rightarrow> bool" where
  "lessThanZero (Num x) = (x < 0)"
| "lessThanZero NegInfinity = True"
| "lessThanZero JsNaN = False"
| "lessThanZero PosInfinity = False"

datatype error = DeveloperError string | TypeError string

subsection \<open>Rounding\<close>

text \<open>
  Rounding to nearest, ties to even, as IEEE 754 fixes it.  \<open>binaryExponent x\<close> is the \<open>e\<close>
  with \<open>2^e \<le> |x| < 2^(e+1)\<close>.  \<open>round64\<close> rounds a real to the nearest double (53
  significant bits; below \<open>2^(-1022)\<close> the spacing of the doubles is constant), \<open>round32\<close>
  to the nearest single-precision number (24 significant bits, constant spacing below
  \<open>2^(-126)\<close>).  \<open>fround\<close> is the narrowing that storing into a \<^verbatim>\<open>Float32Array\<close> performs: a
  number that rounds to \<open>2^128\<close> or beyond in size becomes an infinity.
\<close>

definition roundTiesToEven :: "real \<Rightarrow> int" where
  "roundTiesToEven x =
     (let f = \<lfloor>x\<rfloor>; d = x - of_int f
      in if d < 1 / 2 then f else if 1 / 2 < d then f + 1 else if even f then f else f + 1)"

definition binaryExponent :: "real \<Rightarrow> int" where
  "binaryExponent x =
     (let a = \<bar>x\<bar>
      in if 1 \<le> a then bitlen \<lfloor>a\<rfloor> - 1
         else (let n = bitlen \<lfloor>1 / a\<rfloor>
               in if a * 2 ^ nat (n - 1) = 1 then 1 - n else - n))"

definition round64 :: "real \<Rightarrow> real" where
  "round64 x =
     (if x = 0 then 0
      else (let e = max (binaryExponent x) (- 1022);
                ulp = 2 powi (e - 52)
            in of_int (roundTiesToEven (x / ulp)) * ulp))"

definition round32 :: "real \<Rightarrow> real" where
  "round32 x =
     (if x = 0 then 0
      else (let e = max (binaryExponent x) (- 126);
                ulp = 2 powi (e - 23)
            in of_int (roundTiesToEven (x / ulp)) * ulp))"

definition fround :: "real \<Rightarrow> jsnum" where
  "fround x =
     (let y = round32 x
      in if 2 ^ 128 \<le> \<bar>y\<bar> then (if 0 < y then PosInfinity else NegInfinity) else Num y)"

text \<open>\<^verbatim>\<open>Math.PI\<close>, the double nearest to \<open>pi\<close>.\<close>

definition MathPI :: real where
  "MathPI = 884279719003555 / 281474976710656"


type_synonym cartesian3 = "real \<times> real \<times> real"

record spherical =
  clock :: real
  cone :: real
  magnitude :: real

text \<open>
  \<^verbatim>\<open>const FAR = 5906376272000.0\<close>, and the radius the mesher and the shader use,
  \<^verbatim>\<open>isFinite(radius) ? radius : FAR\<close>.
\<close>

definition FAR :: real where
  "FAR = 5906376272000"

definition finiteRadius :: "jsnum \<Rightarrow> real" where
  "finiteRadius x = (case x of Num r \<Rightarrow> r | _ \<Rightarrow> FAR)"

subsection \<open>Cesium's vector functions\<close>

text \<open>
  The functions of \<^verbatim>\<open>Cesium/Core/Cartesian3\<close> that the mesher calls, over exact real
  arithmetic: the rounding of each operation to a double is not modelled.
\<close>

definition fromSpherical :: "spherical \<Rightarrow> cartesian3" where
  "fromSpherical s =
     (let radial = magnitude s * sin (cone s)
      in (radial * cos (clock s), radial * sin (clock s), magnitude s * cos (cone s)))"

fun dot :: "cartesian3 \<Rightarrow> cartesian3 \<Rightarrow> real" where
  "dot (ax, ay, az) (bx, by, bz) = ax * bx + ay * by + az * bz"

fun cross :: "cartesian3 \<Rightarrow> cartesian3 \<Rightarrow> cartesian3" where
  "cross (ax, ay, az) (bx, by, bz) =
     (ay * bz - az * by, az * bx - ax * bz, ax * by - ay * bx)"

definition magnitudeOf :: "cartesian3 \<Rightarrow> real" where
  "magnitudeOf v = sqrt (dot v v)"

fun multiplyByScalar :: "cartesian3 \<Rightarrow> real \<Rightarrow> cartesian3" where
  "multiplyByScalar (x, y, z) s = (x * s, y * s, z * s)"

fun subtract :: "cartesian3 \<Rightarrow> cartesian3 \<Rightarrow> cartesian3" where
  "subtract (ax, ay, az) (bx, by, bz) = (ax - bx, ay - by, az - bz)"

fun multiplyComponents :: "cartesian3 \<Rightarrow> cartesian3 \<Rightarrow> cartesian3" where
  "multiplyComponents (ax, ay, az) (bx, by, bz) = (ax * bx, ay * by, az * bz)"

text \<open>
  \<^verbatim>\<open>Cartesian3.normalize\<close> divides by the magnitude and throws when a component of the result
  is \<^verbatim>\<open>NaN\<close>, which on real vectors is the case of the zero vector.
\<close>

definition unitVector :: "cartesian3 \<Rightarrow> cartesian3" where
  "unitVector v = (case v of (x, y, z) \<Rightarrow>
     (let m = magnitudeOf v in (x / m, y / m, z / m)))"

definition normalize :: "cartesian3 \<Rightarrow> error + cartesian3" where
  "normalize v =
     (if magnitudeOf v = 0 then Inl (DeveloperError ''normalized result is not a number'')
      else Inr (unitVector v))"

text \<open>
  \<^verbatim>\<open>Math.atan2(y, x)\<close> on finite numbers.  It answers a double, and the doubles it answers
  lie between \<^verbatim>\<open>-Math.PI\<close> and \<^verbatim>\<open>Math.PI\<close>, which is below \<open>pi\<close>: an exact angle beyond
  that range is answered as its end (the angle of two opposite vectors is \<^verbatim>\<open>Math.PI\<close>).
  No other rounding of the angle is modelled.
\<close>

definition atan2 :: "real \<Rightarrow> real \<Rightarrow> real" where
  "atan2 y x =
     max (- MathPI) (min MathPI
       (if 0 < x then arctan (y / x)
        else if x < 0 then (if 0 \<le> y then arctan (y / x) + pi else arctan (y / x) - pi)
        else if 0 < y then pi / 2
        else if y < 0 then - (pi / 2)
        else 0))"

text \<open>
  \<^verbatim>\<open>Cartesian3.angleBetween\<close> normalizes both vectors and takes the angle from the sine and
  the cosine; \<open>angleOf\<close> is its value where it returns.
\<close>

definition angleOf :: "cartesian3 \<Rightarrow> cartesian3 \<Rightarrow> real" where
  "angleOf left right =
     (let l = unitVector left;
          r = unitVector right;
          cosine = dot l r;
          sine = magnitudeOf (cross l r)
      in atan2 sine cosine)"

definition angleBetween :: "cartesian3 \<Rightarrow> cartesian3 \<Rightarrow> error + real" where
  "angleBetween left right =
     (case normalize left of
        Inl e \<Rightarrow> Inl e
      | Inr l \<Rightarrow>
          (case normalize right of
             Inl e \<Rightarrow> Inl e
           | Inr r \<Rightarrow> Inr (angleOf left right)))"

text \<open>
  \<^verbatim>\<open>Matrix4\<close> values are the sixteen entries; \<^verbatim>\<open>Matrix4.equals\<close> compares them by value.
  A bounding sphere is kept as the expression that built it: \<^verbatim>\<open>BoundingSphere.fromPoints\<close>
  and \<^verbatim>\<open>BoundingSphere.transform\<close> belong to the rendering library.
\<close>

type_synonym matrix4 = "real list"

definition IDENTITY :: matrix4 where
  "IDENTITY = [1, 0, 0, 0,  0, 1, 0, 0,  0, 0, 1, 0,  0, 0, 0, 1]"

datatype boundingSphere =
    EmptySphere
  | FromPoints "cartesian3 list"
  | Transform boundingSphere matrix4

section \<open>The volume primitive (CustomSensorVolume)\<close>

datatype sceneMode = MORPHING | COLUMBUS_VIEW | SCENE2D | SCENE3D

datatype pass = OPAQUE | TRANSLUCENT

datatype cullFace = FRONT | BACK

record renderState =
  depthTestEnabled :: bool
  depthMask :: bool
  alphaBlend :: bool
  cull :: "cullFace option"

text \<open>
  A material is an object of the rendering library: its identity (the reference that
  \<^verbatim>\<open>!==\<close> compares) and what \<^verbatim>\<open>isTranslucent()\<close> answers.
\<close>

record material =
  materialRef :: nat
  isTranslucent :: bool

text \<open>
  A shader program is named by the material whose source it was compiled from and by
  whether it is the pick variant.
\<close>

datatype shaderProgram = ShaderFor nat bool

record drawCommand =
  vertexArray :: "nat option"
  renderStateOf :: "renderState option"
  passOf :: "pass option"
  shaderProgramOf :: "shaderProgram option"
  modelMatrixOf :: "matrix4 option"
  normalDirection :: "real option"
  pickColorOf :: "nat option"

definition newDrawCommand :: drawCommand where
  "newDrawCommand = \<lparr> vertexArray = None, renderStateOf = None, passOf = None,
     shaderProgramOf = None, modelMatrixOf = None, normalDirection = None,
     pickColorOf = None \<rparr>"

text \<open>
  The rendering context owns the vertex arrays and the pick ids.  A vertex array holds the
  interleaved vertex data it was created from; destroying it removes it.
\<close>

record renderContext =
  vertexArrays :: "nat \<rightharpoonup> real list"
  nextVertexArray :: nat
  pickIds :: "nat set"
  nextPickId :: nat

record frameState =
  mode :: sceneMode
  renderPass :: bool
  pickPass :: bool
  commandList :: "drawCommand list"
  contextOf :: renderContext

record customSensorVolume =
  showFlag :: bool
  showIntersection :: bool
  showThroughEllipsoid :: bool
  p_showThroughEllipsoid :: bool
  modelMatrix :: matrix4
  p_modelMatrix :: matrix4
  radius :: jsnum
  p_directions :: "spherical list option"
  p_directionsDirty :: bool
  lateralSurfaceMaterial :: "material option"
  p_lateralSurfaceMaterial :: "material option"
  p_translucent :: "bool option"
  intersectionWidth :: real
  idOf :: "string option"
  p_id :: "string option"
  p_pickId :: "nat option"
  p_va :: "nat option"
  p_mode :: sceneMode
  p_boundingSphere :: boundingSphere
  p_boundingSphereWC :: boundingSphere
  p_frontFaceColorCommand :: drawCommand
  p_backFaceColorCommand :: drawCommand
  p_pickCommand :: drawCommand

text \<open>The setter of \<^verbatim>\<open>directions\<close>: it stores the value and marks the geometry dirty.\<close>

definition setDirections :: "spherical list option \<Rightarrow> customSensorVolume \<Rightarrow> customSensorVolume" where
  "setDirections v p = p\<lparr> p_directions := v, p_directionsDirty := True \<rparr>"

text \<open>
  \<^verbatim>\<open>new CustomSensorVolume()\<close> with no options.  The default material is a fresh
  \<^verbatim>\<open>Material.fromType(Material.ColorType)\<close>, whose reference the caller supplies.
\<close>

definition newCustomSensorVolume :: "material \<Rightarrow> customSensorVolume" where
  "newCustomSensorVolume m =
     setDirections (Some [])
       \<lparr> showFlag = True, showIntersection = True, showThroughEllipsoid = False,
         p_showThroughEllipsoid = False, modelMatrix = IDENTITY, p_modelMatrix = replicate 16 0,
         radius = PosInfinity, p_directions = None, p_directionsDirty = False,
         lateralSurfaceMaterial = Some m, p_lateralSurfaceMaterial = None,
         p_translucent = None, intersectionWidth = 5, idOf = None, p_id = None,
         p_pickId = None, p_va = None, p_mode = SCENE3D,
         p_boundingSphere = EmptySphere, p_boundingSphereWC = EmptySphere,
         p_frontFaceColorCommand = newDrawCommand, p_backFaceColorCommand = newDrawCommand,
         p_pickCommand = newDrawCommand \<rparr>"


section \<open>The volume mesher\<close>

text \<open>
  Reading \<^verbatim>\<open>a[i]\<close> of a JavaScript array gives \<^verbatim>\<open>undefined\<close> out of range; storing into a
  typed array out of range does nothing.  The positions are a \<^verbatim>\<open>Float32Array\<close>: a coordinate
  is narrowed to single precision when it is stored, and may become infinite.
\<close>

definition getAt :: "'a list \<Rightarrow> int \<Rightarrow> 'a option" where
  "getAt xs i = (if 0 \<le> i \<and> i < int (length xs) then Some (xs ! nat i) else None)"

definition putAt :: "'a list \<Rightarrow> int \<Rightarrow> 'a \<Rightarrow> 'a list" where
  "putAt xs i v = (if 0 \<le> i \<and> i < int (length xs) then xs[nat i := v] else xs)"

definition storePosition :: "jsnum list \<Rightarrow> int \<Rightarrow> cartesian3 \<Rightarrow> jsnum list" where
  "storePosition positions j p = (case p of (x, y, z) \<Rightarrow>
     putAt (putAt (putAt positions (j * 3) (fround x)) (j * 3 + 1) (fround y))
       (j * 3 + 2) (fround z))"

text \<open>
  The loop of \<^verbatim>\<open>computePositions\<close>:
  \<^verbatim>\<open>for (var i = length - 2, j = length - 1, k = 0; k < length; i = j++, j = k++)\<close>.
  After an iteration \<open>i\<close> is the old \<open>j\<close>, \<open>j\<close> is the old \<open>k\<close> and \<open>k\<close> is one more.  The
  angle is at most \<^verbatim>\<open>Math.PI\<close>, so the cosine of its half is positive.
\<close>

function computePositionsLoop ::
  "spherical list \<Rightarrow> real \<Rightarrow> int \<Rightarrow> int \<Rightarrow> nat \<Rightarrow> jsnum list \<Rightarrow> cartesian3 list
     \<Rightarrow> error + (jsnum list \<times> cartesian3 list)" where
  "computePositionsLoop directions r i j k positions boundingVolumePositions =
     (if k < length directions then
        (case getAt directions i of
           None \<Rightarrow> Inl (TypeError ''spherical is undefined'')
         | Some d0 \<Rightarrow>
        (case getAt directions j of
           None \<Rightarrow> Inl (TypeError ''spherical is undefined'')
         | Some d1 \<Rightarrow>
        (case getAt directions (int k) of
           None \<Rightarrow> Inl (TypeError ''spherical is undefined'')
         | Some d2 \<Rightarrow>
             (let n0 = fromSpherical d0;
                  n1 = fromSpherical d1;
                  n2 = fromSpherical d2
              in case angleBetween n0 n1 of
                   Inl e \<Rightarrow> Inl e
                 | Inr angle01 \<Rightarrow>
                (case angleBetween n1 n2 of
                   Inl e \<Rightarrow> Inl e
                 | Inr angle12 \<Rightarrow>
                     (let theta = max angle01 angle12;
                          distance = r / cos (theta * 0.5);
                          p = multiplyByScalar n1 distance
                      in computePositionsLoop directions r j (int k) (Suc k)
                           (storePosition positions j p) (boundingVolumePositions @ [p])))))))
      else Inr (positions, boundingVolumePositions))"
  by pat_completeness auto
termination
  by (relation "measure (\<lambda>(directions, r, i, j, k, positions, bvp). length directions - k)") auto

declare computePositionsLoop.simps [simp del]

definition computePositions ::
  "customSensorVolume \<Rightarrow> error + (jsnum list \<times> boundingSphere)" where
  "computePositions customSensorVolume =
     (case p_directions customSensorVolume of
        None \<Rightarrow> Inl (TypeError ''directions is undefined'')
      | Some directions \<Rightarrow>
          (let len = int (length directions);
               positions = replicate (3 * nat len) (Num 0);
               r = finiteRadius (radius customSensorVolume)
           in case computePositionsLoop directions r (len - 2) (len - 1) 0 positions [(0, 0, 0)] of
                Inl e \<Rightarrow> Inl e
              | Inr (positions', points) \<Rightarrow> Inr (positions', FromPoints points)))"

text \<open>
  The loop of \<^verbatim>\<open>createVertexArray\<close>, \<^verbatim>\<open>for (var i = length - 1, j = 0; j < length; i = j++)\<close>:
  one triangle per edge, the sensor vertex first, each vertex followed by the face normal.
  When a coordinate of one of the two positions is infinite, a component of their cross
  product is infinite or \<^verbatim>\<open>NaN\<close>, its quotient by the magnitude is \<^verbatim>\<open>NaN\<close> and
  \<^verbatim>\<open>Cartesian3.normalize\<close> throws.  The vertices are a \<^verbatim>\<open>Float32Array\<close> too: the positions in it
  are single-precision already, the components of the normal are narrowed.
\<close>

definition positionAt :: "jsnum list \<Rightarrow> int \<Rightarrow> jsnum \<times> jsnum \<times> jsnum" where
  "positionAt positions i =
     (positions ! nat (i * 3), positions ! nat (i * 3 + 1), positions ! nat (i * 3 + 2))"

fun finitePosition :: "jsnum \<times> jsnum \<times> jsnum \<Rightarrow> cartesian3 option" where
  "finitePosition (Num x, Num y, Num z) = Some (x, y, z)"
| "finitePosition p = None"

function createVertices ::
  "jsnum list \<Rightarrow> nat \<Rightarrow> int \<Rightarrow> nat \<Rightarrow> real list \<Rightarrow> error + real list" where
  "createVertices positions len i j vertices =
     (if j < len then
        (case finitePosition (positionAt positions i) of
           None \<Rightarrow> Inl (DeveloperError ''normalized result is not a number'')
         | Some p0 \<Rightarrow>
        (case finitePosition (positionAt positions (int j)) of
           None \<Rightarrow> Inl (DeveloperError ''normalized result is not a number'')
         | Some p1 \<Rightarrow>
        (case normalize (cross p1 p0) of
           Inl e \<Rightarrow> Inl e
         | Inr n \<Rightarrow>
             (case (p0, p1, n) of ((p0x, p0y, p0z), (p1x, p1y, p1z), (nx, ny, nz)) \<Rightarrow>
                createVertices positions len (int j) (Suc j)
                  (vertices @ [0, 0, 0, round32 nx, round32 ny, round32 nz,
                               p1x, p1y, p1z, round32 nx, round32 ny, round32 nz,
                               p0x, p0y, p0z, round32 nx, round32 ny, round32 nz])))))
      else Inr vertices)"
  by pat_completeness auto
termination
  by (relation "measure (\<lambda>(positions, len, i, j, vertices). len - j)") auto

declare createVertices.simps [simp del]

text \<open>
  \<^verbatim>\<open>createVertexArray\<close>: the new vertex array gets the next free handle of the context.
  \<^verbatim>\<open>computePositions\<close> stores the bounding sphere in the primitive on the way.
\<close>

definition createVertexArray ::
  "customSensorVolume \<Rightarrow> renderContext \<Rightarrow> error + (nat \<times> customSensorVolume \<times> renderContext)" where
  "createVertexArray customSensorVolume ctx =
     (case computePositions customSensorVolume of
        Inl e \<Rightarrow> Inl e
      | Inr (positions, sphere) \<Rightarrow>
          (case p_directions customSensorVolume of
             None \<Rightarrow> Inl (TypeError ''directions is undefined'')
           | Some directions \<Rightarrow>
               (let len = length directions
                in case createVertices positions len (int len - 1) 0 [] of
                     Inl e \<Rightarrow> Inl e
                   | Inr vertices \<Rightarrow>
                       (let va = nextVertexArray ctx
                        in Inr (va,
                                customSensorVolume\<lparr> p_boundingSphere := sphere \<rparr>,
                                ctx\<lparr> vertexArrays := (vertexArrays ctx)(va \<mapsto> vertices),
                                     nextVertexArray := Suc va \<rparr>)))))"


section \<open>The per-frame update of the primitive\<close>

text \<open>
  \<^verbatim>\<open>CustomSensorVolume.prototype.update\<close>, block by block.  A \<^verbatim>\<open>throw\<close> is the result
  \<open>Inl\<close>; a normal return gives the primitive and the frame state (with its command list
  and its context) as the call left them.
\<close>

text \<open>The render states of the three commands, rebuilt when a flag they depend on changed.\<close>

definition updateRenderStates :: "bool \<Rightarrow> customSensorVolume \<Rightarrow> customSensorVolume" where
  "updateRenderStates translucent p =
     (if p_showThroughEllipsoid p \<noteq> showThroughEllipsoid p
         \<or> renderStateOf (p_frontFaceColorCommand p) = None
         \<or> p_translucent p \<noteq> Some translucent
      then
        (let p1 = p\<lparr> p_showThroughEllipsoid := showThroughEllipsoid p,
                      p_translucent := Some translucent \<rparr>;
             through = showThroughEllipsoid p
         in if translucent then
              p1\<lparr> p_frontFaceColorCommand := (p_frontFaceColorCommand p1)
                     \<lparr> renderStateOf := Some \<lparr> depthTestEnabled = \<not> through, depthMask = False,
                                               alphaBlend = True, cull = Some BACK \<rparr>,
                       passOf := Some TRANSLUCENT \<rparr>,
                  p_backFaceColorCommand := (p_backFaceColorCommand p1)
                     \<lparr> renderStateOf := Some \<lparr> depthTestEnabled = \<not> through, depthMask = False,
                                               alphaBlend = True, cull = Some FRONT \<rparr>,
                       passOf := Some TRANSLUCENT \<rparr>,
                  p_pickCommand := (p_pickCommand p1)
                     \<lparr> renderStateOf := Some \<lparr> depthTestEnabled = \<not> through, depthMask = False,
                                               alphaBlend = True, cull = None \<rparr> \<rparr> \<rparr>
            else
              p1\<lparr> p_frontFaceColorCommand := (p_frontFaceColorCommand p1)
                     \<lparr> renderStateOf := Some \<lparr> depthTestEnabled = True, depthMask = True,
                                               alphaBlend = False, cull = None \<rparr>,
                       passOf := Some OPAQUE \<rparr>,
                  p_pickCommand := (p_pickCommand p1)
                     \<lparr> renderStateOf := Some \<lparr> depthTestEnabled = True, depthMask = True,
                                               alphaBlend = False, cull = None \<rparr> \<rparr> \<rparr>)
      else p)"

text \<open>
  \<^verbatim>\<open>this._va = this._va && this._va.destroy()\<close>: a vertex array held in \<^verbatim>\<open>_va\<close> is
  destroyed (\<^verbatim>\<open>destroy()\<close> returns \<^verbatim>\<open>undefined\<close>); an undefined \<^verbatim>\<open>_va\<close> stays undefined.
\<close>

definition destroyVa :: "customSensorVolume \<Rightarrow> renderContext \<Rightarrow> customSensorVolume \<times> renderContext" where
  "destroyVa p ctx =
     (case p_va p of
        None \<Rightarrow> (p, ctx)
      | Some va \<Rightarrow> (p\<lparr> p_va := None \<rparr>, ctx\<lparr> vertexArrays := (vertexArrays ctx)(va := None) \<rparr>))"

text \<open>The block "Recreate vertex buffer when directions change".\<close>

definition updateVertexArray ::
  "customSensorVolume \<Rightarrow> renderContext \<Rightarrow> error + (customSensorVolume \<times> renderContext)" where
  "updateVertexArray p ctx =
     (if p_directionsDirty p then
        (case destroyVa (p\<lparr> p_directionsDirty := False \<rparr>) ctx of (p1, ctx1) \<Rightarrow>
           (case p_directions p1 of
              None \<Rightarrow> Inr (p1, ctx1)
            | Some directions \<Rightarrow>
                if 3 \<le> length directions then
                  (case createVertexArray p1 ctx1 of
                     Inl e \<Rightarrow> Inl e
                   | Inr (va, p2, ctx2) \<Rightarrow>
                       Inr (p2\<lparr> p_frontFaceColorCommand :=
                                   (p_frontFaceColorCommand p2)\<lparr> vertexArray := Some va \<rparr>,
                                 p_backFaceColorCommand :=
                                   (p_backFaceColorCommand p2)\<lparr> vertexArray := Some va \<rparr>,
                                 p_pickCommand :=
                                   (p_pickCommand p2)\<lparr> vertexArray := Some va \<rparr> \<rparr>,
                            ctx2))
                else Inr (p1, ctx1)))
      else Inr (p, ctx))"

text \<open>The model matrix, the world bounding sphere and the material reference.\<close>

definition updateMatrices :: "bool \<Rightarrow> customSensorVolume \<Rightarrow> customSensorVolume" where
  "updateMatrices directionsChanged p =
     (let modelMatrixChanged = (modelMatrix p \<noteq> p_modelMatrix p);
          p1 = (if modelMatrixChanged then p\<lparr> p_modelMatrix := modelMatrix p \<rparr> else p);
          p2 = (if directionsChanged \<or> modelMatrixChanged
                then p1\<lparr> p_boundingSphereWC := Transform (p_boundingSphere p1) (modelMatrix p1) \<rparr>
                else p1)
      in p2\<lparr> p_frontFaceColorCommand :=
                (p_frontFaceColorCommand p2)\<lparr> modelMatrixOf := Some (modelMatrix p2) \<rparr>,
              p_backFaceColorCommand :=
                (p_backFaceColorCommand p2)\<lparr> modelMatrixOf := Some (modelMatrix p2) \<rparr>,
              p_pickCommand :=
                (p_pickCommand p2)\<lparr> modelMatrixOf := Some (modelMatrix p2) \<rparr> \<rparr>)"

text \<open>The block \<^verbatim>\<open>if (pass.render)\<close>.\<close>

definition renderCommands ::
  "bool \<Rightarrow> bool \<Rightarrow> material \<Rightarrow> customSensorVolume \<Rightarrow> drawCommand list
     \<Rightarrow> customSensorVolume \<times> drawCommand list" where
  "renderCommands materialChanged translucent m p commands =
     (let p1 =
        (if materialChanged \<or> shaderProgramOf (p_frontFaceColorCommand p) = None then
           p\<lparr> p_frontFaceColorCommand := (p_frontFaceColorCommand p)
                  \<lparr> shaderProgramOf := Some (ShaderFor (materialRef m) False),
                    normalDirection := Some 1 \<rparr>,
               p_backFaceColorCommand := (p_backFaceColorCommand p)
                  \<lparr> shaderProgramOf := Some (ShaderFor (materialRef m) False),
                    normalDirection := Some (- 1) \<rparr> \<rparr>
         else p)
      in if translucent
         then (p1, commands @ [p_backFaceColorCommand p1, p_frontFaceColorCommand p1])
         else (p1, commands @ [p_frontFaceColorCommand p1]))"

text \<open>The block \<^verbatim>\<open>if (pass.pick)\<close>.\<close>

definition pickCommands ::
  "bool \<Rightarrow> bool \<Rightarrow> material \<Rightarrow> customSensorVolume \<Rightarrow> drawCommand list \<Rightarrow> renderContext
     \<Rightarrow> customSensorVolume \<times> drawCommand list \<times> renderContext" where
  "pickCommands materialChanged translucent m p commands ctx =
     (case
        (if p_pickId p = None \<or> p_id p \<noteq> idOf p then
           (let released = (case p_pickId p of None \<Rightarrow> pickIds ctx | Some old \<Rightarrow> pickIds ctx - {old});
                fresh = nextPickId ctx
            in (p\<lparr> p_id := idOf p, p_pickId := Some fresh \<rparr>,
                ctx\<lparr> pickIds := insert fresh released, nextPickId := Suc fresh \<rparr>))
         else (p, ctx))
      of (p1, ctx1) \<Rightarrow>
        (let p2 =
           (if materialChanged \<or> shaderProgramOf (p_pickCommand p1) = None then
              p1\<lparr> p_pickCommand := (p_pickCommand p1)
                     \<lparr> shaderProgramOf := Some (ShaderFor (materialRef m) True),
                       normalDirection := Some 1,
                       pickColorOf := p_pickId p1 \<rparr> \<rparr>
            else p1);
             p3 = p2\<lparr> p_pickCommand := (p_pickCommand p2)
                     \<lparr> passOf := Some (if translucent then TRANSLUCENT else OPAQUE) \<rparr> \<rparr>
         in (p3, commands @ [p_pickCommand p3], ctx1)))"

definition update :: "customSensorVolume \<Rightarrow> frameState \<Rightarrow> error + (customSensorVolume \<times> frameState)" where
  "update this frame =
     (let this = this\<lparr> p_mode := mode frame \<rparr>
      in if \<not> showFlag this \<or> p_mode this \<noteq> SCENE3D then Inr (this, frame)
         else if lessThanZero (radius this) then
           Inl (DeveloperError ''this.radius must be greater than or equal to zero.'')
         else case lateralSurfaceMaterial this of
           None \<Rightarrow> Inl (DeveloperError ''this.lateralSurfaceMaterial must be defined.'')
         | Some m \<Rightarrow>
           (let translucent = isTranslucent m;
                p1 = updateRenderStates translucent this;
                directionsChanged = p_directionsDirty p1
            in case updateVertexArray p1 (contextOf frame) of
                 Inl e \<Rightarrow> Inl e
               | Inr (p2, ctx2) \<Rightarrow>
                   if vertexArray (p_frontFaceColorCommand p2) = None
                   then Inr (p2, frame\<lparr> contextOf := ctx2 \<rparr>)
                   else
                     (let p3 = updateMatrices directionsChanged p2;
                          materialChanged =
                            (map_option materialRef (p_lateralSurfaceMaterial p3) \<noteq> Some (materialRef m));
                          p4 = p3\<lparr> p_lateralSurfaceMaterial := Some m \<rparr>
                      in case (if renderPass frame
                               then renderCommands materialChanged translucent m p4 (commandList frame)
                               else (p4, commandList frame)) of
                           (p5, commands5) \<Rightarrow>
                         (case (if pickPass frame
                                then pickCommands materialChanged translucent m p5 commands5 ctx2
                                else (p5, commands5, ctx2)) of
                            (p6, commands6, ctx6) \<Rightarrow>
                              Inr (p6, frame\<lparr> commandList := commands6, contextOf := ctx6 \<rparr>)))))"

section \<open>The boundary sampler\<close>

subsection \<open>Double-precision addition\<close>

text \<open>
  The clock-angle loops of \<^verbatim>\<open>computeDirections\<close> only add, subtract and compare numbers, and
  the number of samples they produce depends on the rounding of each sum.  These
  operations are fixed by IEEE 754 (binary64, round to nearest, ties to even), so this part
  of the model rounds with \<open>round64\<close>: a finite double is the real number it denotes, and a
  sum is the exact sum rounded.  Overflow to \<^verbatim>\<open>Infinity\<close> is not modelled.
\<close>

definition dadd :: "real \<Rightarrow> real \<Rightarrow> real" where
  "dadd x y = round64 (x + y)"

definition dsub :: "real \<Rightarrow> real \<Rightarrow> real" where
  "dsub x y = round64 (x - y)"

text \<open>
  The constants of \<^verbatim>\<open>Cesium/Core/Math\<close> as doubles: \<^verbatim>\<open>RADIANS_PER_DEGREE = Math.PI / 180.0\<close>,
  \<^verbatim>\<open>TWO_PI = 2.0 * Math.PI\<close> and \<^verbatim>\<open>toRadians(degrees) = degrees * RADIANS_PER_DEGREE\<close>.
\<close>

definition RADIANS_PER_DEGREE :: real where
  "RADIANS_PER_DEGREE = round64 (MathPI / 180)"

definition TWO_PI :: real where
  "TWO_PI = round64 (2 * MathPI)"

definition toRadiansDouble :: "real \<Rightarrow> real" where
  "toRadiansDouble degrees = round64 (degrees * RADIANS_PER_DEGREE)"

subsection \<open>The conic sampler\<close>

text \<open>
  \<^verbatim>\<open>assignSpherical(index, array, clock, cone)\<close> (the repository holds two identical copies
  of it): an existing entry is overwritten field by field, an index equal to the length
  appends.  The callers count \<open>index\<close> up from 0 on the same array, so it never exceeds the
  length.
\<close>

definition assignSpherical :: "nat \<Rightarrow> spherical list \<Rightarrow> real \<Rightarrow> real \<Rightarrow> spherical list" where
  "assignSpherical index array clk cn =
     (if index < length array
      then array[index := (array ! index)\<lparr> clock := clk, cone := cn, magnitude := 1 \<rparr>]
      else array @ [\<lparr> clock = clk, cone = cn, magnitude = 1 \<rparr>])"

text \<open>
  The two kinds of loop of \<^verbatim>\<open>computeDirections\<close>,
  \<^verbatim>\<open>for (angle = ...; angle < limit; angle += angleStep) assignSpherical(i++, ...)\<close> and
  \<^verbatim>\<open>for (angle = ...; angle > limit; angle -= angleStep) assignSpherical(i++, ...)\<close>.
  In double arithmetic a step can leave a large angle unchanged, so the loops need not
  terminate: not returning is the value \<open>None\<close>.
\<close>

partial_function (option) sweepUp ::
  "real \<Rightarrow> real \<Rightarrow> real \<Rightarrow> nat \<Rightarrow> spherical list \<Rightarrow> real \<Rightarrow> (nat \<times> spherical list) option" where
  "sweepUp limit angleStep coneAngle i directions angle =
     (if angle < limit
      then sweepUp limit angleStep coneAngle (Suc i)
             (assignSpherical i directions angle coneAngle) (dadd angle angleStep)
      else Some (i, directions))"

partial_function (option) sweepDown ::
  "real \<Rightarrow> real \<Rightarrow> real \<Rightarrow> nat \<Rightarrow> spherical list \<Rightarrow> real \<Rightarrow> (nat \<times> spherical list) option" where
  "sweepDown limit angleStep coneAngle i directions angle =
     (if limit < angle
      then sweepDown limit angleStep coneAngle (Suc i)
             (assignSpherical i directions angle coneAngle) (dsub angle angleStep)
      else Some (i, directions))"

text \<open>
  \<^verbatim>\<open>computeDirections\<close>.  It fills the array the primitive holds, cuts it to the number of
  samples written (\<^verbatim>\<open>directions.length = i\<close>) and assigns it back, which marks the geometry
  dirty.  An undefined array makes the first \<^verbatim>\<open>array[index]\<close> throw.
\<close>

definition computeDirections ::
  "customSensorVolume \<Rightarrow> real \<Rightarrow> real \<Rightarrow> real \<Rightarrow> real \<Rightarrow> (error + customSensorVolume) option" where
  "computeDirections primitive minimumClockAngle maximumClockAngle innerHalfAngle outerHalfAngle =
     (case p_directions primitive of
        None \<Rightarrow> Some (Inl (TypeError ''array is undefined''))
      | Some directions \<Rightarrow>
          (let angleStep = toRadiansDouble 2
           in case
                (if minimumClockAngle = 0 \<and> maximumClockAngle = TWO_PI then
                   sweepUp TWO_PI angleStep outerHalfAngle 0 directions 0
                 else
                   (case sweepUp maximumClockAngle angleStep outerHalfAngle 0 directions
                           minimumClockAngle of
                      None \<Rightarrow> None
                    | Some (i1, d1) \<Rightarrow>
                        (let d2 = assignSpherical i1 d1 maximumClockAngle outerHalfAngle;
                             i2 = Suc i1
                         in if innerHalfAngle \<noteq> 0 then
                              (case sweepDown minimumClockAngle angleStep innerHalfAngle i2 d2
                                      maximumClockAngle of
                                 None \<Rightarrow> None
                               | Some (i3, d3) \<Rightarrow>
                                   Some (Suc i3,
                                         assignSpherical i3 d3 minimumClockAngle innerHalfAngle))
                            else Some (Suc i2, assignSpherical i2 d2 maximumClockAngle 0))))
              of
                None \<Rightarrow> None
              | Some (i, directions') \<Rightarrow>
                  Some (Inr (setDirections (Some (take i directions')) primitive))))"

subsection \<open>The rectangular sampler\<close>

text \<open>
  \<^verbatim>\<open>updateDirections\<close> takes tangents, arc tangents and a quotient whose divisor can be
  zero, so its numbers can be infinite or \<^verbatim>\<open>NaN\<close>, and the results of \<^verbatim>\<open>Math.tan\<close> and
  \<^verbatim>\<open>Math.atan\<close> are approximations that the language leaves to the engine.  The sampler is
  therefore embedded over an arbitrary type of numbers with the operations it uses taken as
  parameters: numeric literals, \<^verbatim>\<open>CesiumMath.toRadians\<close>, \<^verbatim>\<open>Math.min\<close>, \<^verbatim>\<open>Math.tan\<close>,
  \<^verbatim>\<open>Math.atan\<close>, \<^verbatim>\<open>Math.sqrt\<close>, the four operators, unary minus, \<^verbatim>\<open>>\<close>, \<^verbatim>\<open>!==\<close> and
  \<^verbatim>\<open>CesiumMath.PI_OVER_TWO\<close>.
\<close>

record 'n arithmetic =
  literal :: "real \<Rightarrow> 'n"
  toRadiansOf :: "'n \<Rightarrow> 'n"
  mathMin :: "'n \<Rightarrow> 'n \<Rightarrow> 'n"
  mathTan :: "'n \<Rightarrow> 'n"
  mathAtan :: "'n \<Rightarrow> 'n"
  mathSqrt :: "'n \<Rightarrow> 'n"
  jsAdd :: "'n \<Rightarrow> 'n \<Rightarrow> 'n"
  jsSub :: "'n \<Rightarrow> 'n \<Rightarrow> 'n"
  jsMul :: "'n \<Rightarrow> 'n \<Rightarrow> 'n"
  jsDiv :: "'n \<Rightarrow> 'n \<Rightarrow> 'n"
  jsNeg :: "'n \<Rightarrow> 'n"
  jsGreater :: "'n \<Rightarrow> 'n \<Rightarrow> bool"
  strictNotEquals :: "'n \<Rightarrow> 'n \<Rightarrow> bool"
  PI_OVER_TWO :: 'n

text \<open>A \<^verbatim>\<open>Spherical\<close> over such numbers.\<close>

record 'n jsSpherical =
  jsClock :: 'n
  jsCone :: 'n
  jsMagnitude :: 'n

text \<open>
  Of the \<^verbatim>\<open>CustomSensorVolume\<close> that a rectangular sensor wraps, the sampler reads and
  assigns the \<^verbatim>\<open>directions\<close>; the setter stores the array and marks the geometry dirty.
\<close>

record 'n wrappedSensor =
  w_directions :: "'n jsSpherical list option"
  w_directionsDirty :: bool

record 'n rectangularPyramidSensorVolume =
  p_customSensor :: "'n wrappedSensor"
  p_xHalfAngle :: 'n
  p_yHalfAngle :: 'n

text \<open>
  \<^verbatim>\<open>assignSpherical$1\<close>, the copy of \<^verbatim>\<open>assignSpherical\<close> that the rectangular sampler calls, with
  the indices 0 to 3 in turn (so the index never exceeds the length).
\<close>

definition assignSpherical1 ::
  "'n arithmetic \<Rightarrow> nat \<Rightarrow> 'n jsSpherical list \<Rightarrow> 'n \<Rightarrow> 'n \<Rightarrow> 'n jsSpherical list" where
  "assignSpherical1 N index array clk cn =
     (if index < length array
      then array[index := (array ! index)\<lparr> jsClock := clk, jsCone := cn,
                                              jsMagnitude := literal N 1 \<rparr>]
      else array @ [\<lparr> jsClock = clk, jsCone = cn, jsMagnitude = literal N 1 \<rparr>])"

definition updateDirections ::
  "'n arithmetic \<Rightarrow> 'n rectangularPyramidSensorVolume
     \<Rightarrow> error + 'n rectangularPyramidSensorVolume" where
  "updateDirections N rectangularSensor =
     (case w_directions (p_customSensor rectangularSensor) of
        None \<Rightarrow> Inl (TypeError ''array is undefined'')
      | Some directions \<Rightarrow>
          (let tanX = mathTan N (mathMin N (p_xHalfAngle rectangularSensor)
                                   (toRadiansOf N (literal N 89)));
               tanY = mathTan N (mathMin N (p_yHalfAngle rectangularSensor)
                                   (toRadiansOf N (literal N 89)));
               theta = mathAtan N (jsDiv N tanX tanY);
               cn = mathAtan N (mathSqrt N (jsAdd N (jsMul N tanX tanX) (jsMul N tanY tanY)));
               d1 = assignSpherical1 N 0 directions theta cn;
               d2 = assignSpherical1 N 1 d1 (jsSub N (toRadiansOf N (literal N 180)) theta) cn;
               d3 = assignSpherical1 N 2 d2 (jsAdd N (toRadiansOf N (literal N 180)) theta) cn;
               d4 = assignSpherical1 N 3 d3 (jsNeg N theta) cn
           in Inr (rectangularSensor\<lparr> p_customSensor :=
                     \<lparr> w_directions = Some (take 4 d4), w_directionsDirty = True \<rparr> \<rparr>)))"

text \<open>
  The setter of \<^verbatim>\<open>xHalfAngle\<close> (the one of \<^verbatim>\<open>yHalfAngle\<close> is alike): a value above 90
  degrees is refused, an unchanged value does nothing.
\<close>

definition setXHalfAngle ::
  "'n arithmetic \<Rightarrow> 'n \<Rightarrow> 'n rectangularPyramidSensorVolume
     \<Rightarrow> error + 'n rectangularPyramidSensorVolume" where
  "setXHalfAngle N v this =
     (if jsGreater N v (PI_OVER_TWO N)
      then Inl (DeveloperError ''xHalfAngle must be less than or equal to 90 degrees.'')
      else if strictNotEquals N (p_xHalfAngle this) v
           then updateDirections N (this\<lparr> p_xHalfAngle := v \<rparr>)
           else Inr this)"

definition setYHalfAngle ::
  "'n arithmetic \<Rightarrow> 'n \<Rightarrow> 'n rectangularPyramidSensorVolume
     \<Rightarrow> error + 'n rectangularPyramidSensorVolume" where
  "setYHalfAngle N v this =
     (if jsGreater N v (PI_OVER_TWO N)
      then Inl (DeveloperError ''yHalfAngle must be less than or equal to 90 degrees.'')
      else if strictNotEquals N (p_yHalfAngle this) v
           then updateDirections N (this\<lparr> p_yHalfAngle := v \<rparr>)
           else Inr this)"

text \<open>
  JavaScript's numbers with the finite ones read as the reals they denote and every
  operation exact on them (no rounding, no overflow; the one zero is the positive zero, and
  the tangent is the real tangent, whose poles are no doubles).  Operations that leave the
  finite numbers follow IEEE 754: a nonzero number divided by zero is infinite, zero by
  zero is \<^verbatim>\<open>NaN\<close>, the arc tangent of an infinity is a right angle.
\<close>

fun numMin :: "jsnum \<Rightarrow> jsnum \<Rightarrow> jsnum" where
  "numMin JsNaN y = JsNaN"
| "numMin x JsNaN = JsNaN"
| "numMin NegInfinity y = NegInfinity"
| "numMin x NegInfinity = NegInfinity"
| "numMin PosInfinity y = y"
| "numMin x PosInfinity = x"
| "numMin (Num a) (Num b) = Num (min a b)"

fun numTan :: "jsnum \<Rightarrow> jsnum" where
  "numTan (Num a) = Num (tan a)"
| "numTan x = JsNaN"

fun numAtan :: "jsnum \<Rightarrow> jsnum" where
  "numAtan (Num a) = Num (arctan a)"
| "numAtan PosInfinity = Num (pi / 2)"
| "numAtan NegInfinity = Num (- (pi / 2))"
| "numAtan JsNaN = JsNaN"

fun numSqrt :: "jsnum \<Rightarrow> jsnum" where
  "numSqrt (Num a) = (if a < 0 then JsNaN else Num (sqrt a))"
| "numSqrt PosInfinity = PosInfinity"
| "numSqrt x = JsNaN"

fun numNeg :: "jsnum \<Rightarrow> jsnum" where
  "numNeg (Num a) = Num (- a)"
| "numNeg PosInfinity = NegInfinity"
| "numNeg NegInfinity = PosInfinity"
| "numNeg JsNaN = JsNaN"

fun numAdd :: "jsnum \<Rightarrow> jsnum \<Rightarrow> jsnum" where
  "numAdd JsNaN y = JsNaN"
| "numAdd x JsNaN = JsNaN"
| "numAdd (Num a) (Num b) = Num (a + b)"
| "numAdd PosInfinity NegInfinity = JsNaN"
| "numAdd NegInfinity PosInfinity = JsNaN"
| "numAdd PosInfinity y = PosInfinity"
| "numAdd NegInfinity y = NegInfinity"
| "numAdd (Num a) y = y"

definition numSub :: "jsnum \<Rightarrow> jsnum \<Rightarrow> jsnum" where
  "numSub x y = numAdd x (numNeg y)"

text \<open>The sign of a number that is not \<^verbatim>\<open>NaN\<close>: -1, 0 or 1.\<close>

fun numSign :: "jsnum \<Rightarrow> real" where
  "numSign (Num a) = sgn a"
| "numSign PosInfinity = 1"
| "numSign NegInfinity = - 1"
| "numSign JsNaN = 0"

definition signedInfinity :: "real \<Rightarrow> jsnum" where
  "signedInfinity s = (if 0 < s then PosInfinity else NegInfinity)"

fun numMul :: "jsnum \<Rightarrow> jsnum \<Rightarrow> jsnum" where
  "numMul JsNaN y = JsNaN"
| "numMul x JsNaN = JsNaN"
| "numMul (Num a) (Num b) = Num (a * b)"
| "numMul x y =
     (if numSign x = 0 \<or> numSign y = 0 then JsNaN else signedInfinity (numSign x * numSign y))"

fun numDiv :: "jsnum \<Rightarrow> jsnum \<Rightarrow> jsnum" where
  "numDiv JsNaN y = JsNaN"
| "numDiv x JsNaN = JsNaN"
| "numDiv (Num a) (Num b) =
     (if b \<noteq> 0 then Num (a / b) else if a = 0 then JsNaN else signedInfinity a)"
| "numDiv (Num a) y = Num 0"
| "numDiv x (Num b) = signedInfinity (numSign x * (if b < 0 then - 1 else 1))"
| "numDiv x y = JsNaN"

fun numGreater :: "jsnum \<Rightarrow> jsnum \<Rightarrow> bool" where
  "numGreater JsNaN y = False"
| "numGreater x JsNaN = False"
| "numGreater (Num a) (Num b) = (b < a)"
| "numGreater PosInfinity y = (y \<noteq> PosInfinity)"
| "numGreater x NegInfinity = (x \<noteq> NegInfinity)"
| "numGreater x y = False"

definition numStrictNotEquals :: "jsnum \<Rightarrow> jsnum \<Rightarrow> bool" where
  "numStrictNotEquals x y \<longleftrightarrow> x = JsNaN \<or> y = JsNaN \<or> x \<noteq> y"

definition exactArithmetic :: "jsnum arithmetic" where
  "exactArithmetic =
     \<lparr> literal = Num,
       toRadiansOf = (\<lambda>degrees. numMul degrees (Num (pi / 180))),
       mathMin = numMin, mathTan = numTan, mathAtan = numAtan, mathSqrt = numSqrt,
       jsAdd = numAdd, jsSub = numSub, jsMul = numMul, jsDiv = numDiv, jsNeg = numNeg,
       jsGreater = numGreater, strictNotEquals = numStrictNotEquals,
       PI_OVER_TWO = Num (pi / 2) \<rparr>"

section \<open>The shadow test of the fragment shader\<close>

text \<open>
  \<^verbatim>\<open>inSensorShadow(coneVertexWC, pointWC)\<close> of the shader source \<^verbatim>\<open>SensorVolume\<close>; the uniform
  \<^verbatim>\<open>czm_ellipsoidInverseRadii\<close> is the first argument.  GLSL's \<^verbatim>\<open>&&\<close> evaluates its second
  operand only when the first holds.
\<close>

definition inSensorShadow :: "cartesian3 \<Rightarrow> cartesian3 \<Rightarrow> cartesian3 \<Rightarrow> bool" where
  "inSensorShadow inverseRadii coneVertexWC pointWC =
     (let D = inverseRadii;
          q = multiplyComponents D coneVertexWC;
          qMagnitudeSquared = dot q q;
          test = qMagnitudeSquared - 1;
          temp = subtract (multiplyComponents D pointWC) q;
          d = dot temp q
      in d < - test \<and> d / magnitudeOf temp < - sqrt test)"


section \<open>The conic synchronizer (ConicSensorVisualizer)\<close>

subsection \<open>Entities and their properties\<close>

text \<open>
  A property of the entity API is either undefined or an object whose \<^verbatim>\<open>getValue(time)\<close>
  may answer \<^verbatim>\<open>undefined\<close>.  \<^verbatim>\<open>Property.getValueOrUndefined\<close> and
  \<^verbatim>\<open>Property.getValueOrDefault\<close> read it.
\<close>

type_synonym time = real

type_synonym quaternion = "real \<times> real \<times> real \<times> real"

type_synonym 'a property = "(time \<Rightarrow> 'a option) option"

definition getValueOrUndefined :: "'a property \<Rightarrow> time \<Rightarrow> 'a option" where
  "getValueOrUndefined property t =
     (case property of None \<Rightarrow> None | Some getValue \<Rightarrow> getValue t)"

definition getValueOrDefault :: "'a property \<Rightarrow> time \<Rightarrow> 'a \<Rightarrow> 'a" where
  "getValueOrDefault property t valueDefault =
     (case getValueOrUndefined property t of None \<Rightarrow> valueDefault | Some v \<Rightarrow> v)"

text \<open>
  The graphics of a conic sensor.  \<^verbatim>\<open>MaterialProperty.getValue(time, property, current)\<close>
  belongs to the rendering library and always answers a material: it is taken as the
  function \<open>g_lateralSurfaceMaterial\<close> of the time and the current material.  The
  intersection colour, which only feeds a shader uniform, is left out.
\<close>

record conicSensorGraphics =
  g_show :: "bool property"
  g_minimumClockAngle :: "real property"
  g_maximumClockAngle :: "real property"
  g_innerHalfAngle :: "real property"
  g_outerHalfAngle :: "real property"
  g_radius :: "jsnum property"
  g_lateralSurfaceMaterial :: "time \<Rightarrow> material option \<Rightarrow> material"
  g_intersectionWidth :: "real property"

record entity =
  entityId :: string
  isShowing :: bool
  isAvailable :: "time \<Rightarrow> bool"
  e_position :: "cartesian3 property"
  e_orientation :: "quaternion property"
  e_conicSensor :: "conicSensorGraphics option"

subsection \<open>Objects, the scene and the state of the synchronizer\<close>

text \<open>
  Primitives are shared between the scene and the synchronizer, so they live in a store
  and are named by their address.  \<^verbatim>\<open>destroyObject\<close> of the rendering library replaces the
  methods of a destroyed object: \<^verbatim>\<open>isDestroyed()\<close> answers true from then on and every
  other method throws.  The store counts the calls of \<^verbatim>\<open>destroy\<close> that went through; the
  release of the vertex array, the shader programs and the pick id by
  \<^verbatim>\<open>CustomSensorVolume.prototype.destroy\<close> is not followed here.
\<close>

record primitiveObject =
  volumeOf :: customSensorVolume
  destroyCalls :: nat

text \<open>
  The record the synchronizer keeps per entity: the primitive and the snapshot last applied
  to it.
\<close>

record syncData =
  primitive :: nat
  d_position :: "cartesian3 option"
  d_orientation :: "quaternion option"
  d_minimumClockAngle :: "real option"
  d_maximumClockAngle :: "real option"
  d_innerHalfAngle :: "real option"
  d_outerHalfAngle :: "real option"

text \<open>
  \<open>members\<close> and \<open>destroyPrimitives\<close> are \<^verbatim>\<open>scene.primitives\<close>, a \<^verbatim>\<open>PrimitiveCollection\<close> of the
  rendering library; \<open>hash\<close> is \<^verbatim>\<open>_hash\<close>, keyed by the entity id; \<open>entitiesToVisualize\<close> is
  the \<^verbatim>\<open>AssociativeArray\<close> \<^verbatim>\<open>_entitiesToVisualize\<close>, kept as the list of its keys and values
  in the order of \<^verbatim>\<open>values\<close>.
\<close>

record visualizerState =
  objects :: "nat \<rightharpoonup> primitiveObject"
  nextObject :: nat
  members :: "nat list"
  destroyPrimitives :: bool
  hash :: "string \<rightharpoonup> syncData"
  entitiesToVisualize :: "(string \<times> entity) list"

definition andThen :: "error + 'a \<Rightarrow> ('a \<Rightarrow> error + 'b) \<Rightarrow> error + 'b" where
  "andThen r f = (case r of Inl e \<Rightarrow> Inl e | Inr x \<Rightarrow> f x)"

definition isDestroyed :: "nat \<Rightarrow> visualizerState \<Rightarrow> bool" where
  "isDestroyed r st = (case objects st r of None \<Rightarrow> False | Some obj \<Rightarrow> 0 < destroyCalls obj)"

definition destroy :: "nat \<Rightarrow> visualizerState \<Rightarrow> error + visualizerState" where
  "destroy r st =
     (case objects st r of
        None \<Rightarrow> Inl (TypeError ''primitive is undefined'')
      | Some obj \<Rightarrow>
          if 0 < destroyCalls obj
          then Inl (DeveloperError ''This object was destroyed, i.e., destroy() was called.'')
          else Inr (st\<lparr> objects := (objects st)(r \<mapsto> obj\<lparr> destroyCalls := Suc (destroyCalls obj) \<rparr>) \<rparr>))"

text \<open>
  \<^verbatim>\<open>PrimitiveCollection.add\<close> and \<^verbatim>\<open>PrimitiveCollection.remove\<close>: a primitive that the collection
  contains is taken out and, when the collection owns its primitives (\<^verbatim>\<open>destroyPrimitives\<close>,
  true unless the application changes it), destroyed.
\<close>

definition addToScene :: "nat \<Rightarrow> visualizerState \<Rightarrow> visualizerState" where
  "addToScene r st = st\<lparr> members := members st @ [r] \<rparr>"

definition removeFromScene :: "nat \<Rightarrow> visualizerState \<Rightarrow> error + visualizerState" where
  "removeFromScene r st =
     (if r \<in> set (members st)
      then (let st' = st\<lparr> members := remove1 r (members st) \<rparr>
            in if destroyPrimitives st then destroy r st' else Inr st')
      else Inr st)"

text \<open>\<^verbatim>\<open>removePrimitive(entity, hash, primitives)\<close>.\<close>

definition removePrimitive :: "entity \<Rightarrow> visualizerState \<Rightarrow> error + visualizerState" where
  "removePrimitive e st =
     (case hash st (entityId e) of
        None \<Rightarrow> Inr st
      | Some data \<Rightarrow>
          andThen (removeFromScene (primitive data) st) (\<lambda>st1.
          andThen (if \<not> isDestroyed (primitive data) st1 then destroy (primitive data) st1
                   else Inr st1) (\<lambda>st2.
          Inr (st2\<lparr> hash := (hash st2)(entityId e := None) \<rparr>))))"

text \<open>
  \<^verbatim>\<open>AssociativeArray.set\<close> and \<^verbatim>\<open>AssociativeArray.remove\<close>.  Setting a key to the value it
  holds changes nothing; otherwise the old value is dropped and the new one appended.
  Entities are values here, so the value held is an entity equal in every field.
\<close>

definition aaRemove :: "string \<Rightarrow> (string \<times> entity) list \<Rightarrow> (string \<times> entity) list" where
  "aaRemove k es = filter (\<lambda>kv. fst kv \<noteq> k) es"

definition aaSet :: "string \<Rightarrow> entity \<Rightarrow> (string \<times> entity) list \<Rightarrow> (string \<times> entity) list" where
  "aaSet k v es = (if map_of es k = Some v then es else aaRemove k es @ [(k, v)])"

subsection \<open>The collection-changed handler\<close>

definition trackable :: "entity \<Rightarrow> bool" where
  "trackable e \<longleftrightarrow> e_conicSensor e \<noteq> None \<and> e_position e \<noteq> None \<and> e_orientation e \<noteq> None"

definition track :: "entity \<Rightarrow> visualizerState \<Rightarrow> visualizerState" where
  "track e st = st\<lparr> entitiesToVisualize := aaSet (entityId e) e (entitiesToVisualize st) \<rparr>"

definition untrack :: "entity \<Rightarrow> visualizerState \<Rightarrow> visualizerState" where
  "untrack e st = st\<lparr> entitiesToVisualize := aaRemove (entityId e) (entitiesToVisualize st) \<rparr>"

text \<open>
  The three loops of \<^verbatim>\<open>_onCollectionChanged\<close>, each over its array in the order given (the
  handler walks the arrays from their last element).  A failure leaves the handler at once.
\<close>

fun addedLoop :: "entity list \<Rightarrow> visualizerState \<Rightarrow> visualizerState" where
  "addedLoop [] st = st"
| "addedLoop (e # es) st = addedLoop es (if trackable e then track e st else st)"

fun changedLoop :: "entity list \<Rightarrow> visualizerState \<Rightarrow> error + visualizerState" where
  "changedLoop [] st = Inr st"
| "changedLoop (e # es) st =
     (if trackable e then changedLoop es (track e st)
      else andThen (removePrimitive e st) (\<lambda>st'. changedLoop es (untrack e st')))"

fun removedLoop :: "entity list \<Rightarrow> visualizerState \<Rightarrow> error + visualizerState" where
  "removedLoop [] st = Inr st"
| "removedLoop (e # es) st =
     andThen (removePrimitive e st) (\<lambda>st'. removedLoop es (untrack e st'))"

definition onCollectionChanged ::
  "entity list \<Rightarrow> entity list \<Rightarrow> entity list \<Rightarrow> visualizerState \<Rightarrow> error + visualizerState" where
  "onCollectionChanged added removed changed st =
     andThen (changedLoop (rev changed) (addedLoop (rev added) st)) (removedLoop (rev removed))"

subsection \<open>The update tick\<close>

text \<open>
  \<^verbatim>\<open>Matrix3.fromQuaternion\<close> and \<^verbatim>\<open>Matrix4.fromRotationTranslation\<close> of the rendering library,
  column-major.
\<close>

definition fromQuaternion :: "quaternion \<Rightarrow> real list" where
  "fromQuaternion q =
     (case q of (x, y, z, w) \<Rightarrow>
        [x * x - y * y - z * z + w * w, 2 * (x * y + z * w), 2 * (x * z - y * w),
         2 * (x * y - z * w), - (x * x) + y * y - z * z + w * w, 2 * (y * z + x * w),
         2 * (x * z + y * w), 2 * (y * z - x * w), - (x * x) - y * y + z * z + w * w])"

definition fromRotationTranslation :: "real list \<Rightarrow> cartesian3 \<Rightarrow> matrix4" where
  "fromRotationTranslation rotation translation =
     (case translation of (x, y, z) \<Rightarrow>
        take 3 rotation @ [0] @ take 3 (drop 3 rotation) @ [0] @ take 3 (drop 6 rotation) @ [0]
        @ [x, y, z, 1])"

text \<open>
  The part of the loop body of \<^verbatim>\<open>ConicSensorVisualizer.prototype.update\<close> after the primitive
  is known: the model matrix, the boundary and the plain parameters.  The boundary is
  recomputed only when one of the four angles differs from the snapshot.
\<close>

definition syncVolume ::
  "time \<Rightarrow> conicSensorGraphics \<Rightarrow> cartesian3 \<Rightarrow> quaternion \<Rightarrow> syncData \<Rightarrow> customSensorVolume
     \<Rightarrow> (error + syncData \<times> customSensorVolume) option" where
  "syncVolume t g position orientation data0 volume0 =
     (let (data1, volume1) =
            (if Some position \<noteq> d_position data0 \<or> Some orientation \<noteq> d_orientation data0
             then (data0\<lparr> d_position := Some position, d_orientation := Some orientation \<rparr>,
                   volume0\<lparr> modelMatrix :=
                             fromRotationTranslation (fromQuaternion orientation) position \<rparr>)
             else (data0, volume0));
          volume2 = volume1\<lparr> showFlag := True \<rparr>;
          minimumClockAngle = getValueOrDefault (g_minimumClockAngle g) t 0;
          maximumClockAngle = getValueOrDefault (g_maximumClockAngle g) t TWO_PI;
          innerHalfAngle = getValueOrDefault (g_innerHalfAngle g) t 0;
          outerHalfAngle = getValueOrDefault (g_outerHalfAngle g) t MathPI;
          finish = (\<lambda>data volume.
            (data, volume\<lparr> radius := getValueOrDefault (g_radius g) t PosInfinity,
                       lateralSurfaceMaterial :=
                         Some (g_lateralSurfaceMaterial g t (lateralSurfaceMaterial volume)),
                       intersectionWidth := getValueOrDefault (g_intersectionWidth g) t 1 \<rparr>))
      in if Some minimumClockAngle \<noteq> d_minimumClockAngle data1
            \<or> Some maximumClockAngle \<noteq> d_maximumClockAngle data1
            \<or> Some innerHalfAngle \<noteq> d_innerHalfAngle data1
            \<or> Some outerHalfAngle \<noteq> d_outerHalfAngle data1
         then (case computeDirections volume2 minimumClockAngle maximumClockAngle
                      innerHalfAngle outerHalfAngle of
                 None \<Rightarrow> None
               | Some (Inl err) \<Rightarrow> Some (Inl err)
               | Some (Inr volume3) \<Rightarrow>
                   Some (Inr (finish
                     (data1\<lparr> d_innerHalfAngle := Some innerHalfAngle,
                             d_maximumClockAngle := Some maximumClockAngle,
                             d_outerHalfAngle := Some outerHalfAngle,
                             d_minimumClockAngle := Some minimumClockAngle \<rparr>) volume3)))
         else Some (Inr (finish data1 volume2)))"

text \<open>An entity that is not shown: its primitive, if it has one, is hidden.\<close>

definition hideEntity :: "entity \<Rightarrow> visualizerState \<Rightarrow> visualizerState" where
  "hideEntity e st =
     (case hash st (entityId e) of
        None \<Rightarrow> st
      | Some data \<Rightarrow>
          (case objects st (primitive data) of
             None \<Rightarrow> st
           | Some obj \<Rightarrow>
               st\<lparr> objects := (objects st)(primitive data \<mapsto>
                      obj\<lparr> volumeOf := (volumeOf obj)\<lparr> showFlag := False \<rparr> \<rparr>) \<rparr>))"

text \<open>
  An entity that is shown.  Without a record the entity gets a new primitive (with a fresh
  default material, whose reference is taken from the counter of the store), which is added
  to the scene.
\<close>

definition newData :: "nat \<Rightarrow> syncData" where
  "newData r = \<lparr> primitive = r, d_position = None, d_orientation = None,
     d_minimumClockAngle = None, d_maximumClockAngle = None, d_innerHalfAngle = None,
     d_outerHalfAngle = None \<rparr>"

definition createPrimitive :: "entity \<Rightarrow> visualizerState \<Rightarrow> visualizerState" where
  "createPrimitive e st =
     (let r = nextObject st;
          volume = (newCustomSensorVolume \<lparr> materialRef = r, isTranslucent = True \<rparr>)
                     \<lparr> idOf := Some (entityId e) \<rparr>
      in addToScene r
           (st\<lparr> objects := (objects st)(r \<mapsto> \<lparr> volumeOf = volume, destroyCalls = 0 \<rparr>),
                nextObject := Suc r,
                hash := (hash st)(entityId e \<mapsto> newData r) \<rparr>))"

definition showEntity ::
  "time \<Rightarrow> entity \<Rightarrow> conicSensorGraphics \<Rightarrow> cartesian3 \<Rightarrow> quaternion \<Rightarrow> visualizerState
     \<Rightarrow> (error + visualizerState) option" where
  "showEntity t e g position orientation st =
     (let st1 = (case hash st (entityId e) of None \<Rightarrow> createPrimitive e st | Some data \<Rightarrow> st)
      in case hash st1 (entityId e) of
           None \<Rightarrow> Some (Inl (TypeError ''data is undefined''))
         | Some data \<Rightarrow>
             (case objects st1 (primitive data) of
                None \<Rightarrow> Some (Inl (TypeError ''primitive is undefined''))
              | Some obj \<Rightarrow>
                  (case syncVolume t g position orientation data (volumeOf obj) of
                     None \<Rightarrow> None
                   | Some (Inl err) \<Rightarrow> Some (Inl err)
                   | Some (Inr (data', volume')) \<Rightarrow>
                       Some (Inr (st1\<lparr> objects := (objects st1)(primitive data \<mapsto>
                                            obj\<lparr> volumeOf := volume' \<rparr>),
                                       hash := (hash st1)(entityId e \<mapsto> data') \<rparr>)))))"

definition updateEntity :: "time \<Rightarrow> entity \<Rightarrow> visualizerState \<Rightarrow> (error + visualizerState) option" where
  "updateEntity t e st =
     (if \<not> (isShowing e \<and> isAvailable e t) then Some (Inr (hideEntity e st))
      else case e_conicSensor e of
             None \<Rightarrow> Some (Inl (TypeError ''conicSensorGraphics is undefined''))
           | Some g \<Rightarrow>
               if \<not> getValueOrDefault (g_show g) t True then Some (Inr (hideEntity e st))
               else (case getValueOrUndefined (e_position e) t of
                       None \<Rightarrow> Some (Inr (hideEntity e st))
                     | Some position \<Rightarrow>
                         (case getValueOrUndefined (e_orientation e) t of
                            None \<Rightarrow> Some (Inr (hideEntity e st))
                          | Some orientation \<Rightarrow> showEntity t e g position orientation st)))"

fun updateLoop ::
  "time \<Rightarrow> entity list \<Rightarrow> visualizerState \<Rightarrow> (error + visualizerState) option" where
  "updateLoop t [] st = Some (Inr st)"
| "updateLoop t (e # es) st =
     (case updateEntity t e st of
        None \<Rightarrow> None
      | Some (Inl err) \<Rightarrow> Some (Inl err)
      | Some (Inr st') \<Rightarrow> updateLoop t es st')"

definition visualizerUpdate :: "time \<Rightarrow> visualizerState \<Rightarrow> (error + visualizerState) option" where
  "visualizerUpdate t st = updateLoop t (map snd (entitiesToVisualize st)) st"

text \<open>The synchronizer as its constructor leaves it, over a scene that owns nothing yet.\<close>

definition newVisualizer :: "bool \<Rightarrow> entity list \<Rightarrow> error + visualizerState" where
  "newVisualizer owns entities =
     onCollectionChanged entities [] []
       \<lparr> objects = Map.empty, nextObject = 0, members = [], destroyPrimitives = owns,
         hash = Map.empty, entitiesToVisualize = [] \<rparr>"


section \<open>Properties of the per-frame update\<close>

text \<open>
  The failures of the mesher: an undefined entry of the directions, or a vector that
  cannot be normalized.
\<close>

lemma angleBetween_error:
  "angleBetween a b = Inl e \<Longrightarrow> e = DeveloperError ''normalized result is not a number''"
  by (auto simp: angleBetween_def normalize_def split: if_splits)

lemma computePositionsLoop_error:
  "computePositionsLoop directions r i j k positions bvp = Inl e \<Longrightarrow>
     (\<exists>msg. e = TypeError msg) \<or> e = DeveloperError ''normalized result is not a number''"
proof (induction directions r i j k positions bvp rule: computePositionsLoop.induct)
  case (1 directions r i j k positions bvp)
  from "1.prems" show ?case
    by (subst (asm) computePositionsLoop.simps)
       (auto simp: Let_def split: if_splits option.splits sum.splits
          dest: angleBetween_error "1.IH")
qed

lemma createVertices_error:
  "createVertices positions len i j vertices = Inl e \<Longrightarrow>
     e = DeveloperError ''normalized result is not a number''"
proof (induction positions len i j vertices rule: createVertices.induct)
  case (1 positions len i j vertices)
  from "1.prems" show ?case
    by (subst (asm) createVertices.simps)
       (auto simp: normalize_def split: if_splits option.splits sum.splits prod.splits
          dest: "1.IH")
qed

lemma updateVertexArray_error:
  "updateVertexArray p ctx = Inl e \<Longrightarrow>
     (\<exists>msg. e = TypeError msg) \<or> e = DeveloperError ''normalized result is not a number''"
  by (auto simp: updateVertexArray_def createVertexArray_def computePositions_def Let_def
        split: if_splits option.splits sum.splits prod.splits
        dest: computePositionsLoop_error createVertices_error)

lemma updateRenderStates_frame [simp]:
  "p_va (updateRenderStates t p) = p_va p"
  "p_directions (updateRenderStates t p) = p_directions p"
  "p_directionsDirty (updateRenderStates t p) = p_directionsDirty p"
  "radius (updateRenderStates t p) = radius p"
  "vertexArray (p_frontFaceColorCommand (updateRenderStates t p)) = vertexArray (p_frontFaceColorCommand p)"
  "vertexArray (p_backFaceColorCommand (updateRenderStates t p)) = vertexArray (p_backFaceColorCommand p)"
  by (simp_all add: updateRenderStates_def Let_def)

text \<open>
  C10.  When the primitive is hidden or the scene is not in 3D mode, the update returns at
  once: the result is the primitive with only the scene mode recorded, and the frame state
  (its command list and its context) is the one passed in.  No failure is raised, whatever
  the radius and the material are.
\<close>

theorem update_hidden_returns_at_once:
  assumes "\<not> showFlag p \<or> mode frame \<noteq> SCENE3D"
  shows "update p frame = Inr (p\<lparr> p_mode := mode frame \<rparr>, frame)"
  using assms by (auto simp: update_def Let_def)

text \<open>A hidden primitive with a negative radius and no material, in a 3D frame.\<close>

theorem update_hidden_returns_at_once_witness:
  "update ((newCustomSensorVolume \<lparr> materialRef = 0, isTranslucent = False \<rparr>)
             \<lparr> showFlag := False, radius := Num (- 1), lateralSurfaceMaterial := None \<rparr>)
          \<lparr> mode = SCENE3D, renderPass = True, pickPass = True, commandList = [],
            contextOf = \<lparr> vertexArrays = Map.empty, nextVertexArray = 0, pickIds = {},
                         nextPickId = 0 \<rparr> \<rparr>
   = Inr ((newCustomSensorVolume \<lparr> materialRef = 0, isTranslucent = False \<rparr>)
             \<lparr> showFlag := False, radius := Num (- 1), lateralSurfaceMaterial := None,
               p_mode := SCENE3D \<rparr>,
          \<lparr> mode = SCENE3D, renderPass = True, pickPass = True, commandList = [],
            contextOf = \<lparr> vertexArrays = Map.empty, nextVertexArray = 0, pickIds = {},
                         nextPickId = 0 \<rparr> \<rparr>)"
  using update_hidden_returns_at_once
    [of "(newCustomSensorVolume \<lparr> materialRef = 0, isTranslucent = False \<rparr>)
             \<lparr> showFlag := False, radius := Num (- 1), lateralSurfaceMaterial := None \<rparr>"
        "\<lparr> mode = SCENE3D, renderPass = True, pickPass = True, commandList = [],
            contextOf = \<lparr> vertexArrays = Map.empty, nextVertexArray = 0, pickIds = {},
                         nextPickId = 0 \<rparr> \<rparr>"]
  by (simp add: newCustomSensorVolume_def setDirections_def)

text \<open>
  C2, as the claim states it, fails: the radius is a plain field, so a negative value is
  stored without any check, and the failure is raised by the next update of a shown
  primitive in 3D mode.
\<close>

theorem negative_radius_fails_in_update:
  "update ((newCustomSensorVolume \<lparr> materialRef = 0, isTranslucent = False \<rparr>) \<lparr> radius := Num (- 1) \<rparr>)
          \<lparr> mode = SCENE3D, renderPass = True, pickPass = False, commandList = [],
            contextOf = \<lparr> vertexArrays = Map.empty, nextVertexArray = 0, pickIds = {},
                         nextPickId = 0 \<rparr> \<rparr>
   = Inl (DeveloperError ''this.radius must be greater than or equal to zero.'')"
  by (simp add: update_def Let_def newCustomSensorVolume_def setDirections_def)

text \<open>
  C2, amended.  Assigning a radius stores it, whatever its sign; the update of the primitive
  raises the radius failure exactly when the primitive is shown, the scene is in 3D mode and
  the radius is negative.
\<close>

theorem radius_checked_by_update:
  "radius (p\<lparr> radius := r \<rparr>) = r
   \<and> (update (p\<lparr> radius := r \<rparr>) frame
        = Inl (DeveloperError ''this.radius must be greater than or equal to zero.'')
      \<longleftrightarrow> showFlag p \<and> mode frame = SCENE3D \<and> lessThanZero r)"
  by (auto simp: update_def Let_def
        split: option.splits sum.splits prod.splits if_splits dest!: updateVertexArray_error)

theorem radius_checked_by_update_witness:
  "radius ((newCustomSensorVolume \<lparr> materialRef = 0, isTranslucent = False \<rparr>) \<lparr> radius := NegInfinity \<rparr>)
     = NegInfinity
   \<and> update ((newCustomSensorVolume \<lparr> materialRef = 0, isTranslucent = False \<rparr>) \<lparr> radius := NegInfinity \<rparr>)
          \<lparr> mode = SCENE3D, renderPass = True, pickPass = False, commandList = [],
            contextOf = \<lparr> vertexArrays = Map.empty, nextVertexArray = 0, pickIds = {},
                         nextPickId = 0 \<rparr> \<rparr>
     = Inl (DeveloperError ''this.radius must be greater than or equal to zero.'')"
  using radius_checked_by_update
    [where p = "newCustomSensorVolume \<lparr> materialRef = 0, isTranslucent = False \<rparr>"
       and r = NegInfinity
       and frame = "\<lparr> mode = SCENE3D, renderPass = True, pickPass = False, commandList = [],
            contextOf = \<lparr> vertexArrays = Map.empty, nextVertexArray = 0, pickIds = {},
                         nextPickId = 0 \<rparr> \<rparr>"]
  by (simp add: newCustomSensorVolume_def setDirections_def)

section \<open>Properties of rounding\<close>

lemma roundTiesToEven_error: "\<bar>of_int (roundTiesToEven x) - x\<bar> \<le> 1 / 2"
proof -
  have "of_int \<lfloor>x\<rfloor> \<le> x" "x < of_int \<lfloor>x\<rfloor> + 1" by linarith+
  then show ?thesis
    by (auto simp: roundTiesToEven_def Let_def abs_le_iff)
qed

lemma roundTiesToEven_of_int [simp]: "roundTiesToEven (of_int k) = k"
  by (simp add: roundTiesToEven_def)

lemma binaryExponent_bounds:
  assumes "x \<noteq> 0"
  shows "2 powi (binaryExponent x) \<le> \<bar>x\<bar>" and "\<bar>x\<bar> < 2 powi (binaryExponent x + 1)"
proof -
  define a where "a = \<bar>x\<bar>"
  have a: "0 < a" using assms by (simp add: a_def)
  have "2 powi (binaryExponent x) \<le> a \<and> a < 2 powi (binaryExponent x + 1)"
  proof (cases "1 \<le> a")
    case True
    define n where "n = \<lfloor>a\<rfloor>"
    have n: "1 \<le> n" using True by (simp add: n_def)
    then have pos: "0 < n" by simp
    have b: "2 ^ nat (bitlen n - 1) \<le> n" "n < 2 ^ nat (bitlen n)"
      using bitlen_bounds[OF pos] by simp_all
    have bl: "1 \<le> bitlen n" using pos by (simp add: bitlen_def floorlog_def)
    have e: "binaryExponent x = bitlen n - 1"
      using True by (simp add: binaryExponent_def a_def n_def)
    have "(2::real) powi (bitlen n - 1) = 2 ^ nat (bitlen n - 1)"
      using bl by (simp add: power_int_def)
    also have "\<dots> = of_int (2 ^ nat (bitlen n - 1))" by simp
    also have "\<dots> \<le> of_int n" using b(1) by (simp only: of_int_le_iff)
    also have "\<dots> \<le> a" by (simp add: n_def)
    finally have lo: "2 powi (bitlen n - 1) \<le> a" .
    have "n + 1 \<le> 2 ^ nat (bitlen n)" using b(2) by simp
    then have "of_int (n + 1) \<le> (of_int (2 ^ nat (bitlen n)) :: real)" by (simp only: of_int_le_iff)
    moreover have "a < of_int (n + 1)" by (simp add: n_def)
    ultimately have "a < 2 ^ nat (bitlen n)" by simp
    moreover have "(2::real) powi (bitlen n - 1 + 1) = 2 ^ nat (bitlen n)"
      using bl by (simp add: power_int_def)
    ultimately show ?thesis using lo e by simp
  next
    case False
    then have a1: "a < 1" by simp
    define m where "m = \<lfloor>1 / a\<rfloor>"
    have "1 < 1 / a" using a a1 by simp
    then have m: "1 \<le> m" by (simp add: m_def)
    then have pos: "0 < m" by simp
    define n where "n = bitlen m"
    have b: "2 ^ nat (n - 1) \<le> m" "m < 2 ^ nat n"
      using bitlen_bounds[OF pos] by (simp_all add: n_def)
    have bl: "1 \<le> n" using pos by (simp add: n_def bitlen_def floorlog_def)
    have "(of_int (2 ^ nat (n - 1)) :: real) \<le> of_int m" using b(1) by (simp only: of_int_le_iff)
    also have "\<dots> \<le> 1 / a" by (simp add: m_def)
    finally have up: "a * 2 ^ nat (n - 1) \<le> 1" using a by (simp add: field_simps)
    have "m + 1 \<le> 2 ^ nat n" using b(2) by simp
    then have "of_int (m + 1) \<le> (of_int (2 ^ nat n) :: real)" by (simp only: of_int_le_iff)
    moreover have "1 / a < of_int (m + 1)" by (simp add: m_def)
    ultimately have "1 / a < 2 ^ nat n" by simp
    then have lo: "1 < a * 2 ^ nat n" using a by (simp add: field_simps)
    have pn: "(2::real) powi (- n) = 1 / 2 ^ nat n" "(2::real) powi (1 - n) = 1 / 2 ^ nat (n - 1)"
      using bl by (simp_all add: power_int_def field_simps)
    have pn1: "(2::real) powi (- n + 1) = 1 / 2 ^ nat (n - 1)"
      using pn(2) by (simp add: add.commute)
    have dbl: "(2::real) ^ nat n = 2 * 2 ^ nat (n - 1)"
    proof -
      have "nat n = Suc (nat (n - 1))" using bl by simp
      then show ?thesis by simp
    qed
    show ?thesis
    proof (cases "a * 2 ^ nat (n - 1) = 1")
      case True
      then have e: "binaryExponent x = 1 - n"
        using False by (simp add: binaryExponent_def a_def[symmetric] m_def[symmetric] n_def[symmetric] Let_def)
      have av: "a = 1 / 2 ^ nat (n - 1)" using True by (simp add: field_simps)
      have "(2::real) powi (1 - n + 1) = 2 powi (1 - n) * 2 powi 1"
        by (rule power_int_add) simp
      then have "(2::real) powi (binaryExponent x + 1) = 2 * a" using e pn(2) av by simp
      moreover have "(2::real) powi (binaryExponent x) = a" using e pn(2) av by simp
      ultimately show ?thesis using a by simp
    next
      case ne: False
      then have e: "binaryExponent x = - n"
        using False by (simp add: binaryExponent_def a_def[symmetric] m_def[symmetric] n_def[symmetric] Let_def)
      have "a * 2 ^ nat (n - 1) < 1" using up ne by simp
      then have hi: "a < 1 / 2 ^ nat (n - 1)" by (simp add: field_simps)
      have "1 / 2 ^ nat n < a" using lo by (simp add: field_simps)
      then show ?thesis using e pn(1) pn1 hi by simp
    qed
  qed
  then show "2 powi (binaryExponent x) \<le> \<bar>x\<bar>" and "\<bar>x\<bar> < 2 powi (binaryExponent x + 1)"
    by (simp_all add: a_def)
qed


lemma binaryExponent_unique:
  assumes "2 powi e \<le> \<bar>x\<bar>" "\<bar>x\<bar> < 2 powi (e + 1)"
  shows "binaryExponent x = e"
proof -
  have pos: "0 < (2::real) powi e" by simp
  have nz: "x \<noteq> 0"
  proof
    assume "x = 0"
    with assms(1) have "(2::real) powi e \<le> 0" by simp
    with pos show False by linarith
  qed
  note b = binaryExponent_bounds[OF nz]
  have "\<not> binaryExponent x < e"
  proof
    assume "binaryExponent x < e"
    then have "binaryExponent x + 1 \<le> e" by simp
    then have "(2::real) powi (binaryExponent x + 1) \<le> 2 powi e"
      by (intro power_int_increasing) simp_all
    then show False using b(2) assms(1) by linarith
  qed
  moreover have "\<not> e < binaryExponent x"
  proof
    assume "e < binaryExponent x"
    then have "e + 1 \<le> binaryExponent x" by simp
    then have "(2::real) powi (e + 1) \<le> 2 powi (binaryExponent x)"
      by (intro power_int_increasing) simp_all
    then show False using b(1) assms(2) by linarith
  qed
  ultimately show ?thesis by linarith
qed


text \<open>
  Narrowing to single precision moves a number by at most the fraction \<open>2^(-24)\<close> of its
  size, or by \<open>2^(-150)\<close> near zero.
\<close>

lemma round32_error: "\<bar>round32 x - x\<bar> \<le> \<bar>x\<bar> / 2 ^ 24 + 1 / 2 ^ 150"
proof (cases "x = 0")
  case True
  then show ?thesis by (simp add: round32_def)
next
  case False
  define e where "e = max (binaryExponent x) (- 126)"
  define u where "u = (2::real) powi (e - 23)"
  have upos: "0 < u" by (simp add: u_def)
  have r: "round32 x = of_int (roundTiesToEven (x / u)) * u"
    using False by (simp add: round32_def Let_def e_def u_def)
  have "round32 x - x = (of_int (roundTiesToEven (x / u)) - x / u) * u"
    using upos by (simp add: r field_simps)
  then have "\<bar>round32 x - x\<bar> = \<bar>of_int (roundTiesToEven (x / u)) - x / u\<bar> * u"
    using upos by (simp add: abs_mult)
  also have "\<dots> \<le> (1 / 2) * u"
    using roundTiesToEven_error[of "x / u"] upos by (intro mult_right_mono) simp_all
  finally have half: "\<bar>round32 x - x\<bar> \<le> u / 2" by simp
  have "u / 2 \<le> \<bar>x\<bar> / 2 ^ 24 + 1 / 2 ^ 150"
  proof (cases "- 126 \<le> binaryExponent x")
    case True
    then have "e = binaryExponent x" by (simp add: e_def)
    have "(2::real) powi (binaryExponent x + (- 23)) = 2 powi (binaryExponent x) * 2 powi (- 23)"
      by (rule power_int_add) simp
    then have "u = 2 powi (binaryExponent x) * 2 powi (- 23)"
      unfolding u_def \<open>e = binaryExponent x\<close> by simp
    also have "\<dots> \<le> \<bar>x\<bar> * 2 powi (- 23)"
      using binaryExponent_bounds(1)[OF False] by (intro mult_right_mono) simp_all
    finally have "u \<le> \<bar>x\<bar> / 2 ^ 23" by (simp add: power_int_minus field_simps)
    then have "u / 2 \<le> \<bar>x\<bar> / 2 ^ 24" by simp
    then show ?thesis by (simp add: add_increasing2)
  next
    case False
    then have "e = - 126" by (simp add: e_def)
    then have "u = 2 powi (- 149)" by (simp add: u_def)
    then have "u / 2 = 1 / 2 ^ 150" by (simp add: power_int_minus field_simps)
    then show ?thesis by simp
  qed
  with half show ?thesis by linarith
qed


text \<open>A positive number of moderate size is narrowed to a positive finite number.\<close>

lemma fround_positive:
  assumes "1 \<le> x" "x \<le> 2 ^ 100"
  shows "\<exists>y. fround x = Num y \<and> 0 < y"
proof -
  have e: "\<bar>round32 x - x\<bar> \<le> x / 2 ^ 24 + 1 / 2 ^ 150"
    using round32_error[of x] assms(1) by simp
  have "x / 2 ^ 24 + 1 / 2 ^ 150 \<le> x / 2" using assms(1) by simp
  with e have lo: "x / 2 \<le> round32 x" and hi: "round32 x \<le> 2 * x" using assms(1) by linarith+
  have pos: "0 < round32 x" using lo assms(1) by linarith
  have "round32 x \<le> 2 * 2 ^ 100" using hi assms(2) by linarith
  also have "\<dots> < (2::real) ^ 128" by simp
  finally have "\<bar>round32 x\<bar> < 2 ^ 128" using pos by simp
  then show ?thesis using pos by (simp add: fround_def Let_def)
qed

lemma fround_zero [simp]: "fround 0 = Num 0"
  by (simp add: fround_def round32_def)





lemma MathPI_bounds: "3 < MathPI" "MathPI < 4"
  by (simp_all add: MathPI_def)


section \<open>Properties of the mesher\<close>

text \<open>
  The neighbours of a sample in the closed polygon, and the angle and the position the
  claim names: \<open>thetaAt\<close> is the larger of the angles to the two neighbours,
  \<open>extendedVertex\<close> the unit vector of the sample scaled by \<open>r / cos (theta / 2)\<close>.
  \<open>froundVector\<close> narrows the three coordinates to single precision.
\<close>

definition cyclicPrev :: "nat \<Rightarrow> nat \<Rightarrow> nat" where
  "cyclicPrev len j = (if j = 0 then len - 1 else j - 1)"

definition cyclicNext :: "nat \<Rightarrow> nat \<Rightarrow> nat" where
  "cyclicNext len j = (if j + 1 = len then 0 else j + 1)"

definition thetaAt :: "spherical list \<Rightarrow> nat \<Rightarrow> real" where
  "thetaAt directions j =
     max (angleOf (fromSpherical (directions ! cyclicPrev (length directions) j))
                  (fromSpherical (directions ! j)))
         (angleOf (fromSpherical (directions ! j))
                  (fromSpherical (directions ! cyclicNext (length directions) j)))"

definition extendedVertex :: "spherical list \<Rightarrow> real \<Rightarrow> nat \<Rightarrow> cartesian3" where
  "extendedVertex directions r j =
     multiplyByScalar (fromSpherical (directions ! j)) (r / cos (thetaAt directions j / 2))"

definition froundVector :: "cartesian3 \<Rightarrow> jsnum \<times> jsnum \<times> jsnum" where
  "froundVector p = (case p of (x, y, z) \<Rightarrow> (fround x, fround y, fround z))"

lemma positionAt_storePosition:
  assumes "length ps = 3 * n" "j < n" "m < n"
  shows "positionAt (storePosition ps (int j) p) (int m)
           = (if m = j then froundVector p else positionAt ps (int m))"
proof -
  obtain x y z where p: "p = (x, y, z)" by (cases p)
  have idx: "nat (int j * 3) = 3 * j" "nat (int j * 3 + 1) = 3 * j + 1" "nat (int j * 3 + 2) = 3 * j + 2"
       "nat (int m * 3) = 3 * m" "nat (int m * 3 + 1) = 3 * m + 1" "nat (int m * 3 + 2) = 3 * m + 2"
    by (simp_all add: nat_add_distrib nat_mult_distrib)
  have rng: "3 * j + 2 < length ps" "3 * m + 2 < length ps" using assms by auto
  show ?thesis
  proof (cases "m = j")
    case True
    then show ?thesis using rng
      by (simp add: p storePosition_def putAt_def positionAt_def idx froundVector_def)
  next
    case False
    then have "3 * m \<noteq> 3 * j" "3 * m \<noteq> 3 * j + 1" "3 * m \<noteq> 3 * j + 2"
      "3 * m + 1 \<noteq> 3 * j" "3 * m + 1 \<noteq> 3 * j + 1" "3 * m + 1 \<noteq> 3 * j + 2"
      "3 * m + 2 \<noteq> 3 * j" "3 * m + 2 \<noteq> 3 * j + 1" "3 * m + 2 \<noteq> 3 * j + 2"
      by presburger+
    then show ?thesis using rng False
      by (simp add: p storePosition_def putAt_def positionAt_def idx)
  qed
qed

lemma length_storePosition [simp]: "length (storePosition ps j p) = length ps"
  by (cases p) (simp add: storePosition_def putAt_def)

lemma angleBetween_Inr:
  assumes "magnitudeOf a \<noteq> 0" "magnitudeOf b \<noteq> 0"
  shows "angleBetween a b = Inr (angleOf a b)"
  using assms by (simp add: angleBetween_def normalize_def)

lemma computePositionsLoop_step:
  assumes "2 \<le> length ds" "k < length ds"
    and "i = int (cyclicPrev (length ds) (cyclicPrev (length ds) k))"
    and "j = int (cyclicPrev (length ds) k)"
    and nz: "\<forall>d \<in> set ds. magnitudeOf (fromSpherical d) \<noteq> 0"
  shows "computePositionsLoop ds r i j k ps bvp =
         computePositionsLoop ds r j (int k) (Suc k)
           (storePosition ps j (extendedVertex ds r (cyclicPrev (length ds) k)))
           (bvp @ [extendedVertex ds r (cyclicPrev (length ds) k)])"
proof -
  let ?L = "length ds"
  have jn: "cyclicPrev ?L k < ?L" and inn: "cyclicPrev ?L (cyclicPrev ?L k) < ?L"
    using assms by (auto simp: cyclicPrev_def)
  have nxt: "cyclicNext ?L (cyclicPrev ?L k) = k"
    using assms by (auto simp: cyclicPrev_def cyclicNext_def)
  have gi: "getAt ds i = Some (ds ! cyclicPrev ?L (cyclicPrev ?L k))"
    and gj: "getAt ds j = Some (ds ! cyclicPrev ?L k)"
    and gk: "getAt ds (int k) = Some (ds ! k)"
    using jn inn assms by (simp_all add: getAt_def)
  have m: "magnitudeOf (fromSpherical (ds ! cyclicPrev ?L (cyclicPrev ?L k))) \<noteq> 0"
    "magnitudeOf (fromSpherical (ds ! cyclicPrev ?L k)) \<noteq> 0"
    "magnitudeOf (fromSpherical (ds ! k)) \<noteq> 0"
    using nz jn inn assms(2) by (simp_all add: nth_mem)
  have a1: "angleBetween (fromSpherical (ds ! cyclicPrev ?L (cyclicPrev ?L k)))
              (fromSpherical (ds ! cyclicPrev ?L k))
          = Inr (angleOf (fromSpherical (ds ! cyclicPrev ?L (cyclicPrev ?L k)))
                   (fromSpherical (ds ! cyclicPrev ?L k)))"
    by (rule angleBetween_Inr[OF m(1) m(2)])
  have a2: "angleBetween (fromSpherical (ds ! cyclicPrev ?L k)) (fromSpherical (ds ! k))
          = Inr (angleOf (fromSpherical (ds ! cyclicPrev ?L k)) (fromSpherical (ds ! k)))"
    by (rule angleBetween_Inr[OF m(2) m(3)])
  show ?thesis
    by (subst computePositionsLoop.simps)
       (simp only: assms(2) if_True gi gj gk option.case Let_def a1 a2 sum.case
          extendedVertex_def nxt
          times_divide_eq_right mult_1_right mult.commute[of _ "5 / 10"], simp add: thetaAt_def nxt)
qed

lemma computePositionsLoop_result:
  assumes "2 \<le> length ds" "k \<le> length ds" "length ps = 3 * length ds"
    and "i = int (cyclicPrev (length ds) (cyclicPrev (length ds) k))"
    and "j = int (cyclicPrev (length ds) k)"
    and nz: "\<forall>d \<in> set ds. magnitudeOf (fromSpherical d) \<noteq> 0"
  shows "\<exists>ps' bvp'. computePositionsLoop ds r i j k ps bvp = Inr (ps', bvp')
           \<and> length ps' = 3 * length ds
           \<and> (\<forall>m < length ds. positionAt ps' (int m) =
                 (if m \<in> cyclicPrev (length ds) ` {k ..< length ds}
                  then froundVector (extendedVertex ds r m) else positionAt ps (int m)))"
  using assms(1-5)
proof (induction "length ds - k" arbitrary: k i j ps bvp)
  case 0
  then have "k = length ds" by simp
  then show ?case
    using 0 by (subst computePositionsLoop.simps) simp
next
  case (Suc n)
  let ?L = "length ds"
  let ?j = "cyclicPrev ?L k"
  let ?p = "extendedVertex ds r ?j"
  have k: "k < ?L" using Suc.hyps(2) by arith
  have jn: "?j < ?L" using k Suc.prems(1) by (auto simp: cyclicPrev_def)
  have step: "computePositionsLoop ds r i j k ps bvp =
         computePositionsLoop ds r j (int k) (Suc k) (storePosition ps j ?p) (bvp @ [?p])"
    using computePositionsLoop_step[OF Suc.prems(1) k Suc.prems(4) Suc.prems(5) nz] .
  have jk: "int k = int (cyclicPrev ?L (Suc k))" by (simp add: cyclicPrev_def)
  have jj: "j = int (cyclicPrev ?L (cyclicPrev ?L (Suc k)))"
    using Suc.prems(5) by (simp add: cyclicPrev_def)
  have "\<exists>ps' bvp'. computePositionsLoop ds r j (int k) (Suc k) (storePosition ps j ?p) (bvp @ [?p]) = Inr (ps', bvp')
           \<and> length ps' = 3 * ?L
           \<and> (\<forall>m < ?L. positionAt ps' (int m) =
                 (if m \<in> cyclicPrev ?L ` {Suc k ..< ?L}
                  then froundVector (extendedVertex ds r m)
                  else positionAt (storePosition ps j ?p) (int m)))"
  proof (rule Suc.hyps(1))
    show "n = ?L - Suc k" using Suc.hyps(2) by arith
    show "2 \<le> ?L" by fact
    show "Suc k \<le> ?L" using k by simp
    show "length (storePosition ps j ?p) = 3 * ?L" using Suc.prems(3) by simp
    show "j = int (cyclicPrev ?L (cyclicPrev ?L (Suc k)))" by (rule jj)
    show "int k = int (cyclicPrev ?L (Suc k))" by (rule jk)
  qed
  then obtain ps' bvp' where
    res: "computePositionsLoop ds r j (int k) (Suc k) (storePosition ps j ?p) (bvp @ [?p]) = Inr (ps', bvp')"
    and len: "length ps' = 3 * ?L"
    and pos: "\<And>m. m < ?L \<Longrightarrow> positionAt ps' (int m) =
                 (if m \<in> cyclicPrev ?L ` {Suc k ..< ?L}
                  then froundVector (extendedVertex ds r m)
                  else positionAt (storePosition ps j ?p) (int m))"
    by blast
  have split: "cyclicPrev ?L ` {k ..< ?L} = insert ?j (cyclicPrev ?L ` {Suc k ..< ?L})"
  proof -
    have "{k ..< ?L} = insert k {Suc k ..< ?L}" using k by auto
    then show ?thesis by simp
  qed
  have "positionAt ps' (int m) =
          (if m \<in> cyclicPrev ?L ` {k ..< ?L} then froundVector (extendedVertex ds r m)
           else positionAt ps (int m))"
    if m: "m < ?L" for m
  proof -
    have st: "positionAt (storePosition ps j ?p) (int m)
        = (if m = ?j then froundVector ?p else positionAt ps (int m))"
      unfolding Suc.prems(5) using positionAt_storePosition[OF Suc.prems(3) jn m] .
    show ?thesis
      unfolding pos[OF m] st split by auto
  qed
  then show ?case unfolding step res using len by simp
qed

lemma cyclicPrev_onto:
  assumes "m < n"
  shows "m \<in> cyclicPrev n ` {0 ..< n}"
proof -
  have "cyclicNext n m < n" using assms by (auto simp: cyclicNext_def)
  moreover have "cyclicPrev n (cyclicNext n m) = m" using assms by (auto simp: cyclicNext_def cyclicPrev_def)
  ultimately show ?thesis by (metis atLeastLessThan_iff image_eqI zero_le)
qed

lemma magnitudeOf_fromSpherical: "magnitudeOf (fromSpherical d) = \<bar>magnitude d\<bar>"
proof -
  define m sc cc sk ck where "m = magnitude d" and "sc = sin (cone d)" and "cc = cos (cone d)"
    and "sk = sin (clock d)" and "ck = cos (clock d)"
  have one: "sk\<^sup>2 + ck\<^sup>2 = 1" "sc\<^sup>2 + cc\<^sup>2 = 1"
    by (simp_all add: sk_def ck_def sc_def cc_def)
  have "m * sc * ck * (m * sc * ck) + m * sc * sk * (m * sc * sk) + m * cc * (m * cc)
      = m\<^sup>2 * (sc\<^sup>2 * (sk\<^sup>2 + ck\<^sup>2) + cc\<^sup>2)"
    by (simp add: power2_eq_square algebra_simps)
  also have "\<dots> = m\<^sup>2" by (simp only: one mult_1_right)
  finally have "sqrt (m * sc * ck * (m * sc * ck) + m * sc * sk * (m * sc * sk) + m * cc * (m * cc)) = \<bar>m\<bar>"
    by simp
  then show ?thesis
    by (simp add: magnitudeOf_def fromSpherical_def Let_def m_def sc_def cc_def sk_def ck_def)
qed















text \<open>Three samples along the three axes, a right angle apart, and radius 10.\<close>

definition threeAxes :: "spherical list" where
  "threeAxes = [\<lparr> clock = 0, cone = pi / 2, magnitude = 1 \<rparr>,
                \<lparr> clock = pi / 2, cone = pi / 2, magnitude = 1 \<rparr>,
                \<lparr> clock = 0, cone = 0, magnitude = 1 \<rparr>]"

lemma fromSpherical_threeAxes:
  "fromSpherical (threeAxes ! 0) = (1, 0, 0)"
  "fromSpherical (threeAxes ! Suc 0) = (0, 1, 0)"
  "fromSpherical (threeAxes ! Suc (Suc 0)) = (0, 0, 1)"
  "fromSpherical (threeAxes ! 2) = (0, 0, 1)"
  by (simp_all add: threeAxes_def fromSpherical_def)

lemma right_angle: "max (- MathPI) (min MathPI (pi / 2)) = pi / 2"
proof -
  have "pi / 2 \<le> MathPI" "- MathPI \<le> pi / 2"
    using MathPI_bounds(1) pi_less_4 pi_gt_zero by linarith+
  then show ?thesis by (simp add: max_def min_def)
qed

lemma angleOf_axes:
  "angleOf (1, 0, 0) (0, 1, 0) = pi / 2"
  "angleOf (0, 1, 0) (0, 0, 1) = pi / 2"
  "angleOf (0, 0, 1) (1, 0, 0) = pi / 2"
  by (simp_all add: angleOf_def unitVector_def magnitudeOf_def atan2_def Let_def right_angle)

lemma thetaAt_threeAxes:
  "thetaAt threeAxes 0 = pi / 2" "thetaAt threeAxes (Suc 0) = pi / 2" "thetaAt threeAxes 2 = pi / 2"
proof -
  have l: "length threeAxes = 3" by (simp add: threeAxes_def)
  show "thetaAt threeAxes 0 = pi / 2" "thetaAt threeAxes (Suc 0) = pi / 2"
    "thetaAt threeAxes 2 = pi / 2"
    using fromSpherical_threeAxes
    by (simp_all add: thetaAt_def l cyclicPrev_def cyclicNext_def angleOf_axes)
qed



section \<open>The mesh after a change of the directions\<close>

lemma updateRenderStates_keeps [simp]:
  "showFlag (updateRenderStates t p) = showFlag p"
  "lateralSurfaceMaterial (updateRenderStates t p) = lateralSurfaceMaterial p"
  by (simp_all add: updateRenderStates_def Let_def)

lemma updateMatrices_frame [simp]:
  "vertexArray (p_frontFaceColorCommand (updateMatrices c p)) = vertexArray (p_frontFaceColorCommand p)"
  "p_va (updateMatrices c p) = p_va p"
  "showFlag (updateMatrices c p) = showFlag p"
  "radius (updateMatrices c p) = radius p"
  "lateralSurfaceMaterial (updateMatrices c p) = lateralSurfaceMaterial p"
  "p_directions (updateMatrices c p) = p_directions p"
  "p_directionsDirty (updateMatrices c p) = p_directionsDirty p"
  by (simp_all add: updateMatrices_def Let_def)

lemma renderCommands_result:
  assumes "renderCommands mc t m p cmds = (p', cmds')"
  shows "vertexArray (p_frontFaceColorCommand p') = vertexArray (p_frontFaceColorCommand p)"
    and "p_va p' = p_va p" "showFlag p' = showFlag p" "radius p' = radius p"
    and "lateralSurfaceMaterial p' = lateralSurfaceMaterial p"
    and "p_directions p' = p_directions p" "p_directionsDirty p' = p_directionsDirty p"
    and "\<exists>more. cmds' = cmds @ more @ [p_frontFaceColorCommand p']"
  using assms by (auto simp: renderCommands_def Let_def split: if_splits)

lemma pickCommands_result:
  assumes "pickCommands mc t m p cmds ctx = (p', cmds', ctx')"
  shows "p_frontFaceColorCommand p' = p_frontFaceColorCommand p"
    and "p_va p' = p_va p" "showFlag p' = showFlag p" "radius p' = radius p"
    and "lateralSurfaceMaterial p' = lateralSurfaceMaterial p"
    and "p_directions p' = p_directions p" "p_directionsDirty p' = p_directionsDirty p"
    and "\<exists>c. cmds' = cmds @ [c]"
    and "vertexArrays ctx' = vertexArrays ctx" "nextVertexArray ctx' = nextVertexArray ctx"
  using assms by (auto simp: pickCommands_def Let_def split: if_splits prod.splits)

lemma update_draws:
  assumes "showFlag p" "mode frame = SCENE3D"
    and "\<not> lessThanZero (radius p)" "lateralSurfaceMaterial p = Some m"
    and "updateVertexArray (updateRenderStates (isTranslucent m) (p\<lparr> p_mode := SCENE3D \<rparr>))
           (contextOf frame) = Inr (p2, ctx2)"
    and "vertexArray (p_frontFaceColorCommand p2) = Some va"
  shows "\<exists>p' frame'. update p frame = Inr (p', frame')
           \<and> vertexArrays (contextOf frame') = vertexArrays ctx2
           \<and> nextVertexArray (contextOf frame') = nextVertexArray ctx2
           \<and> vertexArray (p_frontFaceColorCommand p') = Some va
           \<and> p_va p' = p_va p2 \<and> showFlag p' = showFlag p2 \<and> radius p' = radius p2
           \<and> lateralSurfaceMaterial p' = lateralSurfaceMaterial p2
           \<and> p_directions p' = p_directions p2 \<and> p_directionsDirty p' = p_directionsDirty p2
           \<and> mode frame' = mode frame \<and> renderPass frame' = renderPass frame
           \<and> (renderPass frame \<longrightarrow>
                 length (commandList frame) < length (commandList frame')
               \<and> (\<exists>c \<in> set (commandList frame'). vertexArray c = Some va))"
proof -
  define t where "t = isTranslucent m"
  define p1 where "p1 = updateRenderStates t (p\<lparr> p_mode := SCENE3D \<rparr>)"
  define ch where "ch = p_directionsDirty p1"
  define p4 where "p4 = (updateMatrices ch p2)\<lparr> p_lateralSurfaceMaterial := Some m \<rparr>"
  define mc where "mc \<longleftrightarrow> (\<forall>z. p_lateralSurfaceMaterial (updateMatrices ch p2) = Some z
                                 \<longrightarrow> materialRef z \<noteq> materialRef m)"
  have va: "updateVertexArray p1 (contextOf frame) = Inr (p2, ctx2)"
    using assms(5) by (simp add: p1_def t_def)
  have front4: "vertexArray (p_frontFaceColorCommand p4) = Some va"
    using assms(6) by (simp add: p4_def)
  have keep4: "p_va p4 = p_va p2" "showFlag p4 = showFlag p2" "radius p4 = radius p2"
    "lateralSurfaceMaterial p4 = lateralSurfaceMaterial p2" "p_directions p4 = p_directions p2"
    "p_directionsDirty p4 = p_directionsDirty p2"
    by (simp_all add: p4_def)
  have "\<exists>p5 cmds5. (if renderPass frame then renderCommands mc t m p4 (commandList frame)
         else (p4, commandList frame)) = (p5, cmds5)
       \<and> update p frame =
             (case (if pickPass frame then pickCommands mc t m p5 cmds5 ctx2 else (p5, cmds5, ctx2)) of
                (p6, cmds6, ctx6) \<Rightarrow> Inr (p6, frame\<lparr> commandList := cmds6, contextOf := ctx6 \<rparr>))"
  proof (cases "renderPass frame")
    case True
    obtain p5 cmds5 where r: "renderCommands mc t m p4 (commandList frame) = (p5, cmds5)"
      by (cases "renderCommands mc t m p4 (commandList frame)")
    show ?thesis
      using assms(1,2,3,4,6) True
      by (cases "pickPass frame")
         (simp_all add: update_def Let_def r
            t_def[symmetric] p1_def[symmetric] va ch_def[symmetric] mc_def[symmetric] p4_def[symmetric])
  next
    case False
    show ?thesis
      using assms(1,2,3,4,6) False
      by (cases "pickPass frame")
         (simp_all add: update_def Let_def
            t_def[symmetric] p1_def[symmetric] va ch_def[symmetric] mc_def[symmetric] p4_def[symmetric])
  qed
  then obtain p5 cmds5 where
    r: "(if renderPass frame then renderCommands mc t m p4 (commandList frame)
         else (p4, commandList frame)) = (p5, cmds5)"
    and u: "update p frame =
             (case (if pickPass frame then pickCommands mc t m p5 cmds5 ctx2 else (p5, cmds5, ctx2)) of
                (p6, cmds6, ctx6) \<Rightarrow> Inr (p6, frame\<lparr> commandList := cmds6, contextOf := ctx6 \<rparr>))"
    by (elim exE conjE)
  have five: "vertexArray (p_frontFaceColorCommand p5) = Some va"
    "p_va p5 = p_va p2" "showFlag p5 = showFlag p2" "radius p5 = radius p2"
    "lateralSurfaceMaterial p5 = lateralSurfaceMaterial p2" "p_directions p5 = p_directions p2"
    "p_directionsDirty p5 = p_directionsDirty p2"
    "renderPass frame \<longrightarrow> length (commandList frame) < length cmds5
        \<and> p_frontFaceColorCommand p5 \<in> set cmds5"
  proof -
    show "vertexArray (p_frontFaceColorCommand p5) = Some va"
      "p_va p5 = p_va p2" "showFlag p5 = showFlag p2" "radius p5 = radius p2"
      "lateralSurfaceMaterial p5 = lateralSurfaceMaterial p2" "p_directions p5 = p_directions p2"
      "p_directionsDirty p5 = p_directionsDirty p2"
      using r front4 keep4 renderCommands_result(1-7)[of mc t m p4 "commandList frame" p5 cmds5]
      by (cases "renderPass frame"; simp)+
    show "renderPass frame \<longrightarrow> length (commandList frame) < length cmds5
        \<and> p_frontFaceColorCommand p5 \<in> set cmds5"
    proof
      assume "renderPass frame"
      then have "renderCommands mc t m p4 (commandList frame) = (p5, cmds5)" using r by simp
      from renderCommands_result(8)[OF this] obtain more where
        "cmds5 = commandList frame @ more @ [p_frontFaceColorCommand p5]" by blast
      then show "length (commandList frame) < length cmds5
        \<and> p_frontFaceColorCommand p5 \<in> set cmds5" by simp
    qed
  qed
  show ?thesis
  proof (cases "pickPass frame")
    case False
    have "update p frame = Inr (p5, frame\<lparr> commandList := cmds5, contextOf := ctx2 \<rparr>)"
      using False by (simp add: u)
    then show ?thesis
      using five by (intro exI[of _ p5] exI[of _ "frame\<lparr> commandList := cmds5, contextOf := ctx2 \<rparr>"]) auto
  next
    case True
    obtain p6 cmds6 ctx6 where
      k: "pickCommands mc t m p5 cmds5 ctx2 = (p6, cmds6, ctx6)"
      by (cases "pickCommands mc t m p5 cmds5 ctx2")
    note k6 = pickCommands_result[OF k]
    from k6(8) obtain c where c: "cmds6 = cmds5 @ [c]" by blast
    have "update p frame = Inr (p6, frame\<lparr> commandList := cmds6, contextOf := ctx6 \<rparr>)"
      using True by (simp add: u k)
    then show ?thesis
      using five k6(1-7,9,10) c
      by (intro exI[of _ p6] exI[of _ "frame\<lparr> commandList := cmds6, contextOf := ctx6 \<rparr>"]) auto
  qed
qed


lemma updateVertexArray_few_directions:
  assumes "p_directionsDirty p" "p_va p = None" "p_directions p = Some ds" "length ds < 3"
  shows "updateVertexArray p ctx = Inr (p\<lparr> p_directionsDirty := False \<rparr>, ctx)"
  using assms by (simp add: updateVertexArray_def destroyVa_def)

text \<open>
  The mesher succeeds on a list of directions: the positions are computed and every face
  has a normal.
\<close>

definition meshable :: "spherical list \<Rightarrow> real \<Rightarrow> bool" where
  "meshable ds r =
     (case computePositionsLoop ds r (int (length ds) - 2) (int (length ds) - 1) 0
             (replicate (3 * length ds) (Num 0)) [(0, 0, 0)] of
        Inl e \<Rightarrow> False
      | Inr (positions, points) \<Rightarrow>
          (case createVertices positions (length ds) (int (length ds) - 1) 0 [] of
             Inl e \<Rightarrow> False
           | Inr vertices \<Rightarrow> True))"

lemma createVertexArray_result:
  assumes "p_directions p = Some ds" "meshable ds (finiteRadius (radius p))"
  shows "\<exists>sphere vertices. createVertexArray p ctx =
           Inr (nextVertexArray ctx, p\<lparr> p_boundingSphere := sphere \<rparr>,
                ctx\<lparr> vertexArrays := (vertexArrays ctx)(nextVertexArray ctx \<mapsto> vertices),
                     nextVertexArray := Suc (nextVertexArray ctx) \<rparr>)"
proof -
  from assms(2) obtain positions points vertices where
    1: "computePositionsLoop ds (finiteRadius (radius p)) (int (length ds) - 2)
          (int (length ds) - 1) 0 (replicate (3 * length ds) (Num 0)) [(0, 0, 0)]
        = Inr (positions, points)"
    and 2: "createVertices positions (length ds) (int (length ds) - 1) 0 [] = Inr vertices"
    by (auto simp: meshable_def split: sum.splits prod.splits)
  have "computePositions p = Inr (positions, FromPoints points)"
    using 1 by (simp add: computePositions_def assms(1) Let_def)
  then show ?thesis
    using 2 by (simp add: createVertexArray_def assms(1) Let_def)
       (intro exI[of _ "FromPoints points"] exI[of _ vertices] conjI refl)
qed

lemma updateVertexArray_rebuild:
  assumes "p_directionsDirty p" "p_va p = None" "p_directions p = Some ds" "3 \<le> length ds"
    and "meshable ds (finiteRadius (radius p))"
  shows "\<exists>p2 vertices. updateVertexArray p ctx =
           Inr (p2, ctx\<lparr> vertexArrays := (vertexArrays ctx)(nextVertexArray ctx \<mapsto> vertices),
                         nextVertexArray := Suc (nextVertexArray ctx) \<rparr>)
         \<and> vertexArray (p_frontFaceColorCommand p2) = Some (nextVertexArray ctx)
         \<and> p_va p2 = None \<and> showFlag p2 = showFlag p \<and> radius p2 = radius p
         \<and> lateralSurfaceMaterial p2 = lateralSurfaceMaterial p
         \<and> p_directions p2 = Some ds \<and> \<not> p_directionsDirty p2"
proof -
  let ?p1 = "p\<lparr> p_directionsDirty := False \<rparr>"
  have "p_directions ?p1 = Some ds" "meshable ds (finiteRadius (radius ?p1))"
    using assms by simp_all
  from createVertexArray_result[OF this, of ctx] obtain sphere vertices where
    "createVertexArray ?p1 ctx =
           Inr (nextVertexArray ctx, ?p1\<lparr> p_boundingSphere := sphere \<rparr>,
                ctx\<lparr> vertexArrays := (vertexArrays ctx)(nextVertexArray ctx \<mapsto> vertices),
                     nextVertexArray := Suc (nextVertexArray ctx) \<rparr>)" by (elim exE)
  then show ?thesis
    using assms by (simp add: updateVertexArray_def destroyVa_def) (rule exI[of _ vertices], rule refl)
qed

text \<open>
  C4 states that a change of the directions destroys the prior mesh and that fewer than
  three directions leave the primitive without a mesh and without draw commands.  The
  update destroys the vertex array held in \<^verbatim>\<open>_va\<close>, a field that nothing assigns; the mesh
  in use is held by the draw commands.  So, for a primitive that was drawn before: when the
  directions change to fewer than three entries, the prior vertex array stays in the
  context, stays attached to the commands, and the frame gets a draw command for it.
\<close>

theorem stale_mesh_is_drawn:
  assumes "showFlag p" "mode frame = SCENE3D" "renderPass frame"
    and "\<not> lessThanZero (radius p)" "lateralSurfaceMaterial p = Some m"
    and "p_va p = None"
    and "vertexArray (p_frontFaceColorCommand p) = Some va"
    and "vertexArrays (contextOf frame) va = Some mesh"
    and "p_directionsDirty p" "p_directions p = Some ds" "length ds < 3"
  shows "\<exists>p' frame'. update p frame = Inr (p', frame')
           \<and> vertexArrays (contextOf frame') va = Some mesh
           \<and> vertexArray (p_frontFaceColorCommand p') = Some va
           \<and> length (commandList frame) < length (commandList frame')
           \<and> (\<exists>c \<in> set (commandList frame'). vertexArray c = Some va)"
proof -
  let ?p1 = "updateRenderStates (isTranslucent m) (p\<lparr> p_mode := SCENE3D \<rparr>)"
  have va: "updateVertexArray ?p1 (contextOf frame) = Inr (?p1\<lparr> p_directionsDirty := False \<rparr>, contextOf frame)"
    using assms by (intro updateVertexArray_few_directions[where ds = ds]) simp_all
  have front: "vertexArray (p_frontFaceColorCommand (?p1\<lparr> p_directionsDirty := False \<rparr>)) = Some va"
    using assms(7) by simp
  from update_draws[OF assms(1,2,4,5) va front] obtain p' frame' where
    "update p frame = Inr (p', frame')"
    "vertexArrays (contextOf frame') = vertexArrays (contextOf frame)"
    "vertexArray (p_frontFaceColorCommand p') = Some va"
    "renderPass frame \<longrightarrow>
       length (commandList frame) < length (commandList frame')
       \<and> (\<exists>c \<in> set (commandList frame'). vertexArray c = Some va)"
    by (elim exE conjE)
  then show ?thesis
    using assms(3,8) by (intro exI[of _ p'] exI[of _ frame']) simp
qed


lemma first_mesh_created:
  assumes "showFlag p" "mode frame = SCENE3D"
    and "\<not> lessThanZero (radius p)" "lateralSurfaceMaterial p = Some m"
    and "p_va p = None" "p_directionsDirty p" "p_directions p = Some ds" "3 \<le> length ds"
    and "meshable ds (finiteRadius (radius p))"
  shows "\<exists>p' frame' mesh. update p frame = Inr (p', frame')
           \<and> vertexArrays (contextOf frame') =
                 (vertexArrays (contextOf frame))(nextVertexArray (contextOf frame) \<mapsto> mesh)
           \<and> nextVertexArray (contextOf frame') = Suc (nextVertexArray (contextOf frame))
           \<and> vertexArray (p_frontFaceColorCommand p') = Some (nextVertexArray (contextOf frame))
           \<and> p_va p' = None \<and> showFlag p' \<and> radius p' = radius p
           \<and> lateralSurfaceMaterial p' = Some m
           \<and> p_directions p' = Some ds \<and> \<not> p_directionsDirty p'
           \<and> mode frame' = mode frame \<and> renderPass frame' = renderPass frame"
proof -
  let ?p1 = "updateRenderStates (isTranslucent m) (p\<lparr> p_mode := SCENE3D \<rparr>)"
  let ?ctx = "contextOf frame"
  have pre: "p_directionsDirty ?p1" "p_va ?p1 = None" "p_directions ?p1 = Some ds"
    using assms by simp_all
  have mesh: "meshable ds (finiteRadius (radius ?p1))" using assms(9) by simp
  from updateVertexArray_rebuild[OF pre assms(8) mesh, of ?ctx] obtain p2 mesh where
    va: "updateVertexArray ?p1 ?ctx =
           Inr (p2, ?ctx\<lparr> vertexArrays := (vertexArrays ?ctx)(nextVertexArray ?ctx \<mapsto> mesh),
                          nextVertexArray := Suc (nextVertexArray ?ctx) \<rparr>)"
    and two: "vertexArray (p_frontFaceColorCommand p2) = Some (nextVertexArray ?ctx)"
      "p_va p2 = None" "showFlag p2 = showFlag ?p1" "radius p2 = radius ?p1"
      "lateralSurfaceMaterial p2 = lateralSurfaceMaterial ?p1"
      "p_directions p2 = Some ds" "\<not> p_directionsDirty p2"
    by (elim exE conjE)
  from update_draws[OF assms(1,2,3,4) va two(1)] obtain p' frame' where
    "update p frame = Inr (p', frame')"
    "vertexArrays (contextOf frame') =
       vertexArrays (?ctx\<lparr> vertexArrays := (vertexArrays ?ctx)(nextVertexArray ?ctx \<mapsto> mesh),
                          nextVertexArray := Suc (nextVertexArray ?ctx) \<rparr>)"
    "nextVertexArray (contextOf frame') =
       nextVertexArray (?ctx\<lparr> vertexArrays := (vertexArrays ?ctx)(nextVertexArray ?ctx \<mapsto> mesh),
                          nextVertexArray := Suc (nextVertexArray ?ctx) \<rparr>)"
    "vertexArray (p_frontFaceColorCommand p') = Some (nextVertexArray ?ctx)"
    "p_va p' = p_va p2" "showFlag p' = showFlag p2" "radius p' = radius p2"
    "lateralSurfaceMaterial p' = lateralSurfaceMaterial p2"
    "p_directions p' = p_directions p2" "p_directionsDirty p' = p_directionsDirty p2"
    "mode frame' = mode frame" "renderPass frame' = renderPass frame"
    by (elim exE conjE)
  then show ?thesis
    using two assms(1,4)
    by (intro exI[of _ p'] exI[of _ frame'] exI[of _ mesh]) simp
qed

text \<open>The three axes at the default radius are meshable.\<close>

lemma createVertices_succeeds:
  assumes fin: "\<And>m. m < len \<Longrightarrow> finitePosition (positionAt ps (int m)) = Some (q m)"
    and nz: "\<And>m. m < len \<Longrightarrow> magnitudeOf (cross (q m) (q (cyclicPrev len m))) \<noteq> 0"
    and "j \<le> len" "i = int (cyclicPrev len j)" "0 < len"
  shows "\<exists>vs'. createVertices ps len i j vs = Inr vs'"
  using assms(3,4)
proof (induction "len - j" arbitrary: i j vs)
  case 0
  then show ?case by (subst createVertices.simps) simp
next
  case (Suc n)
  have j: "j < len" using Suc.hyps(2) by arith
  have ci: "cyclicPrev len j < len" using j assms(5) by (auto simp: cyclicPrev_def)
  have p0: "finitePosition (positionAt ps i) = Some (q (cyclicPrev len j))"
    unfolding Suc.prems(2) by (rule fin[OF ci])
  have p1: "finitePosition (positionAt ps (int j)) = Some (q j)" by (rule fin[OF j])
  have n: "normalize (cross (q j) (q (cyclicPrev len j)))
      = Inr (unitVector (cross (q j) (q (cyclicPrev len j))))"
    using nz[OF j] by (simp add: normalize_def)
  obtain nx ny nz' where u: "unitVector (cross (q j) (q (cyclicPrev len j))) = (nx, ny, nz')"
    by (cases "unitVector (cross (q j) (q (cyclicPrev len j)))")
  obtain ax ay az where a: "q (cyclicPrev len j) = (ax, ay, az)" by (cases "q (cyclicPrev len j)")
  obtain bx by' bz where b: "q j = (bx, by', bz)" by (cases "q j")
  have next': "int j = int (cyclicPrev len (Suc j))" by (simp add: cyclicPrev_def)
  have "\<exists>vs'. createVertices ps len (int j) (Suc j)
          (vs @ [0, 0, 0, round32 nx, round32 ny, round32 nz',
                 bx, by', bz, round32 nx, round32 ny, round32 nz',
                 ax, ay, az, round32 nx, round32 ny, round32 nz']) = Inr vs'"
  proof (rule Suc.hyps(1))
    show "n = len - Suc j" using Suc.hyps(2) by arith
    show "Suc j \<le> len" using j by simp
    show "int j = int (cyclicPrev len (Suc j))" by (rule next')
  qed
  moreover have "createVertices ps len i j vs
      = createVertices ps len (int j) (Suc j)
          (vs @ [0, 0, 0, round32 nx, round32 ny, round32 nz',
                 bx, by', bz, round32 nx, round32 ny, round32 nz',
                 ax, ay, az, round32 nx, round32 ny, round32 nz'])"
  proof -
    have na: "normalize (cross (bx, by', bz) (ax, ay, az)) = Inr (nx, ny, nz')"
      using n u by (simp only: a b)
    show ?thesis
      by (subst createVertices.simps)
         (simp only: j if_True p0[unfolded a] p1[unfolded b] option.case na sum.case prod.case)
  qed
  ultimately show ?case by simp
qed

lemma meshable_threeAxes: "meshable threeAxes FAR"
proof -
  define a where "a = FAR / cos (pi / 4)"
  have c: "cos (pi / 4) = sqrt 2 / 2" by (rule cos_45)
  have s2: "1 \<le> sqrt 2" "sqrt 2 \<le> 2"
    by (simp_all add: real_le_lsqrt)
  have "(2::real) / sqrt 2 = sqrt 2" by (rule real_div_sqrt) simp
  moreover have "a = FAR * (2 / sqrt 2)" by (simp add: a_def c)
  ultimately have a2: "a = FAR * sqrt 2" by simp
  have f: "1 \<le> FAR" "FAR \<le> 2 ^ 99" by (simp_all add: FAR_def)
  have "1 * 1 \<le> FAR * sqrt 2" using f(1) s2(1) by (intro mult_mono) simp_all
  moreover have "FAR * sqrt 2 \<le> 2 ^ 99 * 2" using f(2) s2(2) by (intro mult_mono) simp_all
  ultimately have "1 \<le> a" "a \<le> 2 ^ 100" unfolding a2 by simp_all
  from fround_positive[OF this] obtain a' where a': "fround a = Num a'" "0 < a'" by blast
  have l: "length threeAxes = 3" by (simp add: threeAxes_def)
  have nzs: "\<forall>d \<in> set threeAxes. magnitudeOf (fromSpherical d) \<noteq> 0"
    by (simp add: threeAxes_def magnitudeOf_fromSpherical)
  have i0: "int (length threeAxes) - 2 = int (cyclicPrev (length threeAxes) (cyclicPrev (length threeAxes) 0))"
    and j0: "int (length threeAxes) - 1 = int (cyclicPrev (length threeAxes) 0)"
    by (simp_all add: l cyclicPrev_def)
  have two: "2 \<le> length threeAxes" by (simp add: l)
  from computePositionsLoop_result[OF two _ _ i0 j0 nzs,
      of "replicate (3 * length threeAxes) (Num 0)" FAR "[(0, 0, 0)]"]
  obtain ps bvp where
    res: "computePositionsLoop threeAxes FAR (int (length threeAxes) - 2)
            (int (length threeAxes) - 1) 0 (replicate (3 * length threeAxes) (Num 0)) [(0, 0, 0)]
          = Inr (ps, bvp)"
    and pos: "\<And>m. m < 3 \<Longrightarrow> positionAt ps (int m) =
                 (if m \<in> cyclicPrev 3 ` {0 ..< 3}
                  then froundVector (extendedVertex threeAxes FAR m)
                  else positionAt (replicate 9 (Num 0)) (int m))"
    by (auto simp: l)
  have at: "positionAt ps (int m) = froundVector (extendedVertex threeAxes FAR m)" if "m < 3" for m
    using pos[OF that] cyclicPrev_onto[OF that] by simp
  define q :: "nat \<Rightarrow> cartesian3" where
    "q m = (if m = 0 then (a', 0, 0) else if m = 1 then (0, a', 0) else (0, 0, a'))" for m
  have fin: "finitePosition (positionAt ps (int m)) = Some (q m)" if "m < 3" for m
  proof -
    have "m = 0 \<or> m = Suc 0 \<or> m = 2" using that by auto
    then consider "m = 0" | "m = Suc 0" | "m = 2" by blast
    then show ?thesis
    proof cases
      case 1
      then show ?thesis
        using at[of 0] a'(1)
        by (simp add: extendedVertex_def thetaAt_threeAxes fromSpherical_threeAxes
              froundVector_def a_def q_def)
    next
      case 2
      then show ?thesis
        using at[of "Suc 0"] a'(1)
        by (simp add: extendedVertex_def thetaAt_threeAxes fromSpherical_threeAxes
              froundVector_def a_def q_def)
    next
      case 3
      then show ?thesis
        using at[of 2] a'(1)
        by (simp add: extendedVertex_def thetaAt_threeAxes fromSpherical_threeAxes
              froundVector_def a_def q_def)
    qed
  qed
  have nz: "magnitudeOf (cross (q m) (q (cyclicPrev 3 m))) \<noteq> 0" if "m < 3" for m
  proof -
    have "m = 0 \<or> m = Suc 0 \<or> m = 2" using that by auto
    then consider "m = 0" | "m = Suc 0" | "m = 2" by blast
    then show ?thesis
      using a'(2) by cases (simp_all add: q_def cyclicPrev_def magnitudeOf_def)
  qed
  from createVertices_succeeds[of 3 ps q 0 "int 3 - 1" "[]", OF fin nz]
  obtain vs where "createVertices ps 3 (int 3 - 1) 0 [] = Inr vs"
    by (auto simp: cyclicPrev_def)
  then show ?thesis using res by (simp add: meshable_def l)
qed

text \<open>
  A shown primitive with three directions is drawn once; the directions are then replaced
  by the empty list and the primitive is drawn again.
\<close>

theorem stale_mesh_is_drawn_witness:
  "\<exists>p1 frame1 p2 frame2.
      update (setDirections (Some threeAxes)
                (newCustomSensorVolume \<lparr> materialRef = 0, isTranslucent = False \<rparr>))
             \<lparr> mode = SCENE3D, renderPass = True, pickPass = False, commandList = [],
               contextOf = \<lparr> vertexArrays = Map.empty, nextVertexArray = 0, pickIds = {},
                            nextPickId = 0 \<rparr> \<rparr>
        = Inr (p1, frame1)
    \<and> update (setDirections (Some []) p1) (frame1\<lparr> commandList := [] \<rparr>) = Inr (p2, frame2)
    \<and> vertexArrays (contextOf frame2) 0 \<noteq> None
    \<and> vertexArray (p_frontFaceColorCommand p2) = Some 0
    \<and> commandList frame2 \<noteq> []"
proof -
  let ?p0 = "setDirections (Some threeAxes)
                (newCustomSensorVolume \<lparr> materialRef = 0, isTranslucent = False \<rparr>)"
  let ?f0 = "\<lparr> mode = SCENE3D, renderPass = True, pickPass = False, commandList = [],
               contextOf = \<lparr> vertexArrays = Map.empty, nextVertexArray = 0, pickIds = {},
                            nextPickId = 0 \<rparr> \<rparr>"
  have h0: "showFlag ?p0" "mode ?f0 = SCENE3D" "\<not> lessThanZero (radius ?p0)"
    "lateralSurfaceMaterial ?p0 = Some \<lparr> materialRef = 0, isTranslucent = False \<rparr>"
    "p_va ?p0 = None" "p_directionsDirty ?p0" "p_directions ?p0 = Some threeAxes"
    "3 \<le> length threeAxes"
    by (simp_all add: setDirections_def newCustomSensorVolume_def threeAxes_def)
  have m0: "meshable threeAxes (finiteRadius (radius ?p0))"
    using meshable_threeAxes by (simp add: setDirections_def newCustomSensorVolume_def finiteRadius_def)
  from first_mesh_created[OF h0 m0] obtain p1 frame1 mesh where
    one: "update ?p0 ?f0 = Inr (p1, frame1)"
      "vertexArrays (contextOf frame1) = (vertexArrays (contextOf ?f0))(nextVertexArray (contextOf ?f0) \<mapsto> mesh)"
      "vertexArray (p_frontFaceColorCommand p1) = Some (nextVertexArray (contextOf ?f0))"
      "p_va p1 = None" "showFlag p1" "radius p1 = radius ?p0"
      "lateralSurfaceMaterial p1 = Some \<lparr> materialRef = 0, isTranslucent = False \<rparr>"
      "mode frame1 = mode ?f0" "renderPass frame1 = renderPass ?f0"
    by (elim exE conjE)
  let ?p1 = "setDirections (Some []) p1"
  let ?f1 = "frame1\<lparr> commandList := [] \<rparr>"
  have h1: "showFlag ?p1" "mode ?f1 = SCENE3D" "renderPass ?f1" "\<not> lessThanZero (radius ?p1)"
    "lateralSurfaceMaterial ?p1 = Some \<lparr> materialRef = 0, isTranslucent = False \<rparr>"
    "p_va ?p1 = None" "vertexArray (p_frontFaceColorCommand ?p1) = Some 0"
    "vertexArrays (contextOf ?f1) 0 = Some mesh"
    "p_directionsDirty ?p1" "p_directions ?p1 = Some []" "length ([] :: spherical list) < 3"
    using one by (simp_all add: setDirections_def newCustomSensorVolume_def)
  from stale_mesh_is_drawn[OF h1] obtain p2 frame2 where
    "update ?p1 ?f1 = Inr (p2, frame2)" "vertexArrays (contextOf frame2) 0 = Some mesh"
    "vertexArray (p_frontFaceColorCommand p2) = Some 0"
    "length (commandList ?f1) < length (commandList frame2)"
    by (elim exE conjE)
  then show ?thesis
    using one(1) by (intro exI[of _ p1] exI[of _ frame1] exI[of _ p2] exI[of _ frame2]) auto
qed

text \<open>
  With three or more new directions that the mesher accepts, a second vertex array is
  created beside the first.
\<close>

lemma prior_mesh_survives_rebuild:
  assumes "showFlag p" "mode frame = SCENE3D"
    and "\<not> lessThanZero (radius p)" "lateralSurfaceMaterial p = Some m"
    and "p_va p = None"
    and "vertexArray (p_frontFaceColorCommand p) = Some va"
    and "vertexArrays (contextOf frame) va = Some mesh" "va < nextVertexArray (contextOf frame)"
    and "p_directionsDirty p" "p_directions p = Some ds" "3 \<le> length ds"
    and "meshable ds (finiteRadius (radius p))"
  shows "\<exists>p' frame'. update p frame = Inr (p', frame')
           \<and> vertexArrays (contextOf frame') va = Some mesh
           \<and> vertexArray (p_frontFaceColorCommand p') = Some (nextVertexArray (contextOf frame))"
proof -
  from first_mesh_created[OF assms(1,2,3,4,5,9,10,11,12)] obtain p' frame' mesh' where
    "update p frame = Inr (p', frame')"
    "vertexArrays (contextOf frame') =
       (vertexArrays (contextOf frame))(nextVertexArray (contextOf frame) \<mapsto> mesh')"
    "vertexArray (p_frontFaceColorCommand p') = Some (nextVertexArray (contextOf frame))"
    by (elim exE conjE)
  then show ?thesis
    using assms(7,8) by (intro exI[of _ p'] exI[of _ frame']) simp
qed



section \<open>Properties of the boundary sampler\<close>


text \<open>Rounding a positive integer to 53 significant bits, ties to even.\<close>

definition round53 :: "int \<Rightarrow> int" where
  "round53 a =
     (let d = bitlen a - 53
      in if d \<le> 0 then a
         else (let q = a div 2 ^ nat d;
                   r = a mod 2 ^ nat d;
                   h = 2 ^ (nat d - 1);
                   n = (if r < h then q else if h < r then q + 1 else if even q then q else q + 1)
               in n * 2 ^ nat d))"

lemma binaryExponent_scaled:
  assumes "0 < a"
  shows "binaryExponent (of_int a * 2 powi s) = bitlen a - 1 + s"
proof (rule binaryExponent_unique)
  have b: "2 ^ nat (bitlen a - 1) \<le> a" "a < 2 ^ nat (bitlen a)"
    using bitlen_bounds[OF assms] by simp_all
  have bl: "1 \<le> bitlen a" using assms by (simp add: bitlen_def floorlog_def)
  have abs: "\<bar>of_int a * 2 powi s\<bar> = of_int a * (2::real) powi s"
    using assms by (simp add: abs_mult)
  have "(2::real) powi (bitlen a - 1 + s) = 2 powi (bitlen a - 1) * 2 powi s"
    by (rule power_int_add) simp
  also have "(2::real) powi (bitlen a - 1) = of_int (2 ^ nat (bitlen a - 1))"
    using bl by (simp add: power_int_def)
  also have "of_int (2 ^ nat (bitlen a - 1)) * (2::real) powi s \<le> of_int a * 2 powi s"
    using b(1) by (intro mult_right_mono) (simp_all only: of_int_le_iff zero_le_power_int zero_le_numeral)
  finally show "(2::real) powi (bitlen a - 1 + s) \<le> \<bar>of_int a * 2 powi s\<bar>" unfolding abs .
  have "(2::real) powi (bitlen a - 1 + s + 1) = 2 powi (bitlen a) * 2 powi s"
    using power_int_add[of "2::real" "bitlen a" s] by (simp add: algebra_simps)
  moreover have "(2::real) powi (bitlen a) = of_int (2 ^ nat (bitlen a))"
    using bl by (simp add: power_int_def)
  moreover have "of_int a * (2::real) powi s < of_int (2 ^ nat (bitlen a)) * 2 powi s"
    using b(2) by (intro mult_strict_right_mono) (simp_all only: of_int_less_iff zero_less_power_int zero_less_numeral)
  ultimately show "\<bar>of_int a * 2 powi s\<bar> < (2::real) powi (bitlen a - 1 + s + 1)" unfolding abs by simp
qed


lemma roundTiesToEven_quotient:
  assumes "0 < n"
  shows "roundTiesToEven (of_int a / 2 ^ n) =
           (let q = a div 2 ^ n; r = a mod 2 ^ n; h = 2 ^ (n - 1)
            in if r < h then q else if h < r then q + 1 else if even q then q else q + 1)"
proof -
  define q r h where "q = a div 2 ^ n" and "r = a mod 2 ^ n" and "h = (2::int) ^ (n - 1)"
  have pw: "(2::int) ^ n = 2 * h"
  proof -
    have "n = Suc (n - 1)" using assms by simp
    then show ?thesis unfolding h_def by (metis power_Suc)
  qed
  have fl: "\<lfloor>(of_int a :: real) / 2 ^ n\<rfloor> = q"
  proof -
    have "\<lfloor>(of_int a :: real) / of_int (2 ^ n)\<rfloor> = a div 2 ^ n" by (rule floor_divide_of_int_eq)
    then show ?thesis by (simp add: q_def)
  qed
  have "a = q * 2 ^ n + r" using div_mult_mod_eq[of a "2 ^ n"] by (simp add: q_def r_def)
  then have "(of_int a :: real) = of_int q * 2 ^ n + of_int r"
    by (metis of_int_add of_int_mult of_int_numeral of_int_power)
  then have fr: "(of_int a :: real) / 2 ^ n - of_int q = of_int r / 2 ^ n"
    by (simp add: field_simps)
  have pr: "(2::real) ^ n = 2 * of_int h"
    using pw by (metis of_int_mult of_int_numeral of_int_power)
  have hpos: "0 < (of_int h :: real)" by (simp add: h_def)
  have lt: "(of_int r :: real) / 2 ^ n < 1 / 2 \<longleftrightarrow> r < h"
  proof -
    have "(of_int r :: real) / 2 ^ n < 1 / 2 \<longleftrightarrow> (of_int r :: real) < of_int h"
      using hpos by (simp add: pr field_simps)
    then show ?thesis by (simp only: of_int_less_iff)
  qed
  have gt: "1 / 2 < (of_int r :: real) / 2 ^ n \<longleftrightarrow> h < r"
  proof -
    have "1 / 2 < (of_int r :: real) / 2 ^ n \<longleftrightarrow> (of_int h :: real) < of_int r"
      using hpos by (simp add: pr field_simps)
    then show ?thesis by (simp only: of_int_less_iff)
  qed
  show ?thesis
    unfolding roundTiesToEven_def Let_def fl fr lt gt
    by (simp only: q_def[symmetric] r_def[symmetric] h_def[symmetric])
qed

lemma round64_scaled:
  assumes "0 < a" "- 1022 \<le> bitlen a - 1 + s"
  shows "round64 (of_int a * 2 powi s) = of_int (round53 a) * 2 powi s"
proof -
  define d where "d = bitlen a - 53"
  have nz: "of_int a * (2::real) powi s \<noteq> 0" using assms(1) by simp
  have e: "max (binaryExponent (of_int a * 2 powi s)) (- 1022) = bitlen a - 1 + s"
    using assms by (simp add: binaryExponent_scaled)
  have "bitlen a - 1 + s - 52 = d + s" by (simp add: d_def)
  then have ulp: "(2::real) powi (max (binaryExponent (of_int a * 2 powi s)) (- 1022) - 52)
      = 2 powi d * 2 powi s"
    using power_int_add[of "2::real" d s] by (simp only: e) simp
  have quot: "of_int a * (2::real) powi s / (2 powi d * 2 powi s) = of_int a / 2 powi d"
    by simp
  have "round64 (of_int a * 2 powi s)
      = of_int (roundTiesToEven (of_int a * 2 powi s / (2 powi d * 2 powi s))) * (2 powi d * 2 powi s)"
    unfolding round64_def Let_def ulp using nz by (simp only: if_False)
  then have r64: "round64 (of_int a * 2 powi s)
      = of_int (roundTiesToEven (of_int a / 2 powi d)) * (2 powi d * 2 powi s)"
    by (simp only: quot)
  show ?thesis
  proof (cases "d \<le> 0")
    case True
    have p: "(2::real) powi d = 1 / 2 ^ nat (- d)" using True by (simp add: power_int_def field_simps)
    have "of_int a / (2::real) powi d = of_int (a * 2 ^ nat (- d))" by (simp add: p)
    then have "roundTiesToEven (of_int a / 2 powi d) = a * 2 ^ nat (- d)"
      by (simp only: roundTiesToEven_of_int)
    moreover have "round53 a = a" using True by (simp add: round53_def d_def)
    ultimately show ?thesis by (simp add: r64 p)
  next
    case False
    then have dn: "0 < nat d" by simp
    have p: "(2::real) powi d = 2 ^ nat d" using False by (simp add: power_int_def)
    have "roundTiesToEven (of_int a / 2 powi d) =
           (let q = a div 2 ^ nat d; r = a mod 2 ^ nat d; h = 2 ^ (nat d - 1)
            in if r < h then q else if h < r then q + 1 else if even q then q else q + 1)"
      unfolding p by (rule roundTiesToEven_quotient[OF dn])
    moreover have "round53 a =
           (let q = a div 2 ^ nat d; r = a mod 2 ^ nat d; h = 2 ^ (nat d - 1)
            in if r < h then q else if h < r then q + 1 else if even q then q else q + 1) * 2 ^ nat d"
      using False by (simp add: round53_def d_def Let_def)
    ultimately show ?thesis by (simp add: r64 p)
  qed
qed


lemma RADIANS_PER_DEGREE_value: "RADIANS_PER_DEGREE = 5030569068109113 / 2 ^ 58"
  unfolding RADIANS_PER_DEGREE_def MathPI_def by code_simp

lemma angleStep_value: "toRadiansDouble 2 = 5030569068109113 / 2 ^ 57"
  unfolding toRadiansDouble_def RADIANS_PER_DEGREE_value by code_simp

lemma TWO_PI_value: "TWO_PI = 884279719003555 / 2 ^ 47"
  unfolding TWO_PI_def MathPI_def by code_simp



text \<open>The angle after \<open>k\<close> steps, and a sample.\<close>

definition upAngle :: "real \<Rightarrow> real \<Rightarrow> nat \<Rightarrow> real" where
  "upAngle angleStep start k = ((\<lambda>angle. dadd angle angleStep) ^^ k) start"

definition downAngle :: "real \<Rightarrow> real \<Rightarrow> nat \<Rightarrow> real" where
  "downAngle angleStep start k = ((\<lambda>angle. dsub angle angleStep) ^^ k) start"

definition sample :: "real \<Rightarrow> real \<Rightarrow> spherical" where
  "sample clk cn = \<lparr> clock = clk, cone = cn, magnitude = 1 \<rparr>"

lemma upAngle_simps [simp]:
  "upAngle s a 0 = a"
  "upAngle s (dadd a s) k = upAngle s a (Suc k)"
  using funpow_swap1[of "\<lambda>angle. dadd angle s" k a] by (simp_all add: upAngle_def)

lemma downAngle_simps [simp]:
  "downAngle s a 0 = a"
  "downAngle s (dsub a s) k = downAngle s a (Suc k)"
  using funpow_swap1[of "\<lambda>angle. dsub angle s" k a] by (simp_all add: downAngle_def)

lemma assignSpherical_eq:
  assumes "i \<le> length ds"
  shows "assignSpherical i ds a c = take i ds @ [sample a c] @ drop (Suc i) ds"
proof (cases "i < length ds")
  case True
  then show ?thesis
    by (simp add: assignSpherical_def sample_def upd_conv_take_nth_drop)
next
  case False
  then have "i = length ds" using assms by simp
  then show ?thesis by (simp add: assignSpherical_def sample_def)
qed

lemma samples_shift:
  "sample a c # map (\<lambda>k. sample (f (Suc k)) c) [0..<n] = map (\<lambda>k. sample (f k) c) [0..<Suc n]"
  if "f 0 = a"
proof -
  have "[0..<Suc n] = 0 # map Suc [0..<n]" by (simp add: upt_conv_Cons map_Suc_upt del: upt_Suc)
  then show ?thesis using that by (simp add: comp_def del: upt_Suc)
qed

lemma sweepUp_result:
  assumes "\<forall>k<n. upAngle s a k < limit" "\<not> upAngle s a n < limit" "i \<le> length ds"
  shows "sweepUp limit s c i ds a =
           Some (i + n, take i ds @ map (\<lambda>k. sample (upAngle s a k) c) [0..<n] @ drop (i + n) ds)"
  using assms
proof (induction n arbitrary: i ds a)
  case 0
  then show ?case by (subst sweepUp.simps) simp
next
  case (Suc n)
  have lt: "a < limit" using Suc.prems(1) by force
  let ?ds = "assignSpherical i ds a c"
  have ds': "?ds = take i ds @ [sample a c] @ drop (Suc i) ds"
    using Suc.prems(3) by (rule assignSpherical_eq)
  have len: "Suc i \<le> length ?ds" using Suc.prems(3) by (simp add: ds')
  have h1: "\<forall>k<n. upAngle s (dadd a s) k < limit" using Suc.prems(1) by auto
  have h2: "\<not> upAngle s (dadd a s) n < limit" using Suc.prems(2) by simp
  have tk: "take (Suc i) ?ds = take i ds @ [sample a c]"
    using Suc.prems(3) by (simp add: ds')
  have dr: "drop (Suc i + n) ?ds = drop (i + Suc n) ds"
    using Suc.prems(3) by (simp add: ds' min_def ac_simps)
  have "sweepUp limit s c i ds a = sweepUp limit s c (Suc i) ?ds (dadd a s)"
    using lt by (subst sweepUp.simps) simp
  also have "\<dots> = Some (Suc i + n, take (Suc i) ?ds
                 @ map (\<lambda>k. sample (upAngle s (dadd a s) k) c) [0..<n] @ drop (Suc i + n) ?ds)"
    by (rule Suc.IH[OF h1 h2 len])
  also have "take (Suc i) ?ds @ map (\<lambda>k. sample (upAngle s (dadd a s) k) c) [0..<n] @ drop (Suc i + n) ?ds
      = take i ds @ map (\<lambda>k. sample (upAngle s a k) c) [0..<Suc n] @ drop (i + Suc n) ds"
    unfolding tk dr using samples_shift[of "upAngle s a" a c n] by (simp del: upt_Suc)
  finally show ?case by simp
qed

lemma sweepUp_returns:
  assumes "sweepUp limit s c i ds a = Some y"
  shows "\<exists>n. (\<forall>k<n. upAngle s a k < limit) \<and> \<not> upAngle s a n < limit"
proof (rule sweepUp.raw_induct
    [where P = "\<lambda>limit s c i ds a y. \<exists>n. (\<forall>k<n. upAngle s a k < limit) \<and> \<not> upAngle s a n < limit",
     OF _ assms])
  fix f :: "real \<Rightarrow> real \<Rightarrow> real \<Rightarrow> nat \<Rightarrow> spherical list \<Rightarrow> real \<Rightarrow> (nat \<times> spherical list) option"
  fix limit s c i ds a y
  assume IH: "\<And>limit s c i ds a y. f limit s c i ds a = Some y \<Longrightarrow>
                \<exists>n. (\<forall>k<n. upAngle s a k < limit) \<and> \<not> upAngle s a n < limit"
    and eq: "(if a < limit then f limit s c (Suc i) (assignSpherical i ds a c) (dadd a s)
             else Some (i, ds)) = Some y"
  show "\<exists>n. (\<forall>k<n. upAngle s a k < limit) \<and> \<not> upAngle s a n < limit"
  proof (cases "a < limit")
    case False
    then have "(\<forall>k<0. upAngle s a k < limit) \<and> \<not> upAngle s a 0 < limit" by simp
    then show ?thesis by (rule exI)
  next
    case True
    then have "f limit s c (Suc i) (assignSpherical i ds a c) (dadd a s) = Some y"
      using eq by simp
    from IH[OF this] obtain n where
      n: "\<forall>k<n. upAngle s (dadd a s) k < limit" "\<not> upAngle s (dadd a s) n < limit" by blast
    have "\<forall>k<Suc n. upAngle s a k < limit"
    proof (intro allI impI)
      fix k assume "k < Suc n"
      then show "upAngle s a k < limit"
        using n(1) True by (cases k) auto
    qed
    moreover have "\<not> upAngle s a (Suc n) < limit" using n(2) by simp
    ultimately show ?thesis by blast
  qed
qed


lemma sweepDown_result:
  assumes "\<forall>k<n. limit < downAngle s a k" "\<not> limit < downAngle s a n" "i \<le> length ds"
  shows "sweepDown limit s c i ds a =
           Some (i + n, take i ds @ map (\<lambda>k. sample (downAngle s a k) c) [0..<n] @ drop (i + n) ds)"
  using assms
proof (induction n arbitrary: i ds a)
  case 0
  then show ?case by (subst sweepDown.simps) simp
next
  case (Suc n)
  have lt: "limit < a" using Suc.prems(1) by force
  let ?ds = "assignSpherical i ds a c"
  have ds': "?ds = take i ds @ [sample a c] @ drop (Suc i) ds"
    using Suc.prems(3) by (rule assignSpherical_eq)
  have len: "Suc i \<le> length ?ds" using Suc.prems(3) by (simp add: ds')
  have h1: "\<forall>k<n. limit < downAngle s (dsub a s) k" using Suc.prems(1) by auto
  have h2: "\<not> limit < downAngle s (dsub a s) n" using Suc.prems(2) by simp
  have tk: "take (Suc i) ?ds = take i ds @ [sample a c]"
    using Suc.prems(3) by (simp add: ds')
  have dr: "drop (Suc i + n) ?ds = drop (i + Suc n) ds"
    using Suc.prems(3) by (simp add: ds' min_def ac_simps)
  have "sweepDown limit s c i ds a = sweepDown limit s c (Suc i) ?ds (dsub a s)"
    using lt by (subst sweepDown.simps) simp
  also have "\<dots> = Some (Suc i + n, take (Suc i) ?ds
                 @ map (\<lambda>k. sample (downAngle s (dsub a s) k) c) [0..<n] @ drop (Suc i + n) ?ds)"
    by (rule Suc.IH[OF h1 h2 len])
  also have "take (Suc i) ?ds @ map (\<lambda>k. sample (downAngle s (dsub a s) k) c) [0..<n] @ drop (Suc i + n) ?ds
      = take i ds @ map (\<lambda>k. sample (downAngle s a k) c) [0..<Suc n] @ drop (i + Suc n) ds"
    unfolding tk dr using samples_shift[of "downAngle s a" a c n] by (simp del: upt_Suc)
  finally show ?case by simp
qed

lemma sweepDown_returns:
  assumes "sweepDown limit s c i ds a = Some y"
  shows "\<exists>n. (\<forall>k<n. limit < downAngle s a k) \<and> \<not> limit < downAngle s a n"
proof (rule sweepDown.raw_induct
    [where P = "\<lambda>limit s c i ds a y. \<exists>n. (\<forall>k<n. limit < downAngle s a k) \<and> \<not> limit < downAngle s a n",
     OF _ assms])
  fix f :: "real \<Rightarrow> real \<Rightarrow> real \<Rightarrow> nat \<Rightarrow> spherical list \<Rightarrow> real \<Rightarrow> (nat \<times> spherical list) option"
  fix limit s c i ds a y
  assume IH: "\<And>limit s c i ds a y. f limit s c i ds a = Some y \<Longrightarrow>
                \<exists>n. (\<forall>k<n. limit < downAngle s a k) \<and> \<not> limit < downAngle s a n"
    and eq: "(if limit < a then f limit s c (Suc i) (assignSpherical i ds a c) (dsub a s)
             else Some (i, ds)) = Some y"
  show "\<exists>n. (\<forall>k<n. limit < downAngle s a k) \<and> \<not> limit < downAngle s a n"
  proof (cases "limit < a")
    case False
    then have "(\<forall>k<0. limit < downAngle s a k) \<and> \<not> limit < downAngle s a 0" by simp
    then show ?thesis by (rule exI)
  next
    case True
    then have "f limit s c (Suc i) (assignSpherical i ds a c) (dsub a s) = Some y"
      using eq by simp
    from IH[OF this] obtain n where
      n: "\<forall>k<n. limit < downAngle s (dsub a s) k" "\<not> limit < downAngle s (dsub a s) n" by blast
    have "\<forall>k<Suc n. limit < downAngle s a k"
    proof (intro allI impI)
      fix k assume "k < Suc n"
      then show "limit < downAngle s a k"
        using n(1) True by (cases k) auto
    qed
    moreover have "\<not> limit < downAngle s a (Suc n)" using n(2) by simp
    ultimately show ?thesis by blast
  qed
qed

lemma round64_error:
  assumes "\<bar>y\<bar> \<le> 2 ^ 41"
  shows "\<bar>round64 y - y\<bar> \<le> 1 / 2 ^ 12"
proof (cases "y = 0")
  case True
  then show ?thesis by (simp add: round64_def)
next
  case False
  define e where "e = max (binaryExponent y) (- 1022)"
  define u where "u = (2::real) powi (e - 52)"
  have upos: "0 < u" by (simp add: u_def)
  have be: "binaryExponent y \<le> 41"
  proof (rule ccontr)
    assume "\<not> binaryExponent y \<le> 41"
    then have "42 \<le> binaryExponent y" by simp
    then have "(2::real) powi 42 \<le> 2 powi (binaryExponent y)"
      by (intro power_int_increasing) simp_all
    also have "\<dots> \<le> \<bar>y\<bar>" by (rule binaryExponent_bounds(1)[OF False])
    finally show False using assms by simp
  qed
  then have "e - 52 \<le> - 11" by (simp add: e_def)
  then have "u \<le> 2 powi (- 11)" unfolding u_def by (intro power_int_increasing) simp_all
  then have u11: "u \<le> 1 / 2 ^ 11" by (simp add: power_int_minus field_simps)
  have r: "round64 y = of_int (roundTiesToEven (y / u)) * u"
    using False by (simp add: round64_def Let_def e_def u_def)
  have "round64 y - y = (of_int (roundTiesToEven (y / u)) - y / u) * u"
    using upos by (simp add: r field_simps)
  then have "\<bar>round64 y - y\<bar> = \<bar>of_int (roundTiesToEven (y / u)) - y / u\<bar> * u"
    using upos by (simp add: abs_mult)
  also have "\<dots> \<le> (1 / 2) * u"
    using roundTiesToEven_error[of "y / u"] upos by (intro mult_right_mono) simp_all
  also have "\<dots> \<le> (1 / 2) * (1 / 2 ^ 11)" using u11 by simp
  finally show ?thesis by simp
qed

lemma angleStep_bounds: "1 / 32 < toRadiansDouble 2" "toRadiansDouble 2 < 1 / 16"
  by (simp_all add: angleStep_value)

lemma progress_up:
  assumes "- (2 ^ 40) \<le> a" "a \<le> 2 ^ 40"
  shows "a + 1 / 64 \<le> dadd a (toRadiansDouble 2)"
proof -
  have "\<bar>a + toRadiansDouble 2\<bar> \<le> 2 ^ 41" using assms angleStep_bounds by (simp add: abs_le_iff)
  from round64_error[OF this] have "a + toRadiansDouble 2 - 1 / 2 ^ 12 \<le> dadd a (toRadiansDouble 2)"
    unfolding dadd_def by linarith
  then show ?thesis using angleStep_bounds(1) by simp
qed

lemma progress_down:
  assumes "- (2 ^ 40) \<le> a" "a \<le> 2 ^ 40"
  shows "dsub a (toRadiansDouble 2) \<le> a - 1 / 64"
proof -
  have "\<bar>a - toRadiansDouble 2\<bar> \<le> 2 ^ 41" using assms angleStep_bounds by (simp add: abs_le_iff)
  from round64_error[OF this] have "dsub a (toRadiansDouble 2) \<le> a - toRadiansDouble 2 + 1 / 2 ^ 12"
    unfolding dsub_def by linarith
  then show ?thesis using angleStep_bounds(1) by simp
qed

lemma sweepUp_terminates:
  assumes "- (2 ^ 40) \<le> a" "limit \<le> 2 ^ 40"
  shows "\<exists>n. (\<forall>k<n. upAngle (toRadiansDouble 2) a k < limit) \<and> \<not> upAngle (toRadiansDouble 2) a n < limit"
  using assms(1)
proof (induction "nat \<lceil>(limit - a) * 64\<rceil>" arbitrary: a rule: less_induct)
  case less
  let ?s = "toRadiansDouble 2"
  show ?case
  proof (cases "a < limit")
    case False
    then have "(\<forall>k<0. upAngle ?s a k < limit) \<and> \<not> upAngle ?s a 0 < limit" by simp
    then show ?thesis by (rule exI)
  next
    case True
    then have up: "a \<le> 2 ^ 40" using assms(2) by simp
    have pr: "a + 1 / 64 \<le> dadd a ?s" by (rule progress_up[OF less.prems up])
    have lo: "- (2 ^ 40) \<le> dadd a ?s" using pr less.prems by simp
    have "(limit - dadd a ?s) * 64 \<le> (limit - a) * 64 - 1" using pr by simp
    then have "\<lceil>(limit - dadd a ?s) * 64\<rceil> \<le> \<lceil>(limit - a) * 64\<rceil> - 1"
      by (metis ceiling_diff_one ceiling_mono)
    moreover have "0 < \<lceil>(limit - a) * 64\<rceil>" using True by simp
    ultimately have "nat \<lceil>(limit - dadd a ?s) * 64\<rceil> < nat \<lceil>(limit - a) * 64\<rceil>" by linarith
    from less.hyps[OF this lo] obtain n where
      n: "\<forall>k<n. upAngle ?s (dadd a ?s) k < limit" "\<not> upAngle ?s (dadd a ?s) n < limit" by blast
    have "\<forall>k<Suc n. upAngle ?s a k < limit"
    proof (intro allI impI)
      fix k assume "k < Suc n"
      then show "upAngle ?s a k < limit"
        using n(1) True by (cases k) auto
    qed
    moreover have "\<not> upAngle ?s a (Suc n) < limit" using n(2) by simp
    ultimately show ?thesis by blast
  qed
qed

lemma sweepDown_terminates:
  assumes "a \<le> 2 ^ 40" "- (2 ^ 40) \<le> limit"
  shows "\<exists>n. (\<forall>k<n. limit < downAngle (toRadiansDouble 2) a k) \<and> \<not> limit < downAngle (toRadiansDouble 2) a n"
  using assms(1)
proof (induction "nat \<lceil>(a - limit) * 64\<rceil>" arbitrary: a rule: less_induct)
  case less
  let ?s = "toRadiansDouble 2"
  show ?case
  proof (cases "limit < a")
    case False
    then have "(\<forall>k<0. limit < downAngle ?s a k) \<and> \<not> limit < downAngle ?s a 0" by simp
    then show ?thesis by (rule exI)
  next
    case True
    then have lo: "- (2 ^ 40) \<le> a" using assms(2) by simp
    have pr: "dsub a ?s \<le> a - 1 / 64" by (rule progress_down[OF lo less.prems])
    have up: "dsub a ?s \<le> 2 ^ 40" using pr less.prems by simp
    have "(dsub a ?s - limit) * 64 \<le> (a - limit) * 64 - 1" using pr by simp
    then have "\<lceil>(dsub a ?s - limit) * 64\<rceil> \<le> \<lceil>(a - limit) * 64\<rceil> - 1"
      by (metis ceiling_diff_one ceiling_mono)
    moreover have "0 < \<lceil>(a - limit) * 64\<rceil>" using True by simp
    ultimately have "nat \<lceil>(dsub a ?s - limit) * 64\<rceil> < nat \<lceil>(a - limit) * 64\<rceil>" by linarith
    from less.hyps[OF this up] obtain n where
      n: "\<forall>k<n. limit < downAngle ?s (dsub a ?s) k" "\<not> limit < downAngle ?s (dsub a ?s) n" by blast
    have "\<forall>k<Suc n. limit < downAngle ?s a k"
    proof (intro allI impI)
      fix k assume "k < Suc n"
      then show "limit < downAngle ?s a k"
        using n(1) True by (cases k) auto
    qed
    moreover have "\<not> limit < downAngle ?s a (Suc n)" using n(2) by simp
    ultimately show ?thesis by blast
  qed
qed


subsection \<open>The full circle\<close>

text \<open>
  The angle of the full-circle loop is a multiple of \<open>2^(-57)\<close>; one iteration in units of
  \<open>2^(-57)\<close>, and the number of iterations below a limit.
\<close>

definition stepInt :: "int \<Rightarrow> int" where
  "stepInt a = round53 (a + 5030569068109113)"

fun countSteps :: "nat \<Rightarrow> int \<Rightarrow> int \<Rightarrow> nat option" where
  "countSteps 0 t a = None"
| "countSteps (Suc fuel) t a =
     (if a < t then map_option Suc (countSteps fuel t (stepInt a)) else Some 0)"

lemma round53_nonneg: "0 \<le> a \<Longrightarrow> 0 \<le> round53 a"
  by (auto simp: round53_def Let_def pos_imp_zdiv_nonneg_iff intro!: mult_nonneg_nonneg add_nonneg_nonneg)

lemma upAngle_Suc: "upAngle s a (Suc k) = dadd (upAngle s a k) s"
  by (simp add: upAngle_def)

lemma upAngle_int:
  "upAngle (toRadiansDouble 2) 0 k = of_int ((stepInt ^^ k) 0) * 2 powi (- 57) \<and> 0 \<le> (stepInt ^^ k) 0"
proof (induction k)
  case 0
  then show ?case by (simp add: upAngle_def)
next
  case (Suc k)
  define a where "a = (stepInt ^^ k) 0"
  have a: "0 \<le> a" and u: "upAngle (toRadiansDouble 2) 0 k = of_int a * 2 powi (- 57)"
    using Suc by (simp_all add: a_def)
  have pos: "0 < a + 5030569068109113" using a by simp
  then have "1 \<le> bitlen (a + 5030569068109113)" by (simp add: bitlen_def floorlog_def)
  then have rng: "- 1022 \<le> bitlen (a + 5030569068109113) - 1 + (- 57)" by simp
  have s: "toRadiansDouble 2 = of_int 5030569068109113 * 2 powi (- 57)"
    by (simp add: angleStep_value power_int_minus)
  have "upAngle (toRadiansDouble 2) 0 (Suc k) = round64 (of_int a * 2 powi (- 57) + of_int 5030569068109113 * 2 powi (- 57))"
    unfolding upAngle_Suc u dadd_def by (simp only: s)
  also have "of_int a * 2 powi (- 57) + of_int 5030569068109113 * 2 powi (- 57)
      = (of_int (a + 5030569068109113) :: real) * 2 powi (- 57)"
    by (simp add: algebra_simps)
  also have "round64 \<dots> = of_int (round53 (a + 5030569068109113)) * 2 powi (- 57)"
    by (rule round64_scaled[OF pos rng])
  finally have "upAngle (toRadiansDouble 2) 0 (Suc k) = of_int ((stepInt ^^ Suc k) 0) * 2 powi (- 57)"
    by (simp add: stepInt_def a_def)
  moreover have "0 \<le> (stepInt ^^ Suc k) 0"
    using a by (simp add: stepInt_def a_def[symmetric] round53_nonneg)
  ultimately show ?case by simp
qed

lemma countSteps_sound:
  "countSteps fuel t a = Some n \<Longrightarrow> (\<forall>k<n. (stepInt ^^ k) a < t) \<and> \<not> (stepInt ^^ n) a < t"
proof (induction fuel arbitrary: a n)
  case 0
  then show ?case by simp
next
  case (Suc fuel)
  show ?case
  proof (cases "a < t")
    case False
    then show ?thesis using Suc.prems by simp
  next
    case True
    then obtain m where m: "countSteps fuel t (stepInt a) = Some m" "n = Suc m"
      using Suc.prems by auto
    from Suc.IH[OF m(1)] have
      ih: "\<forall>k<m. (stepInt ^^ k) (stepInt a) < t" "\<not> (stepInt ^^ m) (stepInt a) < t" by simp_all
    have "(stepInt ^^ k) a < t" if "k < Suc m" for k
      using that ih(1) True by (cases k) (simp_all add: funpow_swap1)
    moreover have "\<not> (stepInt ^^ Suc m) a < t" using ih(2) by (simp add: funpow_swap1)
    ultimately show ?thesis using m(2) by simp
  qed
qed

lemma full_circle_count: "countSteps 200 (884279719003555 * 2 ^ 10) 0 = Some 181"
  by code_simp

lemma full_circle_angles:
  "\<forall>k<181. upAngle (toRadiansDouble 2) 0 k < TWO_PI" "\<not> upAngle (toRadiansDouble 2) 0 181 < TWO_PI"
proof -
  note c = countSteps_sound[OF full_circle_count]
  have tp: "TWO_PI = of_int (884279719003555 * 2 ^ 10) * 2 powi (- 57)"
    by (simp add: TWO_PI_value power_int_minus)
  have cmp: "upAngle (toRadiansDouble 2) 0 k < TWO_PI \<longleftrightarrow> (stepInt ^^ k) 0 < 884279719003555 * 2 ^ 10" for k
  proof -
    have "upAngle (toRadiansDouble 2) 0 k = of_int ((stepInt ^^ k) 0) * 2 powi (- 57)"
      using upAngle_int[of k] by simp
    then have "upAngle (toRadiansDouble 2) 0 k < TWO_PI \<longleftrightarrow>
        (of_int ((stepInt ^^ k) 0) :: real) * 2 powi (- 57) < of_int (884279719003555 * 2 ^ 10) * 2 powi (- 57)"
      by (simp only: tp)
    also have "\<dots> \<longleftrightarrow> (of_int ((stepInt ^^ k) 0) :: real) < of_int (884279719003555 * 2 ^ 10)"
      by (rule mult_less_cancel_right_pos) simp
    also have "\<dots> \<longleftrightarrow> (stepInt ^^ k) 0 < 884279719003555 * 2 ^ 10"
      by (rule of_int_less_iff)
    finally show ?thesis .
  qed
  show "\<forall>k<181. upAngle (toRadiansDouble 2) 0 k < TWO_PI" using c by (simp add: cmp)
  show "\<not> upAngle (toRadiansDouble 2) 0 181 < TWO_PI" using c by (simp add: cmp)
qed


text \<open>The samples of the full circle: 181 steps from 0 at the given cone angle.\<close>

definition fullCircleSamples :: "real \<Rightarrow> spherical list" where
  "fullCircleSamples coneAngle =
     map (\<lambda>k. sample (upAngle (toRadiansDouble 2) 0 k) coneAngle) [0..<181]"

lemma full_circle_quotient: "\<lceil>TWO_PI / toRadiansDouble 2\<rceil> = 180"
proof -
  have q: "TWO_PI / toRadiansDouble 2 = 905502432259640320 / 5030569068109113"
    unfolding TWO_PI_value angleStep_value by simp
  have "(179::real) < 905502432259640320 / 5030569068109113"
    "(905502432259640320::real) / 5030569068109113 \<le> 180" by simp_all
  then show ?thesis unfolding q by (simp add: ceiling_eq_iff)
qed

lemma computeDirections_full_circle:
  assumes "p_directions p = Some ds"
  shows "computeDirections p 0 TWO_PI inner outer
           = Some (Inr (setDirections (Some (fullCircleSamples outer)) p))"
proof -
  have "sweepUp TWO_PI (toRadiansDouble 2) outer 0 ds 0
      = Some (0 + 181, take 0 ds @ fullCircleSamples outer @ drop (0 + 181) ds)"
    unfolding fullCircleSamples_def
    by (rule sweepUp_result[OF full_circle_angles]) simp
  moreover have "take 181 (fullCircleSamples outer @ drop 181 ds) = fullCircleSamples outer"
    by (simp add: fullCircleSamples_def)
  ultimately show ?thesis
    by (simp add: computeDirections_def assms Let_def)
qed

text \<open>
  C5, amended.  With the clock angles 0 and \<open>2\<pi>\<close> the sampler returns 181 samples, one more
  than \<open>\<lceil>2\<pi> / step\<rceil> = 180\<close>: sample \<open>k\<close> has the clock angle reached after \<open>k\<close> double
  additions of the step, the cone angle \<^verbatim>\<open>outerHalfAngle\<close> and magnitude 1.  The result does
  not mention \<^verbatim>\<open>innerHalfAngle\<close>, so it is the same for every inner half-angle, and it does
  not depend on what the array held before.
\<close>

theorem full_circle_has_181_samples:
  assumes "p_directions p = Some ds"
  shows "computeDirections p 0 TWO_PI innerHalfAngle outerHalfAngle
           = Some (Inr (setDirections (Some (fullCircleSamples outerHalfAngle)) p))
       \<and> length (fullCircleSamples outerHalfAngle) = 181
       \<and> (\<forall>d \<in> set (fullCircleSamples outerHalfAngle). cone d = outerHalfAngle \<and> magnitude d = 1)
       \<and> (\<forall>k<181. clock (fullCircleSamples outerHalfAngle ! k) = upAngle (toRadiansDouble 2) 0 k)
       \<and> \<lceil>TWO_PI / toRadiansDouble 2\<rceil> = 180"
  using computeDirections_full_circle[OF assms] full_circle_quotient
  by (auto simp: fullCircleSamples_def sample_def)


text \<open>
  C5, as the claim states it, fails on the sample count: the angle accumulated by 180
  additions of the step, \<open>27633741218861 / 2^42\<close>, is still below the double \<^verbatim>\<open>TWO_PI\<close>, so
  the loop runs a 181st time, while \<open>\<lceil>TWO_PI / step\<rceil>\<close> is 180.
\<close>

theorem full_circle_count_differs:
  "computeDirections (newCustomSensorVolume \<lparr> materialRef = 0, isTranslucent = False \<rparr>)
       0 TWO_PI 0 1
     = Some (Inr (setDirections (Some (fullCircleSamples 1))
                    (newCustomSensorVolume \<lparr> materialRef = 0, isTranslucent = False \<rparr>)))
   \<and> length (fullCircleSamples 1) = 181
   \<and> \<lceil>TWO_PI / toRadiansDouble 2\<rceil> = 180"
  using computeDirections_full_circle
    [where p = "newCustomSensorVolume \<lparr> materialRef = 0, isTranslucent = False \<rparr>"
       and ds = "[]" and inner = 0 and outer = 1]
    full_circle_quotient
  by (simp add: newCustomSensorVolume_def setDirections_def fullCircleSamples_def)

text \<open>A fresh primitive, inner half-angle 1/2 and outer half-angle 1.\<close>

theorem full_circle_has_181_samples_witness:
  "computeDirections (newCustomSensorVolume \<lparr> materialRef = 0, isTranslucent = False \<rparr>)
       0 TWO_PI (1 / 2) 1
     = Some (Inr (setDirections (Some (fullCircleSamples 1))
                    (newCustomSensorVolume \<lparr> materialRef = 0, isTranslucent = False \<rparr>)))
   \<and> length (fullCircleSamples 1) = 181
   \<and> cone (fullCircleSamples 1 ! 180) = 1
   \<and> clock (fullCircleSamples 1 ! 0) = 0"
proof -
  have "180 < (181::nat)" by simp
  moreover have "fullCircleSamples 1 ! 180 \<in> set (fullCircleSamples 1)"
    by (rule nth_mem) (simp add: fullCircleSamples_def)
  ultimately show ?thesis
  using full_circle_has_181_samples
    [where p = "newCustomSensorVolume \<lparr> materialRef = 0, isTranslucent = False \<rparr>"
       and ds = "[]" and innerHalfAngle = "1 / 2" and outerHalfAngle = 1]
  by (simp add: newCustomSensorVolume_def setDirections_def upAngle_def)
qed



subsection \<open>Clock-angle limits\<close>

text \<open>
  The loops stop after \<open>n\<close> iterations: the first \<open>n\<close> angles pass the loop test and the
  next one fails it.
\<close>

definition upStops :: "real \<Rightarrow> real \<Rightarrow> nat \<Rightarrow> bool" where
  "upStops start limit n \<longleftrightarrow>
     (\<forall>k<n. upAngle (toRadiansDouble 2) start k < limit)
     \<and> \<not> upAngle (toRadiansDouble 2) start n < limit"

definition downStops :: "real \<Rightarrow> real \<Rightarrow> nat \<Rightarrow> bool" where
  "downStops start limit n \<longleftrightarrow>
     (\<forall>k<n. limit < downAngle (toRadiansDouble 2) start k)
     \<and> \<not> limit < downAngle (toRadiansDouble 2) start n"

text \<open>
  The wedge: \<open>n\<close> samples stepping up from the minimum clock angle and one at the maximum
  clock angle, at the outer half-angle; then either \<open>m\<close> samples stepping down from the
  maximum clock angle and one at the minimum clock angle, at the inner half-angle, or one
  sample at the maximum clock angle with cone angle 0.
\<close>

definition wedgeSamples :: "real \<Rightarrow> real \<Rightarrow> real \<Rightarrow> real \<Rightarrow> nat \<Rightarrow> nat \<Rightarrow> spherical list" where
  "wedgeSamples minimumClockAngle maximumClockAngle innerHalfAngle outerHalfAngle n m =
     map (\<lambda>k. sample (upAngle (toRadiansDouble 2) minimumClockAngle k) outerHalfAngle) [0..<n]
     @ [sample maximumClockAngle outerHalfAngle]
     @ (if innerHalfAngle \<noteq> 0
        then map (\<lambda>k. sample (downAngle (toRadiansDouble 2) maximumClockAngle k) innerHalfAngle) [0..<m]
             @ [sample minimumClockAngle innerHalfAngle]
        else [sample maximumClockAngle 0])"

lemma assignSpherical_after:
  "assignSpherical (length xs) (xs @ rest) a c = (xs @ [sample a c]) @ drop (Suc 0) rest"
  using assignSpherical_eq[of "length xs" "xs @ rest" a c] by simp

lemma sweepUp_after:
  assumes "\<forall>k<n. upAngle s a k < limit" "\<not> upAngle s a n < limit"
  shows "sweepUp limit s c (length xs) (xs @ rest) a
           = Some (length (xs @ map (\<lambda>k. sample (upAngle s a k) c) [0..<n]),
                   (xs @ map (\<lambda>k. sample (upAngle s a k) c) [0..<n]) @ drop n rest)"
  using sweepUp_result[OF assms, of "length xs" "xs @ rest" c] by simp

lemma sweepDown_after:
  assumes "\<forall>k<n. limit < downAngle s a k" "\<not> limit < downAngle s a n"
  shows "sweepDown limit s c (length xs) (xs @ rest) a
           = Some (length (xs @ map (\<lambda>k. sample (downAngle s a k) c) [0..<n]),
                   (xs @ map (\<lambda>k. sample (downAngle s a k) c) [0..<n]) @ drop n rest)"
  using sweepDown_result[OF assms, of "length xs" "xs @ rest" c] by simp

lemma computeDirections_wedge_result:
  assumes ds: "p_directions p = Some ds"
    and limited: "\<not> (minC = 0 \<and> maxC = TWO_PI)"
    and up: "upStops minC maxC n"
    and down: "inner \<noteq> 0 \<Longrightarrow> downStops maxC minC m"
  shows "computeDirections p minC maxC inner outer
           = Some (Inr (setDirections (Some (wedgeSamples minC maxC inner outer n m)) p))"
proof -
  let ?s = "toRadiansDouble 2"
  let ?ups = "map (\<lambda>k. sample (upAngle ?s minC k) outer) [0..<n]"
  let ?downs = "map (\<lambda>k. sample (downAngle ?s maxC k) inner) [0..<m]"
  have u: "sweepUp maxC ?s outer 0 ds minC = Some (length ?ups, ?ups @ drop n ds)"
    using sweepUp_after[where n = n and s = "?s" and a = minC and limit = maxC and xs = "[]" and rest = ds and c = outer] up by (simp add: upStops_def)
  have a1: "assignSpherical (length ?ups) (?ups @ drop n ds) maxC outer
      = (?ups @ [sample maxC outer]) @ drop (Suc 0) (drop n ds)"
    by (rule assignSpherical_after)
  let ?xs = "?ups @ [sample maxC outer]"
  let ?rest = "drop (Suc 0) (drop n ds)"
  have l1: "Suc (length ?ups) = length ?xs" by simp
  show ?thesis
  proof (cases "inner = 0")
    case True
    have a2: "assignSpherical (length ?xs) (?xs @ ?rest) maxC 0
        = (?xs @ [sample maxC 0]) @ drop (Suc 0) ?rest"
      by (rule assignSpherical_after)
    have tk: "take (Suc (length ?xs)) ((?xs @ [sample maxC 0]) @ drop (Suc 0) ?rest)
        = ?xs @ [sample maxC 0]" by simp
    have "computeDirections p minC maxC inner outer
        = Some (Inr (setDirections (Some (take (Suc (length ?xs))
                 (assignSpherical (length ?xs) (?xs @ ?rest) maxC 0))) p))"
      unfolding computeDirections_def
      using limited True by (simp only: ds u a1 l1 Let_def option.case prod.case if_False if_True simp_thms)
    also have "\<dots> = Some (Inr (setDirections (Some (?xs @ [sample maxC 0])) p))"
      by (simp only: a2 tk)
    finally show ?thesis using True by (simp add: wedgeSamples_def)
  next
    case False
    have d: "sweepDown minC ?s inner (length ?xs) (?xs @ ?rest) maxC
        = Some (length (?xs @ ?downs), (?xs @ ?downs) @ drop m ?rest)"
      using sweepDown_after[where n = m and s = "?s" and a = maxC and limit = minC and xs = "?xs" and rest = "?rest" and c = inner] down[OF False]
      by (simp add: downStops_def)
    let ?ys = "?xs @ ?downs"
    have a3: "assignSpherical (length ?ys) (?ys @ drop m ?rest) minC inner
        = (?ys @ [sample minC inner]) @ drop (Suc 0) (drop m ?rest)"
      by (rule assignSpherical_after)
    have tk: "take (Suc (length ?ys)) ((?ys @ [sample minC inner]) @ drop (Suc 0) (drop m ?rest))
        = ?ys @ [sample minC inner]" by simp
    have "computeDirections p minC maxC inner outer
        = Some (Inr (setDirections (Some (take (Suc (length ?ys))
                 (assignSpherical (length ?ys) (?ys @ drop m ?rest) minC inner))) p))"
      unfolding computeDirections_def
      using limited False by (simp only: ds u a1 l1 d Let_def option.case prod.case if_False if_True simp_thms)
    also have "\<dots> = Some (Inr (setDirections (Some (?ys @ [sample minC inner])) p))"
      by (simp only: a3 tk)
    finally show ?thesis using False by (simp add: wedgeSamples_def)
  qed
qed


lemma computeDirections_wedge_returns:
  assumes ds: "p_directions p = Some ds"
    and limited: "\<not> (minC = 0 \<and> maxC = TWO_PI)"
    and ret: "computeDirections p minC maxC inner outer = Some r"
  shows "\<exists>n m. upStops minC maxC n \<and> (inner \<noteq> 0 \<longrightarrow> downStops maxC minC m)"
proof -
  let ?s = "toRadiansDouble 2"
  have nl: "(minC = 0 \<and> maxC = TWO_PI) = False" using limited by simp
  have "sweepUp maxC ?s outer 0 ds minC \<noteq> None"
  proof
    assume "sweepUp maxC ?s outer 0 ds minC = None"
    then have "computeDirections p minC maxC inner outer = None"
      by (simp only: computeDirections_def ds Let_def nl if_False option.case)
    then show False using ret by simp
  qed
  then obtain i1 d1 where u: "sweepUp maxC ?s outer 0 ds minC = Some (i1, d1)" by auto
  from sweepUp_returns[OF u] obtain n where n: "upStops minC maxC n"
    unfolding upStops_def by blast
  show ?thesis
  proof (cases "inner = 0")
    case True
    then show ?thesis using n by blast
  next
    case False
    have "sweepDown minC ?s inner (Suc i1) (assignSpherical i1 d1 maxC outer) maxC \<noteq> None"
    proof
      assume "sweepDown minC ?s inner (Suc i1) (assignSpherical i1 d1 maxC outer) maxC = None"
      then have "computeDirections p minC maxC inner outer = None"
        using False
        by (simp only: computeDirections_def ds u Let_def nl if_False option.case prod.case
              simp_thms if_True)
      then show False using ret by simp
    qed
    then obtain y where
      "sweepDown minC ?s inner (Suc i1) (assignSpherical i1 d1 maxC outer) maxC = Some y" by auto
    from sweepDown_returns[OF this] obtain m where "downStops maxC minC m"
      unfolding downStops_def by blast
    then show ?thesis using n by blast
  qed
qed

lemma wedge_stops:
  assumes "\<bar>minC\<bar> \<le> 2 ^ 40" "\<bar>maxC\<bar> \<le> 2 ^ 40"
  shows "\<exists>n m. upStops minC maxC n \<and> downStops maxC minC m"
proof -
  have "- (2 ^ 40) \<le> minC" "maxC \<le> 2 ^ 40" using assms by linarith+
  from sweepUp_terminates[OF this] obtain n where "upStops minC maxC n"
    unfolding upStops_def by blast
  moreover from sweepDown_terminates[OF \<open>maxC \<le> 2 ^ 40\<close> \<open>- (2 ^ 40) \<le> minC\<close>]
  obtain m where "downStops maxC minC m" unfolding downStops_def by blast
  ultimately show ?thesis by blast
qed

text \<open>
  C6.  With clock-angle limits, whenever the sampler returns, its output is a wedge: the
  samples stepping up from the minimum clock angle while the angle is below the maximum
  clock angle, at the outer half-angle, then a sample at the maximum clock angle at the outer
  half-angle; then, for a nonzero inner half-angle, the samples stepping down from the
  maximum clock angle while the angle is above the minimum clock angle, at the inner
  half-angle, and last a sample at the minimum clock angle at the inner half-angle; for a
  zero inner half-angle, one last sample at the maximum clock angle with cone angle 0.  For
  clock angles up to \<open>2^40\<close> in size the sampler does return.
\<close>

theorem computeDirections_wedge:
  assumes "p_directions p = Some ds"
    and "\<not> (minimumClockAngle = 0 \<and> maximumClockAngle = TWO_PI)"
  shows "(\<forall>r. computeDirections p minimumClockAngle maximumClockAngle innerHalfAngle outerHalfAngle
                = Some r \<longrightarrow>
            (\<exists>n m. upStops minimumClockAngle maximumClockAngle n
                  \<and> (innerHalfAngle \<noteq> 0 \<longrightarrow> downStops maximumClockAngle minimumClockAngle m)
                  \<and> r = Inr (setDirections
                             (Some (wedgeSamples minimumClockAngle maximumClockAngle
                                      innerHalfAngle outerHalfAngle n m)) p)))
       \<and> (\<bar>minimumClockAngle\<bar> \<le> 2 ^ 40 \<and> \<bar>maximumClockAngle\<bar> \<le> 2 ^ 40 \<longrightarrow>
            (\<exists>r. computeDirections p minimumClockAngle maximumClockAngle innerHalfAngle
                    outerHalfAngle = Some r))"
proof (intro conjI allI impI)
  fix r
  assume ret: "computeDirections p minimumClockAngle maximumClockAngle innerHalfAngle
                 outerHalfAngle = Some r"
  from computeDirections_wedge_returns[OF assms ret] obtain n m where
    nm: "upStops minimumClockAngle maximumClockAngle n"
        "innerHalfAngle \<noteq> 0 \<longrightarrow> downStops maximumClockAngle minimumClockAngle m" by blast
  have "computeDirections p minimumClockAngle maximumClockAngle innerHalfAngle outerHalfAngle
      = Some (Inr (setDirections (Some (wedgeSamples minimumClockAngle maximumClockAngle
                                      innerHalfAngle outerHalfAngle n m)) p))"
    using nm by (intro computeDirections_wedge_result[OF assms]) simp_all
  then have "r = Inr (setDirections (Some (wedgeSamples minimumClockAngle maximumClockAngle
                                      innerHalfAngle outerHalfAngle n m)) p)"
    using ret by simp
  then show "\<exists>n m. upStops minimumClockAngle maximumClockAngle n
                  \<and> (innerHalfAngle \<noteq> 0 \<longrightarrow> downStops maximumClockAngle minimumClockAngle m)
                  \<and> r = Inr (setDirections
                             (Some (wedgeSamples minimumClockAngle maximumClockAngle
                                      innerHalfAngle outerHalfAngle n m)) p)"
    using nm by (intro exI[of _ n] exI[of _ m]) simp
next
  assume "\<bar>minimumClockAngle\<bar> \<le> 2 ^ 40 \<and> \<bar>maximumClockAngle\<bar> \<le> 2 ^ 40"
  then obtain n m where "upStops minimumClockAngle maximumClockAngle n"
    "downStops maximumClockAngle minimumClockAngle m"
    using wedge_stops by blast
  then show "\<exists>r. computeDirections p minimumClockAngle maximumClockAngle innerHalfAngle
                    outerHalfAngle = Some r"
    using computeDirections_wedge_result[OF assms, of n innerHalfAngle m outerHalfAngle] by simp
qed


lemma upStops_unique: "upStops a l n \<Longrightarrow> upStops a l n' \<Longrightarrow> n = n'"
  unfolding upStops_def by (rule ccontr) (metis nat_neq_iff)

lemma downStops_unique: "downStops a l n \<Longrightarrow> downStops a l n' \<Longrightarrow> n = n'"
  unfolding downStops_def by (rule ccontr) (metis nat_neq_iff)

lemma dadd_window:
  assumes "\<bar>a\<bar> \<le> 2 ^ 40"
  shows "a + 69 / 2000 \<le> dadd a (toRadiansDouble 2)" "dadd a (toRadiansDouble 2) \<le> a + 71 / 2000"
proof -
  have s: "349 / 10000 < toRadiansDouble 2" "toRadiansDouble 2 < 350 / 10000"
    by (simp_all add: angleStep_value)
  have "\<bar>a + toRadiansDouble 2\<bar> \<le> 2 ^ 41" using assms s by (simp add: abs_le_iff)
  from round64_error[OF this]
  have "\<bar>dadd a (toRadiansDouble 2) - (a + toRadiansDouble 2)\<bar> \<le> 1 / 2 ^ 12"
    unfolding dadd_def .
  then have "\<bar>dadd a (toRadiansDouble 2) - (a + toRadiansDouble 2)\<bar> \<le> 1 / 4096" by simp
  then show "a + 69 / 2000 \<le> dadd a (toRadiansDouble 2)"
    "dadd a (toRadiansDouble 2) \<le> a + 71 / 2000"
    using s by linarith+
qed

lemma dsub_window:
  assumes "\<bar>a\<bar> \<le> 2 ^ 40"
  shows "a - 71 / 2000 \<le> dsub a (toRadiansDouble 2)" "dsub a (toRadiansDouble 2) \<le> a - 69 / 2000"
proof -
  have s: "349 / 10000 < toRadiansDouble 2" "toRadiansDouble 2 < 350 / 10000"
    by (simp_all add: angleStep_value)
  have "\<bar>a - toRadiansDouble 2\<bar> \<le> 2 ^ 41" using assms s by (simp add: abs_le_iff)
  from round64_error[OF this]
  have "\<bar>dsub a (toRadiansDouble 2) - (a - toRadiansDouble 2)\<bar> \<le> 1 / 2 ^ 12"
    unfolding dsub_def .
  then have "\<bar>dsub a (toRadiansDouble 2) - (a - toRadiansDouble 2)\<bar> \<le> 1 / 4096" by simp
  then show "a - 71 / 2000 \<le> dsub a (toRadiansDouble 2)"
    "dsub a (toRadiansDouble 2) \<le> a - 69 / 2000"
    using s by linarith+
qed

text \<open>
  From 0 up to 1/16 the loop runs twice (0 and one step, about 0.0349; two steps, about
  0.0698, pass 1/16), and so does the loop from 1/16 down to 0.
\<close>

lemma small_wedge_up: "upStops 0 (1 / 16) 2"
proof -
  let ?s = "toRadiansDouble 2"
  have u1: "69 / 2000 \<le> dadd 0 ?s" "dadd 0 ?s \<le> 71 / 2000"
    using dadd_window[of 0] by simp_all
  then have "\<bar>dadd 0 ?s\<bar> \<le> 2 ^ 40" by simp
  from dadd_window(1)[OF this] u1 have u2: "69 / 1000 \<le> dadd (dadd 0 ?s) ?s" by simp
  have k: "k < 2 \<Longrightarrow> k = 0 \<or> k = Suc 0" for k :: nat by auto
  have "upAngle ?s 0 (Suc 0) = dadd 0 ?s" "upAngle ?s 0 2 = dadd (dadd 0 ?s) ?s"
    by (simp_all add: upAngle_def numeral_2_eq_2)
  then show ?thesis unfolding upStops_def using u1 u2 by (auto dest!: k)
qed

lemma small_wedge_down: "downStops (1 / 16) 0 2"
proof -
  let ?s = "toRadiansDouble 2"
  have d1: "27 / 1000 \<le> dsub (1 / 16) ?s" "dsub (1 / 16) ?s \<le> 28 / 1000"
    using dsub_window[of "1 / 16"] by simp_all
  then have "\<bar>dsub (1 / 16) ?s\<bar> \<le> 2 ^ 40" by simp
  from dsub_window(2)[OF this] d1 have d2: "dsub (dsub (1 / 16) ?s) ?s \<le> 0" by simp
  have k: "k < 2 \<Longrightarrow> k = 0 \<or> k = Suc 0" for k :: nat by auto
  have "downAngle ?s (1 / 16) (Suc 0) = dsub (1 / 16) ?s"
    "downAngle ?s (1 / 16) 2 = dsub (dsub (1 / 16) ?s) ?s"
    by (simp_all add: downAngle_def numeral_2_eq_2)
  then show ?thesis unfolding downStops_def using d1 d2 by (auto dest!: k)
qed

text \<open>
  A fresh primitive, clock angles 0 and 1/16, inner half-angle 1/2 and outer half-angle 1:
  six samples.
\<close>

theorem computeDirections_wedge_witness:
  "computeDirections (newCustomSensorVolume \<lparr> materialRef = 0, isTranslucent = False \<rparr>)
       0 (1 / 16) (1 / 2) 1
     = Some (Inr (setDirections
         (Some [sample 0 1, sample (dadd 0 (toRadiansDouble 2)) 1, sample (1 / 16) 1,
                sample (1 / 16) (1 / 2), sample (dsub (1 / 16) (toRadiansDouble 2)) (1 / 2),
                sample 0 (1 / 2)])
         (newCustomSensorVolume \<lparr> materialRef = 0, isTranslucent = False \<rparr>)))"
proof -
  let ?p = "newCustomSensorVolume \<lparr> materialRef = 0, isTranslucent = False \<rparr>"
  have ds: "p_directions ?p = Some []"
    by (simp add: newCustomSensorVolume_def setDirections_def)
  have lim: "\<not> ((0::real) = 0 \<and> (1 / 16 :: real) = TWO_PI)" by (simp add: TWO_PI_value)
  note w = computeDirections_wedge[OF ds lim, of "1 / 2" 1]
  have "\<bar>0::real\<bar> \<le> 2 ^ 40 \<and> \<bar>1 / 16 :: real\<bar> \<le> 2 ^ 40" by simp
  with w obtain r where r: "computeDirections ?p 0 (1 / 16) (1 / 2) 1 = Some r" by blast
  with w obtain n m where nm: "upStops 0 (1 / 16) n" "downStops (1 / 16) 0 m"
    "r = Inr (setDirections (Some (wedgeSamples 0 (1 / 16) (1 / 2) 1 n m)) ?p)" by auto
  have "n = 2" "m = 2"
    using nm(1,2) small_wedge_up small_wedge_down upStops_unique downStops_unique by blast+
  moreover have "wedgeSamples 0 (1 / 16) (1 / 2) 1 2 2
      = [sample 0 1, sample (dadd 0 (toRadiansDouble 2)) 1, sample (1 / 16) 1,
         sample (1 / 16) (1 / 2), sample (dsub (1 / 16) (toRadiansDouble 2)) (1 / 2),
         sample 0 (1 / 2)]"
    by (simp add: wedgeSamples_def upAngle_def downAngle_def upt_conv_Cons)
  ultimately show ?thesis using r nm(3) by simp
qed



section \<open>The shadow test\<close>

text \<open>
  The occlusion predicate as the specification words it, written out by coordinates:
  \<open>scale\<close> multiplies by the inverse radii of the ellipsoid, \<open>q = scale(apex)\<close>,
  \<open>test = |q|\<^sup>2 - 1\<close>, \<open>d = dot(scale(point) - q, q)\<close>, and the point is occluded iff
  \<open>d < - test\<close> and \<open>d / |scale(point) - q| < - sqrt(test)\<close>.
\<close>

definition scale :: "cartesian3 \<Rightarrow> cartesian3 \<Rightarrow> cartesian3" where
  "scale inverseRadii v =
     (case (inverseRadii, v) of
        ((dx, dy, dz), (x, y, z)) \<Rightarrow> (dx * x, dy * y, dz * z))"

definition outsideness :: "cartesian3 \<Rightarrow> cartesian3 \<Rightarrow> real" where
  "outsideness inverseRadii apex =
     (case scale inverseRadii apex of (qx, qy, qz) \<Rightarrow> qx\<^sup>2 + qy\<^sup>2 + qz\<^sup>2 - 1)"

definition isOccluded :: "cartesian3 \<Rightarrow> cartesian3 \<Rightarrow> cartesian3 \<Rightarrow> bool" where
  "isOccluded inverseRadii apex point =
     (case (scale inverseRadii apex, scale inverseRadii point) of
        ((qx, qy, qz), (sx, sy, sz)) \<Rightarrow>
          (let d = (sx - qx) * qx + (sy - qy) * qy + (sz - qz) * qz
           in d < - outsideness inverseRadii apex
              \<and> d / sqrt ((sx - qx)\<^sup>2 + (sy - qy)\<^sup>2 + (sz - qz)\<^sup>2)
                  < - sqrt (outsideness inverseRadii apex)))"

text \<open>
  C8.  The shader function is the occlusion predicate of the specification, and where the
  apex lies strictly outside the unit sphere of the scaled space, the apex is not in its own
  shadow.
\<close>

theorem inSensorShadow_is_occlusion:
  "(inSensorShadow inverseRadii apex point \<longleftrightarrow> isOccluded inverseRadii apex point)
   \<and> (0 < outsideness inverseRadii apex \<longrightarrow> \<not> inSensorShadow inverseRadii apex apex)"
proof -
  obtain dx dy dz where D: "inverseRadii = (dx, dy, dz)" by (cases inverseRadii) auto
  obtain ax ay az where a: "apex = (ax, ay, az)" by (cases apex) auto
  obtain px py pz where p: "point = (px, py, pz)" by (cases point) auto
  show ?thesis
    by (simp add: D a p inSensorShadow_def isOccluded_def outsideness_def scale_def
          magnitudeOf_def Let_def power2_eq_square)
qed

text \<open>
  The unit sphere, the apex at (2, 0, 0): the point (-2, 0, 0) behind the sphere is in the
  shadow, the apex is not.
\<close>

theorem inSensorShadow_is_occlusion_witness:
  "inSensorShadow (1, 1, 1) (2, 0, 0) (- 2, 0, 0)
   \<and> isOccluded (1, 1, 1) (2, 0, 0) (- 2, 0, 0)
   \<and> outsideness (1, 1, 1) (2, 0, 0) = 3
   \<and> \<not> inSensorShadow (1, 1, 1) (2, 0, 0) (2, 0, 0)"
proof -
  have "sqrt 3 < 2" by (rule real_less_lsqrt) simp_all
  then have "isOccluded (1, 1, 1) (2, 0, 0) (- 2, 0, 0)"
    by (simp add: isOccluded_def outsideness_def scale_def Let_def)
  moreover have "outsideness (1, 1, 1) (2, 0, 0) = 3"
    by (simp add: outsideness_def scale_def)
  ultimately show ?thesis
    using inSensorShadow_is_occlusion[of "(1, 1, 1)" "(2, 0, 0)" "(- 2, 0, 0)"]
    by simp
qed



section \<open>The rectangular sampler\<close>

text \<open>
  The four corners as the specification words them: both half-angles capped at 89 degrees
  before the tangent is taken, \<open>theta = atan(tanX / tanY)\<close>, the clock angles \<open>theta\<close>,
  \<open>180\<degree> - theta\<close>, \<open>180\<degree> + theta\<close> and \<open>- theta\<close>, and the common cone angle
  \<open>atan(sqrt(tanX\<^sup>2 + tanY\<^sup>2))\<close>, all at magnitude 1.
\<close>

definition corner :: "'n arithmetic \<Rightarrow> 'n \<Rightarrow> 'n \<Rightarrow> 'n jsSpherical" where
  "corner N clk cn = \<lparr> jsClock = clk, jsCone = cn, jsMagnitude = literal N 1 \<rparr>"

definition cappedTangent :: "'n arithmetic \<Rightarrow> 'n \<Rightarrow> 'n" where
  "cappedTangent N halfAngle = mathTan N (mathMin N halfAngle (toRadiansOf N (literal N 89)))"

definition rectangleCorners :: "'n arithmetic \<Rightarrow> 'n \<Rightarrow> 'n \<Rightarrow> 'n jsSpherical list" where
  "rectangleCorners N xHalfAngle yHalfAngle =
     (let tanX = cappedTangent N xHalfAngle;
          tanY = cappedTangent N yHalfAngle;
          theta = mathAtan N (jsDiv N tanX tanY);
          coneAngle = mathAtan N (mathSqrt N (jsAdd N (jsMul N tanX tanX) (jsMul N tanY tanY)));
          straight = toRadiansOf N (literal N 180)
      in [corner N theta coneAngle, corner N (jsSub N straight theta) coneAngle,
          corner N (jsAdd N straight theta) coneAngle, corner N (jsNeg N theta) coneAngle])"

lemma assignSpherical1_eq:
  assumes "i \<le> length ds"
  shows "assignSpherical1 N i ds a c = take i ds @ [corner N a c] @ drop (Suc i) ds"
proof (cases "i < length ds")
  case True
  then show ?thesis
    by (simp add: assignSpherical1_def corner_def upd_conv_take_nth_drop)
next
  case False
  then have "i = length ds" using assms by simp
  then show ?thesis by (simp add: assignSpherical1_def corner_def)
qed

lemma assignSpherical1_four:
  "take 4 (assignSpherical1 N 3 (assignSpherical1 N 2 (assignSpherical1 N 1
      (assignSpherical1 N 0 ds a c) a' c') a'' c'') a''' c''')
     = [corner N a c, corner N a' c', corner N a'' c'', corner N a''' c''']"
proof -
  have 1: "assignSpherical1 N 0 ds a c = [corner N a c] @ drop (Suc 0) ds"
    using assignSpherical1_eq[of 0 ds N a c] by simp
  have 2: "assignSpherical1 N 1 ([corner N a c] @ drop (Suc 0) ds) a' c'
      = [corner N a c, corner N a' c'] @ drop (Suc 0) (drop (Suc 0) ds)"
    using assignSpherical1_eq[of 1 "[corner N a c] @ drop (Suc 0) ds" N a' c'] by simp
  have 3: "assignSpherical1 N 2 ([corner N a c, corner N a' c'] @ drop (Suc 0) (drop (Suc 0) ds)) a'' c''
      = [corner N a c, corner N a' c', corner N a'' c'']
          @ drop (Suc 0) (drop (Suc 0) (drop (Suc 0) ds))"
    using assignSpherical1_eq
      [of 2 "[corner N a c, corner N a' c'] @ drop (Suc 0) (drop (Suc 0) ds)" N a'' c'']
    by simp
  have 4: "assignSpherical1 N 3 ([corner N a c, corner N a' c', corner N a'' c'']
              @ drop (Suc 0) (drop (Suc 0) (drop (Suc 0) ds))) a''' c'''
      = [corner N a c, corner N a' c', corner N a'' c'', corner N a''' c''']
          @ drop (Suc 0) (drop (Suc 0) (drop (Suc 0) (drop (Suc 0) ds)))"
    using assignSpherical1_eq[of 3 "[corner N a c, corner N a' c', corner N a'' c'']
              @ drop (Suc 0) (drop (Suc 0) (drop (Suc 0) ds))" N a''' c''']
    by simp
  show ?thesis unfolding 1 2 3 4 by simp
qed

lemma updateDirections_result:
  assumes "w_directions (p_customSensor rs) = Some ds"
  shows "updateDirections N rs
           = Inr (rs\<lparr> p_customSensor :=
                    \<lparr> w_directions = Some (rectangleCorners N (p_xHalfAngle rs) (p_yHalfAngle rs)),
                      w_directionsDirty = True \<rparr> \<rparr>)"
  unfolding updateDirections_def rectangleCorners_def cappedTangent_def Let_def
  by (simp only: assms option.case assignSpherical1_four)

text \<open>In exact arithmetic, two half-angles of 45 degrees.\<close>

lemma rectangleCorners_45:
  "rectangleCorners exactArithmetic (Num (pi / 4)) (Num (pi / 4))
     = [corner exactArithmetic (Num (pi / 4)) (Num (arctan (sqrt 2))),
        corner exactArithmetic (Num (3 * pi / 4)) (Num (arctan (sqrt 2))),
        corner exactArithmetic (Num (5 * pi / 4)) (Num (arctan (sqrt 2))),
        corner exactArithmetic (Num (- (pi / 4))) (Num (arctan (sqrt 2)))]"
proof -
  have m: "min (pi / 4) (89 * (pi / 180)) = pi / 4" by (simp add: min_def)
  have t: "cappedTangent exactArithmetic (Num (pi / 4)) = Num 1"
    by (simp add: cappedTangent_def exactArithmetic_def m tan_45)
  show ?thesis
    unfolding rectangleCorners_def t
    by (simp add: exactArithmetic_def Let_def arctan_one numSub_def)
qed

text \<open>
  In exact arithmetic, a second half-angle of zero: the quotient of the tangents is
  infinite and the clock angles are right angles.
\<close>

lemma rectangleCorners_flat:
  "rectangleCorners exactArithmetic (Num (pi / 4)) (Num 0)
     = [corner exactArithmetic (Num (pi / 2)) (Num (pi / 4)),
        corner exactArithmetic (Num (pi / 2)) (Num (pi / 4)),
        corner exactArithmetic (Num (3 * pi / 2)) (Num (pi / 4)),
        corner exactArithmetic (Num (- (pi / 2))) (Num (pi / 4))]"
proof -
  have m: "min (pi / 4) (89 * (pi / 180)) = pi / 4" by (simp add: min_def)
  have t: "cappedTangent exactArithmetic (Num (pi / 4)) = Num 1"
    by (simp add: cappedTangent_def exactArithmetic_def m tan_45)
  have m0: "min 0 (89 * (pi / 180)) = (0::real)" by (simp add: min_def)
  have t0: "cappedTangent exactArithmetic (Num 0) = Num 0"
    by (simp add: cappedTangent_def exactArithmetic_def m0)
  show ?thesis
    unfolding rectangleCorners_def t t0
    by (simp add: exactArithmetic_def Let_def arctan_one numSub_def signedInfinity_def)
qed


text \<open>
  C7.  Whatever the array held before and whatever the half-angles are, the rectangular
  sampler leaves exactly four samples: the four corners of the specification, each
  half-angle capped at 89 degrees before its tangent is taken, computed with the
  operations of the arithmetic at hand (in JavaScript's, a zero divisor gives an infinite
  quotient and a right angle).  In exact arithmetic two half-angles of 45 degrees give the
  clock angles 45, 135, 225 and -45 degrees and the common cone angle between 0 and 90
  degrees whose cosine is \<open>1 / sqrt 3\<close>.
\<close>

theorem rectangle_has_four_corners:
  assumes "w_directions (p_customSensor rs) = Some ds"
  shows "updateDirections N rs
           = Inr (rs\<lparr> p_customSensor :=
                    \<lparr> w_directions = Some (rectangleCorners N (p_xHalfAngle rs) (p_yHalfAngle rs)),
                      w_directionsDirty = True \<rparr> \<rparr>)
       \<and> length (rectangleCorners N (p_xHalfAngle rs) (p_yHalfAngle rs)) = 4
       \<and> rectangleCorners exactArithmetic (Num (pi / 4)) (Num (pi / 4))
           = [corner exactArithmetic (Num (pi / 4)) (Num (arctan (sqrt 2))),
              corner exactArithmetic (Num (3 * pi / 4)) (Num (arctan (sqrt 2))),
              corner exactArithmetic (Num (5 * pi / 4)) (Num (arctan (sqrt 2))),
              corner exactArithmetic (Num (- (pi / 4))) (Num (arctan (sqrt 2)))]
       \<and> cos (arctan (sqrt 2)) = 1 / sqrt 3
       \<and> 0 < arctan (sqrt 2) \<and> arctan (sqrt 2) < pi / 2"
proof (intro conjI)
  show "updateDirections N rs
      = Inr (rs\<lparr> p_customSensor :=
               \<lparr> w_directions = Some (rectangleCorners N (p_xHalfAngle rs) (p_yHalfAngle rs)),
                 w_directionsDirty = True \<rparr> \<rparr>)"
    by (rule updateDirections_result[OF assms])
  show "length (rectangleCorners N (p_xHalfAngle rs) (p_yHalfAngle rs)) = 4"
    by (simp add: rectangleCorners_def Let_def)
  show "rectangleCorners exactArithmetic (Num (pi / 4)) (Num (pi / 4))
      = [corner exactArithmetic (Num (pi / 4)) (Num (arctan (sqrt 2))),
         corner exactArithmetic (Num (3 * pi / 4)) (Num (arctan (sqrt 2))),
         corner exactArithmetic (Num (5 * pi / 4)) (Num (arctan (sqrt 2))),
         corner exactArithmetic (Num (- (pi / 4))) (Num (arctan (sqrt 2)))]"
    by (rule rectangleCorners_45)
  show "cos (arctan (sqrt 2)) = 1 / sqrt 3" by (simp add: cos_arctan)
  show "0 < arctan (sqrt 2)" by (simp add: zero_less_arctan_iff)
  show "arctan (sqrt 2) < pi / 2" by (rule arctan_ubound)
qed

text \<open>
  A rectangular sensor with an empty array and both half-angles at 45 degrees, in exact
  arithmetic.
\<close>

theorem rectangle_has_four_corners_witness:
  "updateDirections exactArithmetic
     \<lparr> p_customSensor = \<lparr> w_directions = Some [], w_directionsDirty = False \<rparr>,
       p_xHalfAngle = Num (pi / 4), p_yHalfAngle = Num (pi / 4) \<rparr>
   = Inr \<lparr> p_customSensor =
             \<lparr> w_directions =
                 Some [corner exactArithmetic (Num (pi / 4)) (Num (arctan (sqrt 2))),
                       corner exactArithmetic (Num (3 * pi / 4)) (Num (arctan (sqrt 2))),
                       corner exactArithmetic (Num (5 * pi / 4)) (Num (arctan (sqrt 2))),
                       corner exactArithmetic (Num (- (pi / 4))) (Num (arctan (sqrt 2)))],
               w_directionsDirty = True \<rparr>,
           p_xHalfAngle = Num (pi / 4), p_yHalfAngle = Num (pi / 4) \<rparr>
   \<and> cos (arctan (sqrt 2)) = 1 / sqrt 3"
  using rectangle_has_four_corners
    [where rs = "\<lparr> p_customSensor = \<lparr> w_directions = Some [], w_directionsDirty = False \<rparr>,
                    p_xHalfAngle = Num (pi / 4), p_yHalfAngle = Num (pi / 4) \<rparr>"
       and ds = "[]" and N = exactArithmetic]
  by simp


end
